(* ===== verification/Prelude.thy ===== *)
theory Prelude
  imports Main "HOL-Library.Sublist" "HOL-Library.State_Monad"
begin

text \<open>
  What every component shares: Go slices that may be nil, the status names of the schema,
  decimal printing (\<^verbatim>\<open>%d\<close>), the shape of a SQL \<^verbatim>\<open>UPDATE ... WHERE\<close> on a table kept
  as a list of rows, and the collections of facts the component proofs pass to the simplifier.
\<close>

named_theorems exec_simps \<open>how the statements and operations act on a world\<close>
named_theorems steps_intros \<open>operations that issue only the statements of the write relation\<close>
named_theorems row_simps \<open>what the row updates do to the columns\<close>

type_synonym time = int

subsection \<open>Go slices\<close>

text \<open>A slice is nil or a list; \<open>len\<close> and \<open>range\<close> read a nil slice as the empty one.\<close>

type_synonym 'a slice = "'a list option"

definition elems :: "'a slice \<Rightarrow> 'a list" where
  "elems s = (case s of None \<Rightarrow> [] | Some xs \<Rightarrow> xs)"

lemma elems_simps [simp]: "elems None = []" "elems (Some xs) = xs"
  by (simp_all add: elems_def)

definition append_slice :: "'a slice \<Rightarrow> 'a \<Rightarrow> 'a slice" where
  "append_slice s x = Some (elems s @ [x])"

lemma elems_append_slice [simp]: "elems (append_slice s x) = elems s @ [x]"
  by (simp add: append_slice_def)

text \<open>The slice that \<open>append\<close> builds from nil: nil when nothing was appended.\<close>

definition built :: "'a list \<Rightarrow> 'a slice" where
  "built xs = (if xs = [] then None else Some xs)"

lemma elems_built [simp]: "elems (built xs) = xs"
  by (simp add: built_def)

subsection \<open>Status names\<close>

text \<open>
  The six task states and the four gate states of the schema's CHECK constraints.
  The code compares strings, and so does the model; the constants keep the simplifier from
  comparing them letter by letter.
\<close>

definition st_pending :: string where "st_pending = ''pending''"
definition st_claimed :: string where "st_claimed = ''claimed''"
definition st_in_progress :: string where "st_in_progress = ''in_progress''"
definition st_blocked :: string where "st_blocked = ''blocked''"
definition st_completed :: string where "st_completed = ''completed''"
definition st_failed :: string where "st_failed = ''failed''"
definition st_asked :: string where "st_asked = ''asked''"
definition st_answered :: string where "st_answered = ''answered''"
definition st_resolved :: string where "st_resolved = ''resolved''"

lemmas status_defs = st_pending_def st_claimed_def st_in_progress_def st_blocked_def
  st_completed_def st_failed_def st_asked_def st_answered_def st_resolved_def

lemma status_distinct [simp]:
  "distinct [st_pending, st_claimed, st_in_progress, st_blocked, st_completed, st_failed,
     st_asked, st_answered, st_resolved, []]"
  by (simp add: status_defs)

lemma status_neq [simp]:
  "st_pending \<noteq> st_claimed" "st_pending \<noteq> st_in_progress" "st_pending \<noteq> st_blocked"
  "st_pending \<noteq> st_completed" "st_pending \<noteq> st_failed" "st_claimed \<noteq> st_pending"
  "st_claimed \<noteq> st_in_progress" "st_claimed \<noteq> st_blocked" "st_claimed \<noteq> st_completed"
  "st_claimed \<noteq> st_failed" "st_in_progress \<noteq> st_pending" "st_in_progress \<noteq> st_claimed"
  "st_in_progress \<noteq> st_blocked" "st_in_progress \<noteq> st_completed" "st_in_progress \<noteq> st_failed"
  "st_blocked \<noteq> st_pending" "st_blocked \<noteq> st_claimed" "st_blocked \<noteq> st_in_progress"
  "st_blocked \<noteq> st_completed" "st_blocked \<noteq> st_failed" "st_completed \<noteq> st_pending"
  "st_completed \<noteq> st_claimed" "st_completed \<noteq> st_in_progress" "st_completed \<noteq> st_blocked"
  "st_completed \<noteq> st_failed" "st_failed \<noteq> st_pending" "st_failed \<noteq> st_claimed"
  "st_failed \<noteq> st_in_progress" "st_failed \<noteq> st_blocked" "st_failed \<noteq> st_completed"
  "st_pending \<noteq> []" "st_claimed \<noteq> []" "st_in_progress \<noteq> []" "st_blocked \<noteq> []"
  "st_completed \<noteq> []" "st_failed \<noteq> []" "[] \<noteq> st_pending" "[] \<noteq> st_claimed"
  "[] \<noteq> st_in_progress" "[] \<noteq> st_blocked" "[] \<noteq> st_completed" "[] \<noteq> st_failed"
  by (simp_all add: status_defs)

lemma gate_status_neq [simp]:
  "st_pending \<noteq> st_asked" "st_pending \<noteq> st_answered" "st_pending \<noteq> st_resolved"
  "st_asked \<noteq> st_pending" "st_asked \<noteq> st_answered" "st_asked \<noteq> st_resolved"
  "st_answered \<noteq> st_pending" "st_answered \<noteq> st_asked" "st_answered \<noteq> st_resolved"
  "st_resolved \<noteq> st_pending" "st_resolved \<noteq> st_asked" "st_resolved \<noteq> st_answered"
  "st_asked \<noteq> []" "st_answered \<noteq> []" "st_resolved \<noteq> []"
  by (simp_all add: status_defs)

definition task_statuses :: "string list" where
  "task_statuses = [st_pending, st_claimed, st_in_progress, st_blocked, st_completed, st_failed]"

definition gate_statuses :: "string list" where
  "gate_statuses = [st_pending, st_asked, st_answered, st_resolved]"

lemma task_statuses_mem [simp]:
  "st_pending \<in> set task_statuses" "st_claimed \<in> set task_statuses"
  "st_in_progress \<in> set task_statuses" "st_blocked \<in> set task_statuses"
  "st_completed \<in> set task_statuses" "st_failed \<in> set task_statuses" "[] \<notin> set task_statuses"
  by (simp_all add: task_statuses_def)

lemma gate_statuses_mem [simp]:
  "st_pending \<in> set gate_statuses" "st_asked \<in> set gate_statuses"
  "st_answered \<in> set gate_statuses" "st_resolved \<in> set gate_statuses"
  by (simp_all add: gate_statuses_def)

subsection \<open>Decimal numbers\<close>

definition digit :: "nat \<Rightarrow> char" where
  "digit n = char_of (48 + n)"

definition is_digit :: "char \<Rightarrow> bool" where
  "is_digit c \<longleftrightarrow> 48 \<le> (of_char c :: nat) \<and> (of_char c :: nat) \<le> 57"

definition digit_val :: "char \<Rightarrow> nat" where
  "digit_val c = of_char c - 48"

fun dec_nat :: "nat \<Rightarrow> string" where
  "dec_nat n = (if n < 10 then [digit n] else dec_nat (n div 10) @ [digit (n mod 10)])"

declare dec_nat.simps [simp del]

definition dec_int :: "int \<Rightarrow> string" where
  "dec_int i = (if i < 0 then CHR ''-'' # dec_nat (nat (- i)) else dec_nat (nat i))"

definition undec :: "string \<Rightarrow> nat" where
  "undec s = foldl (\<lambda>a c. 10 * a + digit_val c) 0 s"

lemma digit_props [simp]:
  assumes "n < 10"
  shows "is_digit (digit n)" "digit_val (digit n) = n"
  using assms by (simp_all add: is_digit_def digit_val_def digit_def)

lemma dec_nat_digits: "\<forall>c \<in> set (dec_nat n). is_digit c"
proof (induction n rule: dec_nat.induct)
  case (1 n)
  then show ?case by (subst dec_nat.simps) auto
qed

lemma dec_nat_nonempty [simp]: "dec_nat n \<noteq> []"
  by (subst dec_nat.simps) simp

lemma undec_dec_nat [simp]: "undec (dec_nat n) = n"
proof (induction n rule: dec_nat.induct)
  case (1 n)
  then show ?case by (subst dec_nat.simps) (auto simp: undec_def)
qed

lemma dec_nat_no_leading_zero: "hd (dec_nat n) = CHR ''0'' \<Longrightarrow> dec_nat n = ''0''"
proof (induction n rule: dec_nat.induct)
  case (1 n)
  show ?case
  proof (cases "n < 10")
    case True
    with "1.prems" show ?thesis by (simp add: dec_nat.simps [of n])
  next
    case False
    with "1.prems" have "hd (dec_nat (n div 10)) = CHR ''0''"
      by (simp add: dec_nat.simps [of n])
    with "1.IH" False have z: "dec_nat (n div 10) = ''0''" by simp
    have "undec (dec_nat (n div 10)) = 0" unfolding z by (simp add: undec_def digit_val_def)
    with False show ?thesis by simp
  qed
qed

subsection \<open>Rows\<close>

definition upd_where :: "('r \<Rightarrow> bool) \<Rightarrow> ('r \<Rightarrow> 'r) \<Rightarrow> 'r list \<Rightarrow> 'r list" where
  "upd_where P f rs = map (\<lambda>r. if P r then f r else r) rs"

definition count_where :: "('r \<Rightarrow> bool) \<Rightarrow> 'r list \<Rightarrow> nat" where
  "count_where P rs = length (filter P rs)"

lemma upd_where_simps [simp]:
  "upd_where P f [] = []"
  "upd_where P f (r # rs) = (if P r then f r else r) # upd_where P f rs"
  "upd_where P f (rs @ rs') = upd_where P f rs @ upd_where P f rs'"
  "length (upd_where P f rs) = length rs"
  by (simp_all add: upd_where_def)

lemma count_where_simps [simp]:
  "count_where P [] = 0"
  "count_where P (r # rs) = (if P r then Suc (count_where P rs) else count_where P rs)"
  by (simp_all add: count_where_def)

lemma count_where_0: "count_where P rs = 0 \<longleftrightarrow> (\<forall>r \<in> set rs. \<not> P r)"
  by (auto simp: count_where_def filter_empty_conv)

lemma upd_where_none: "count_where P rs = 0 \<Longrightarrow> upd_where P f rs = rs"
  by (induction rs) (auto split: if_splits)

lemma map_upd_where: "(\<And>r. k (f r) = k r) \<Longrightarrow> map k (upd_where P f rs) = map k rs"
  by (simp add: upd_where_def)

lemma set_upd_where: "set (upd_where P f rs) = (\<lambda>r. if P r then f r else r) ` set rs"
  by (simp add: upd_where_def)

lemma find_upd_where:
  assumes "\<And>r. k (f r) = k r"
  shows "find (\<lambda>r. k r = x) (upd_where P f rs) =
    map_option (\<lambda>r. if P r then f r else r) (find (\<lambda>r. k r = x) rs)"
  using assms by (induction rs) auto

lemma find_key_mem: "find (\<lambda>r. k r = x) rs = Some r \<Longrightarrow> r \<in> set rs \<and> k r = x"
  by (induction rs) (auto split: if_splits)

lemma find_key_None: "find (\<lambda>r. k r = x) rs = None \<longleftrightarrow> x \<notin> k ` set rs"
  by (induction rs) auto

lemma find_key_distinct:
  "distinct (map k rs) \<Longrightarrow> r \<in> set rs \<Longrightarrow> find (\<lambda>r. k r = k r') rs = Some r \<longleftrightarrow> k r' = k r"
  by (induction rs) (auto simp: image_iff find_Some_iff)

lemma find_distinct_mem:
  "distinct (map k rs) \<Longrightarrow> r \<in> set rs \<Longrightarrow> k r = x \<Longrightarrow> find (\<lambda>r. k r = x) rs = Some r"
  by (induction rs) (auto simp: image_iff)

lemma find_append: "find P (xs @ ys) = (case find P xs of None \<Rightarrow> find P ys | Some x \<Rightarrow> Some x)"
  by (induction xs) auto

lemma count_where_key:
  assumes "distinct (map k rs)"
  shows "count_where (\<lambda>r. k r = x \<and> Q r) rs =
    (case find (\<lambda>r. k r = x) rs of None \<Rightarrow> 0 | Some r \<Rightarrow> if Q r then 1 else 0)"
  using assms
proof (induction rs)
  case (Cons a rs)
  show ?case
  proof (cases "k a = x")
    case True
    with Cons.prems have "\<forall>r \<in> set rs. \<not> (k r = x \<and> Q r)"
      by (force simp: image_iff)
    then have "count_where (\<lambda>r. k r = x \<and> Q r) rs = 0" by (simp add: count_where_0)
    with True show ?thesis by simp
  next
    case False
    with Cons show ?thesis by simp
  qed
qed simp

subsection \<open>Substrings\<close>

lemma sublist_extend:
  assumes "sublist xs ys"
  shows "sublist xs (ps @ ys)" "sublist xs (ys @ ss)" "sublist xs (c # ys)"
proof -
  obtain a b where ys: "ys = a @ xs @ b" using assms by (auto simp: sublist_def)
  show "sublist xs (ps @ ys)" "sublist xs (ys @ ss)" "sublist xs (c # ys)"
    using sublist_appendI [of xs "ps @ a" b] sublist_appendI [of xs a "b @ ss"]
      sublist_appendI [of xs "c # a" b]
    by (simp_all add: ys)
qed

subsection \<open>Running state transformers\<close>

lemma run_state_bind [exec_simps]:
  "run_state (State_Monad.bind m f) w = (case run_state m w of (x, w') \<Rightarrow> run_state (f x) w')"
  by (cases m) (simp add: State_Monad.bind_def)

lemma run_state_return [exec_simps]: "run_state (State_Monad.return x) w = (x, w)"
  by (simp add: State_Monad.return_def)

end
