(* ===== verification/Times.thy ===== *)
theory Times
  imports Prelude
begin

text \<open>
  The timestamps of the task rows: \<^verbatim>\<open>parseTime\<close> of \<^verbatim>\<open>internal/db/task_repo.go\<close> and what it uses
  of \<^verbatim>\<open>time.Parse\<close>. A layout is read element by element as Go does; of the elements the package
  knows those of the four layouts are here. The columns are scanned into strings, which
  \<^verbatim>\<open>database/sql\<close> writes in the format RFC 3339 with nanoseconds; \<open>driver_text_read\<close> shows that
  \<open>parseTime\<close> gives back the instant of every such text, so that the readers of the repository
  model may pass the column on (they keep whole seconds).
\<close>

subsection \<open>Layouts\<close>

datatype chunk = Lit char | LongYear | ZeroMonth | ZeroDay | Hour24 | ZeroMinute | ZeroSecond
  | FracSecond9 | ISO8601ColonTZ

text \<open>The element a layout starts with and how many letters follow its first one.\<close>

definition std_chunk :: "string \<Rightarrow> (chunk \<times> nat) option" where
  "std_chunk s =
    (if take 4 s = ''2006'' then Some (LongYear, 3)
     else if take 2 s = ''01'' then Some (ZeroMonth, 1)
     else if take 2 s = ''02'' then Some (ZeroDay, 1)
     else if take 2 s = ''15'' then Some (Hour24, 1)
     else if take 2 s = ''04'' then Some (ZeroMinute, 1)
     else if take 2 s = ''05'' then Some (ZeroSecond, 1)
     else if take 6 s = ''Z07:00'' then Some (ISO8601ColonTZ, 5)
     else if take 2 s = ''.9'' then Some (FracSecond9, length (takeWhile ((=) (CHR ''9'')) (tl s)))
     else None)"

fun chunks :: "string \<Rightarrow> chunk list" where
  "chunks [] = []"
| "chunks (c # cs) = (case std_chunk (c # cs) of
     None \<Rightarrow> Lit c # chunks cs
   | Some (k, n) \<Rightarrow> k # chunks (drop n cs))"

definition pgTimestampMicro :: string where "pgTimestampMicro = ''2006-01-02 15:04:05.999999+00''"
definition pgTimestampSec :: string where "pgTimestampSec = ''2006-01-02 15:04:05+00''"
definition pgTimestampNoTZ :: string where "pgTimestampNoTZ = ''2006-01-02 15:04:05''"
definition RFC3339 :: string where "RFC3339 = ''2006-01-02T15:04:05Z07:00''"

subsection \<open>Reading a text by a layout\<close>

text \<open>What has been read; the zone is seconds east of UTC.\<close>

record stamp =
  year :: nat
  month :: nat
  day :: nat
  hour :: nat
  minute :: nat
  second :: nat
  nanos :: nat
  zone :: int

definition getnum :: "bool \<Rightarrow> string \<Rightarrow> (nat \<times> string) option" where
  "getnum fixed s = (case s of
     [] \<Rightarrow> None
   | c # cs \<Rightarrow>
       if \<not> is_digit c then None
       else case cs of
         d # r \<Rightarrow> if is_digit d then Some (10 * digit_val c + digit_val d, r)
                  else if fixed then None else Some (digit_val c, cs)
       | [] \<Rightarrow> if fixed then None else Some (digit_val c, []))"

text \<open>A number of two digits that must be in a range.\<close>

definition ranged :: "bool \<Rightarrow> nat \<Rightarrow> nat \<Rightarrow> string \<Rightarrow> (nat \<times> string) option" where
  "ranged fixed lo hi s = (case getnum fixed s of
     None \<Rightarrow> None
   | Some (n, r) \<Rightarrow> if lo \<le> n \<and> n \<le> hi then Some (n, r) else None)"

definition get_year :: "string \<Rightarrow> (nat \<times> string) option" where
  "get_year s = (if 4 \<le> length s \<and> list_all is_digit (take 4 s)
     then Some (undec (take 4 s), drop 4 s) else None)"

definition parse_nanoseconds :: "string \<Rightarrow> nat" where
  "parse_nanoseconds ds = undec (take 9 ds) * 10 ^ (9 - length (take 9 ds))"

definition has_fraction :: "string \<Rightarrow> bool" where
  "has_fraction s = (case s of c # d # _ \<Rightarrow> (c = CHR ''.'' \<or> c = CHR '','') \<and> is_digit d | _ \<Rightarrow> False)"

text \<open>The fraction of a second, as many digits as there are; none is read as zero.\<close>

definition get_fraction :: "string \<Rightarrow> nat \<times> string" where
  "get_fraction s = (if has_fraction s
     then (parse_nanoseconds (takeWhile is_digit (tl s)), dropWhile is_digit (tl s)) else (0, s))"

definition is_lit :: "chunk \<Rightarrow> bool" where
  "is_lit k = (case k of Lit _ \<Rightarrow> True | _ \<Rightarrow> False)"

text \<open>After the seconds a fraction is accepted too, unless the layout has an element for it next.\<close>

definition fraction_next :: "chunk list \<Rightarrow> bool" where
  "fraction_next ks = (case dropWhile is_lit ks of FracSecond9 # _ \<Rightarrow> True | _ \<Rightarrow> False)"

definition get_zone :: "string \<Rightarrow> (int \<times> string) option" where
  "get_zone s =
    (if s \<noteq> [] \<and> hd s = CHR ''Z'' then Some (0, tl s)
     else if length s < 6 \<or> s ! 3 \<noteq> CHR '':'' then None
     else case (getnum True (take 2 (drop 1 s)), getnum True (take 2 (drop 4 s))) of
       (Some (h, _), Some (m, _)) \<Rightarrow>
         if 24 < h \<or> 60 < m then None
         else if hd s = CHR ''+'' then Some (int ((h * 60 + m) * 60), drop 6 s)
         else if hd s = CHR ''-'' then Some (- int ((h * 60 + m) * 60), drop 6 s)
         else None
     | _ \<Rightarrow> None)"

text \<open>A blank of the layout stands for any blanks, and for none at the end of the text.\<close>

definition skip_lit :: "char \<Rightarrow> string \<Rightarrow> string option" where
  "skip_lit c s =
    (if c = CHR '' '' then
       (if s \<noteq> [] \<and> hd s \<noteq> CHR '' '' then None else Some (dropWhile ((=) (CHR '' '')) s))
     else if s = [] \<or> hd s \<noteq> c then None else Some (tl s))"

definition parse_chunk :: "chunk \<Rightarrow> chunk list \<Rightarrow> stamp \<Rightarrow> string \<Rightarrow> (stamp \<times> string) option" where
  "parse_chunk k ks t s = (case k of
     Lit c \<Rightarrow> map_option (Pair t) (skip_lit c s)
   | LongYear \<Rightarrow> map_option (\<lambda>(n, r). (t\<lparr>year := n\<rparr>, r)) (get_year s)
   | ZeroMonth \<Rightarrow> map_option (\<lambda>(n, r). (t\<lparr>month := n\<rparr>, r)) (ranged True 1 12 s)
   | ZeroDay \<Rightarrow> map_option (\<lambda>(n, r). (t\<lparr>day := n\<rparr>, r)) (getnum True s)
   | Hour24 \<Rightarrow> map_option (\<lambda>(n, r). (t\<lparr>hour := n\<rparr>, r)) (ranged False 0 23 s)
   | ZeroMinute \<Rightarrow> map_option (\<lambda>(n, r). (t\<lparr>minute := n\<rparr>, r)) (ranged True 0 59 s)
   | ZeroSecond \<Rightarrow> map_option (\<lambda>(n, r). if fraction_next ks then (t\<lparr>second := n\<rparr>, r)
       else (t\<lparr>second := n, nanos := if has_fraction r then fst (get_fraction r) else nanos t\<rparr>,
             snd (get_fraction r))) (ranged True 0 59 s)
   | FracSecond9 \<Rightarrow> Some (t\<lparr>nanos := if has_fraction s then fst (get_fraction s) else nanos t\<rparr>,
       snd (get_fraction s))
   | ISO8601ColonTZ \<Rightarrow> map_option (\<lambda>(z, r). (t\<lparr>zone := z\<rparr>, r)) (get_zone s))"

fun parse_chunks :: "chunk list \<Rightarrow> stamp \<Rightarrow> string \<Rightarrow> stamp option" where
  "parse_chunks [] t s = (if s = [] then Some t else None)"
| "parse_chunks (k # ks) t s = (case parse_chunk k ks t s of
     None \<Rightarrow> None
   | Some (t', r) \<Rightarrow> parse_chunks ks t' r)"

subsection \<open>Instants\<close>

definition leap :: "nat \<Rightarrow> bool" where
  "leap y \<longleftrightarrow> y mod 4 = 0 \<and> (y mod 100 \<noteq> 0 \<or> y mod 400 = 0)"

definition days_in :: "nat \<Rightarrow> nat \<Rightarrow> nat" where
  "days_in m y = (if m = 2 then if leap y then 29 else 28
     else if m \<in> {4, 6, 9, 11} then 30 else 31)"

text \<open>Days since 1970-01-01 in the Gregorian calendar, for the year 0 too.\<close>

definition date_days :: "nat \<Rightarrow> nat \<Rightarrow> nat \<Rightarrow> int" where
  "date_days y m d = (let p = int y - 1 in
     365 * p + p div 4 - p div 100 + p div 400
     + (\<Sum>k\<leftarrow>[1..<m]. int (days_in k y)) + int d - 1 - 719162)"

text \<open>An instant: seconds since 1970 and nanoseconds.\<close>

definition instant_of :: "stamp \<Rightarrow> int \<times> nat" where
  "instant_of t = (date_days (year t) (month t) (day t) * 86400
     + int (hour t * 3600 + minute t * 60 + second t) - zone t, nanos t)"

definition no_stamp :: stamp where
  "no_stamp = \<lparr>year = 0, month = 1, day = 1, hour = 0, minute = 0, second = 0, nanos = 0, zone = 0\<rparr>"

definition parse_layout :: "string \<Rightarrow> string \<Rightarrow> (int \<times> nat) option" where
  "parse_layout layout s = (case parse_chunks (chunks layout) no_stamp s of
     None \<Rightarrow> None
   | Some t \<Rightarrow> if 1 \<le> day t \<and> day t \<le> days_in (month t) (year t) then Some (instant_of t) else None)"

definition zero_time :: "int \<times> nat" where
  "zero_time = (date_days 1 1 1 * 86400, 0)"

fun first_layout :: "string list \<Rightarrow> string \<Rightarrow> int \<times> nat" where
  "first_layout [] s = zero_time"
| "first_layout (l # ls) s = (case parse_layout l s of None \<Rightarrow> first_layout ls s | Some i \<Rightarrow> i)"

definition parseTime :: "string \<Rightarrow> int \<times> nat" where
  "parseTime s = (if s = [] then zero_time
     else first_layout [pgTimestampMicro, pgTimestampSec, pgTimestampNoTZ, RFC3339] s)"

subsection \<open>The texts of instants\<close>

fun pad :: "nat \<Rightarrow> nat \<Rightarrow> string" where
  "pad 0 n = []"
| "pad (Suc w) n = pad w (n div 10) @ [digit (n mod 10)]"

text \<open>A fraction of a second without its trailing zeros, and nothing for none.\<close>

definition trim_zeros :: "string \<Rightarrow> string" where
  "trim_zeros s = rev (dropWhile ((=) (CHR ''0'')) (rev s))"

definition frac_text :: "nat \<Rightarrow> string" where
  "frac_text n = (if n = 0 then [] else CHR ''.'' # trim_zeros (pad 9 n))"

definition date_text :: "stamp \<Rightarrow> string" where
  "date_text t = pad 4 (year t) @ ''-'' @ pad 2 (month t) @ ''-'' @ pad 2 (day t)"

definition clock_text :: "stamp \<Rightarrow> string" where
  "clock_text t = pad 2 (hour t) @ '':'' @ pad 2 (minute t) @ '':'' @ pad 2 (second t)"

definition zone_text :: "int \<Rightarrow> string" where
  "zone_text z = (if z = 0 then ''Z''
     else (if z < 0 then ''-'' else ''+'') @ pad 2 (nat (\<bar>z\<bar> div 3600)) @ '':''
       @ pad 2 (nat (\<bar>z\<bar> div 60 mod 60)))"

text \<open>RFC 3339 with nanoseconds, as the driver's values reach a string.\<close>

definition driver_text :: "stamp \<Rightarrow> string" where
  "driver_text t = date_text t @ ''T'' @ clock_text t @ frac_text (nanos t) @ zone_text (zone t)"

text \<open>A moment of the calendar of four-digit years, in a zone of whole minutes.\<close>

definition calendar :: "stamp \<Rightarrow> bool" where
  "calendar t \<longleftrightarrow> year t < 10000 \<and> month t \<in> {1..12} \<and> day t \<in> {1..days_in (month t) (year t)}
     \<and> hour t < 24 \<and> minute t < 60 \<and> second t < 60 \<and> nanos t < 10 ^ 9
     \<and> zone t mod 60 = 0 \<and> \<bar>zone t\<bar> < 86400"

subsection \<open>Reading them back\<close>

lemma pad_length [simp]: "length (pad w n) = w"
  by (induction w arbitrary: n) simp_all

lemma pad_digits: "list_all is_digit (pad w n)"
  by (induction w arbitrary: n) simp_all

lemma undec_append_digit [simp]: "undec (s @ [digit d]) = 10 * undec s + d" if "d < 10"
  using that by (simp add: undec_def)

lemma undec_pad: "n < 10 ^ w \<Longrightarrow> undec (pad w n) = n"
proof (induction w arbitrary: n)
  case (Suc w)
  then have "n div 10 < 10 ^ w" by (simp add: less_mult_imp_div_less mult.commute)
  with Suc.IH show ?case by simp
qed (simp add: undec_def)

lemma pad2: "pad 2 n = [digit (n div 10 mod 10), digit (n mod 10)]"
  by (simp add: numeral_2_eq_2)

lemma getnum_pad: "n < 100 \<Longrightarrow> getnum fixed (pad 2 n @ r) = Some (n, r)"
  by (simp add: pad2 getnum_def)

lemma ranged_pad: "n < 100 \<Longrightarrow> lo \<le> n \<Longrightarrow> n \<le> hi \<Longrightarrow> ranged fixed lo hi (pad 2 n @ r) = Some (n, r)"
  by (simp add: ranged_def getnum_pad)

lemma get_year_pad: "n < 10000 \<Longrightarrow> get_year (pad 4 n @ r) = Some (n, r)"
  by (simp add: get_year_def pad_digits undec_pad)

lemma undec_append: "undec (s @ replicate k (CHR ''0'')) = undec s * 10 ^ k"
proof (induction k)
  case (Suc k)
  have "undec (s @ replicate (Suc k) (CHR ''0'')) = 10 * undec (s @ replicate k (CHR ''0''))"
    unfolding replicate_Suc replicate_append_same [symmetric] by (simp add: undec_def digit_val_def)
  with Suc show ?case by simp
qed simp

lemma trim_zeros_split: "\<exists>k. s = trim_zeros s @ replicate k (CHR ''0'')"
proof -
  let ?z = "takeWhile ((=) (CHR ''0'')) (rev s)"
  have "\<forall>c \<in> set ?z. c = CHR ''0''" by (auto dest: set_takeWhileD)
  then have "?z = replicate (length ?z) (CHR ''0'')" by (metis replicate_length_same)
  moreover have "s = trim_zeros s @ rev ?z"
    unfolding trim_zeros_def by (metis rev_append rev_rev_ident takeWhile_dropWhile_id)
  ultimately show ?thesis by (metis rev_replicate)
qed

text \<open>What may follow a fraction: no digit, and no point or comma.\<close>

definition ends_fraction :: "string \<Rightarrow> bool" where
  "ends_fraction r \<longleftrightarrow> (r = [] \<or> \<not> is_digit (hd r) \<and> hd r \<noteq> CHR ''.'' \<and> hd r \<noteq> CHR '','')"

lemma trimmed_pad:
  assumes "n < 10 ^ 9" "n \<noteq> 0"
  shows "trim_zeros (pad 9 n) \<noteq> []" "list_all is_digit (trim_zeros (pad 9 n))"
    "length (trim_zeros (pad 9 n)) \<le> 9" "parse_nanoseconds (trim_zeros (pad 9 n)) = n"
proof -
  let ?t = "trim_zeros (pad 9 n)"
  obtain k where k: "pad 9 n = ?t @ replicate k (CHR ''0'')" using trim_zeros_split by blast
  have n: "undec ?t * 10 ^ k = n" using undec_pad [OF assms(1)] k undec_append by metis
  have l: "length ?t + k = 9" using arg_cong [OF k, of length] by simp
  show "?t \<noteq> []" using n assms(2) by (auto simp: undec_def)
  show "list_all is_digit ?t" using pad_digits [of 9 n] k by (metis list_all_append)
  show len: "length ?t \<le> 9" using l by simp
  have "9 - length ?t = k" using l by simp
  with n len show "parse_nanoseconds ?t = n" by (simp add: parse_nanoseconds_def)
qed

lemma take_fraction_digits:
  assumes "list_all is_digit ds" "ends_fraction r"
  shows "takeWhile is_digit (ds @ r) = ds" "dropWhile is_digit (ds @ r) = r"
  using assms by (cases r; auto simp: list_all_iff ends_fraction_def takeWhile_append dropWhile_append)+

lemma get_fraction_text:
  assumes "n < 10 ^ 9" "ends_fraction r"
  shows "get_fraction (frac_text n @ r) = (n, r)" "has_fraction (frac_text n @ r) \<longleftrightarrow> n \<noteq> 0"
proof -
  have h: "has_fraction (frac_text n @ r) \<longleftrightarrow> n \<noteq> 0"
  proof (cases "n = 0")
    case True
    with assms(2) show ?thesis
      by (auto simp: frac_text_def has_fraction_def ends_fraction_def split: list.splits)
  next
    case False
    obtain d ds where t: "trim_zeros (pad 9 n) = d # ds"
      using trimmed_pad(1) [OF assms(1) False] by (cases "trim_zeros (pad 9 n)") auto
    moreover have "is_digit d" using trimmed_pad(2) [OF assms(1) False] t by simp
    ultimately show ?thesis using False by (simp add: frac_text_def has_fraction_def)
  qed
  then show "has_fraction (frac_text n @ r) \<longleftrightarrow> n \<noteq> 0" .
  show "get_fraction (frac_text n @ r) = (n, r)"
  proof (cases "n = 0")
    case True
    with h show ?thesis by (simp add: get_fraction_def frac_text_def)
  next
    case False
    with h trimmed_pad(2,4) [OF assms(1)] take_fraction_digits assms(2) show ?thesis
      by (simp add: get_fraction_def frac_text_def)
  qed
qed

lemma ends_fraction_zone: "ends_fraction (zone_text z)"
  by (simp add: ends_fraction_def zone_text_def is_digit_def)

lemma get_zone_signed:
  assumes "h < 24" "m < 60" "c = CHR ''+'' \<or> c = CHR ''-''"
  shows "get_zone (c # pad 2 h @ '':'' @ pad 2 m)
    = Some (if c = CHR ''+'' then int ((h * 60 + m) * 60) else - int ((h * 60 + m) * 60), [])"
proof -
  have g: "getnum True (pad 2 n) = Some (n, [])" if "n < 100" for n
    using getnum_pad [OF that, of True "[]"] by simp
  let ?s = "c # pad 2 h @ '':'' @ pad 2 m"
  have "take 2 (drop 1 ?s) = pad 2 h" "take 2 (drop 4 ?s) = pad 2 m" "?s ! 3 = CHR '':''"
    "length ?s = 6" "drop 6 ?s = []"
    by (simp_all add: pad2)
  then show ?thesis
    using assms g [of h] g [of m] unfolding get_zone_def by auto
qed

lemma get_zone_text:
  assumes "z mod 60 = 0" "\<bar>z\<bar> < 86400"
  shows "get_zone (zone_text z) = Some (z, [])"
proof (cases "z = 0")
  case True
  then show ?thesis by (simp add: get_zone_def zone_text_def)
next
  case False
  define h m where "h = nat (\<bar>z\<bar> div 3600)" and "m = nat (\<bar>z\<bar> div 60 mod 60)"
  have hm: "h < 24" "m < 60" using assms(2) by (auto simp: h_def m_def)
  obtain k where k: "\<bar>z\<bar> = 60 * k" using assms(1) by (metis dvd_abs_iff dvd_def mod_0_imp_dvd)
  have "\<bar>z\<bar> div 3600 = k div 60" using zdiv_zmult2_eq [of 60 "60 * k" 60] by (simp add: k)
  moreover have "\<bar>z\<bar> div 60 = k" by (simp add: k)
  ultimately have "\<bar>z\<bar> = (\<bar>z\<bar> div 3600 * 60 + \<bar>z\<bar> div 60 mod 60) * 60"
    using div_mult_mod_eq [of k 60] by (simp add: k)
  moreover have "0 \<le> \<bar>z\<bar> div 3600" by (simp add: pos_imp_zdiv_nonneg_iff)
  ultimately have v: "int ((h * 60 + m) * 60) = \<bar>z\<bar>" by (simp add: h_def m_def)
  let ?c = "if z < 0 then CHR ''-'' else CHR ''+''"
  have "zone_text z = ?c # pad 2 h @ '':'' @ pad 2 m"
    using False by (simp add: zone_text_def h_def m_def)
  moreover have "get_zone (?c # pad 2 h @ '':'' @ pad 2 m)
      = Some (if ?c = CHR ''+'' then \<bar>z\<bar> else - \<bar>z\<bar>, [])"
    using get_zone_signed [OF hm, of ?c] unfolding v by presburger
  moreover have "(if ?c = CHR ''+'' then \<bar>z\<bar> else - \<bar>z\<bar>) = z" by (cases "z < 0") simp_all
  ultimately show ?thesis by (simp only:)
qed

text \<open>The layouts, element by element.\<close>

definition date_chunks :: "chunk list" where
  "date_chunks = [LongYear, Lit (CHR ''-''), ZeroMonth, Lit (CHR ''-''), ZeroDay]"

definition clock_chunks :: "chunk list" where
  "clock_chunks = [Hour24, Lit (CHR '':''), ZeroMinute, Lit (CHR '':''), ZeroSecond]"

lemma layout_chunks:
  "chunks pgTimestampMicro = date_chunks @ Lit (CHR '' '') # clock_chunks
     @ [FracSecond9, Lit (CHR ''+''), Lit (CHR ''0''), Lit (CHR ''0'')]"
  "chunks pgTimestampSec = date_chunks @ Lit (CHR '' '') # clock_chunks
     @ [Lit (CHR ''+''), Lit (CHR ''0''), Lit (CHR ''0'')]"
  "chunks pgTimestampNoTZ = date_chunks @ Lit (CHR '' '') # clock_chunks"
  "chunks RFC3339 = date_chunks @ Lit (CHR ''T'') # clock_chunks @ [ISO8601ColonTZ]"
  by code_simp+

lemma parse_date:
  assumes "calendar t"
  shows "parse_chunks (date_chunks @ ks) s (date_text t @ r)
    = parse_chunks ks (s\<lparr>year := year t, month := month t, day := day t\<rparr>) r"
proof -
  have "day t < 100" using assms by (auto simp: calendar_def days_in_def split: if_splits)
  then show ?thesis
    using assms by (simp add: calendar_def date_chunks_def date_text_def parse_chunk_def get_year_pad
        ranged_pad getnum_pad skip_lit_def)
qed

lemma parse_clock:
  assumes "calendar t"
  shows "parse_chunks (clock_chunks @ ks) s (clock_text t @ r)
    = (if fraction_next ks
       then parse_chunks ks (s\<lparr>hour := hour t, minute := minute t, second := second t\<rparr>) r
       else parse_chunks ks (s\<lparr>hour := hour t, minute := minute t, second := second t,
         nanos := if has_fraction r then fst (get_fraction r) else nanos s\<rparr>) (snd (get_fraction r)))"
  using assms by (simp add: calendar_def clock_chunks_def clock_text_def parse_chunk_def
      ranged_pad skip_lit_def)

text \<open>The layouts with a blank after the date do not read the driver's texts.\<close>

lemma blank_layouts_refuse:
  assumes "calendar t" "layout \<in> {pgTimestampMicro, pgTimestampSec, pgTimestampNoTZ}"
  shows "parse_layout layout (driver_text t) = None"
  using assms by (auto simp: parse_layout_def layout_chunks driver_text_def parse_date
      parse_chunk_def skip_lit_def)

lemma rfc3339_reads:
  assumes "calendar t"
  shows "parse_layout RFC3339 (driver_text t) = Some (instant_of t)"
proof -
  let ?s = "no_stamp\<lparr>year := year t, month := month t, day := day t\<rparr>"
  have n: "nanos t < 10 ^ 9" and z: "zone t mod 60 = 0" "\<bar>zone t\<bar> < 86400"
    and d: "1 \<le> day t" "day t \<le> days_in (month t) (year t)"
    using assms by (auto simp: calendar_def)
  have "parse_chunks (chunks RFC3339) no_stamp (driver_text t)
      = parse_chunks (clock_chunks @ [ISO8601ColonTZ]) ?s
          (clock_text t @ frac_text (nanos t) @ zone_text (zone t))"
    using assms by (simp add: layout_chunks driver_text_def parse_date parse_chunk_def skip_lit_def)
  also have "\<dots> = Some t"
    using get_fraction_text [OF n ends_fraction_zone] get_zone_text [OF z]
    by (simp add: parse_clock [OF assms] parse_chunk_def fraction_next_def is_lit_def no_stamp_def)
  finally show ?thesis using d by (simp add: parse_layout_def)
qed

text \<open>
  PostgreSQL's own texts, with a blank after the date: in UTC the first layout reads them, with a
  fraction and without, so the second one is never needed; without a zone the third one does.
\<close>

definition pg_text :: "stamp \<Rightarrow> string" where
  "pg_text t = date_text t @ '' '' @ clock_text t @ frac_text (nanos t)"

lemma parse_blank_date:
  assumes "calendar t"
  shows "parse_chunks (date_chunks @ Lit (CHR '' '') # clock_chunks @ ks) no_stamp (pg_text t @ r)
    = parse_chunks (clock_chunks @ ks) (no_stamp\<lparr>year := year t, month := month t, day := day t\<rparr>)
        (clock_text t @ frac_text (nanos t) @ r)"
proof -
  have "CHR '' '' \<noteq> digit k" if "k < 10" for k
  proof -
    have "\<not> is_digit (CHR '' '')" by (simp add: is_digit_def)
    with digit_props(1) [OF that] show ?thesis by metis
  qed
  then have "dropWhile ((=) (CHR '' '')) (clock_text t @ q) = clock_text t @ q" for q
    by (simp add: clock_text_def pad2)
  then show ?thesis using assms by (simp add: pg_text_def parse_date parse_chunk_def skip_lit_def)
qed

lemma pg_text_read:
  assumes "calendar t" "zone t = 0"
  shows "parse_layout pgTimestampMicro (pg_text t @ ''+00'') = Some (instant_of t)"
    and "parse_layout pgTimestampNoTZ (pg_text t) = Some (instant_of t)"
proof -
  have n: "nanos t < 10 ^ 9" and d: "1 \<le> day t" "day t \<le> days_in (month t) (year t)"
    using assms by (auto simp: calendar_def)
  have e: "ends_fraction ''+00''" "ends_fraction []" by (simp_all add: ends_fraction_def is_digit_def)
  note parts = layout_chunks parse_blank_date [OF assms(1)] parse_clock [OF assms(1)]
    fraction_next_def is_lit_def
  have "parse_chunks (chunks pgTimestampMicro) no_stamp (pg_text t @ ''+00'') = Some t"
    using get_fraction_text [OF n e(1)] assms(2)
    by (simp add: parts parse_chunk_def skip_lit_def) (simp add: no_stamp_def)
  with d show "parse_layout pgTimestampMicro (pg_text t @ ''+00'') = Some (instant_of t)"
    by (simp add: parse_layout_def)
  have "parse_chunks (chunks pgTimestampNoTZ) no_stamp (pg_text t @ []) = Some t"
    using get_fraction_text [OF n e(2)] assms(2) parse_blank_date [OF assms(1), of "[]" "[]"]
      parse_clock [OF assms(1), of "[]"]
    by (simp add: layout_chunks fraction_next_def) (simp add: no_stamp_def)
  with d show "parse_layout pgTimestampNoTZ (pg_text t) = Some (instant_of t)"
    by (simp add: parse_layout_def)
qed

text \<open>The session's time zone matters: in any other zone PostgreSQL's text is not read at all.\<close>

lemma other_zone_lost: "parseTime ''2026-03-01 10:00:00-03'' = zero_time"
  by code_simp

lemma pad_numeral: "pad (numeral k) n = pad (pred_numeral k) (n div 10) @ [digit (n mod 10)]"
  by (subst numeral_eq_Suc [of k]) (rule pad.simps(2))

lemma digit_values: "digit 0 = CHR ''0''" "digit (Suc 0) = CHR ''1''" "digit 2 = CHR ''2''"
  "digit 3 = CHR ''3''" "digit 4 = CHR ''4''" "digit 5 = CHR ''5''" "digit 6 = CHR ''6''"
  "digit 7 = CHR ''7''" "digit 8 = CHR ''8''" "digit 9 = CHR ''9''"
  by code_simp+

lemmas text_values = pad_numeral digit_values trim_zeros_def frac_text_def date_text_def clock_text_def
  zone_text_def driver_text_def

lemma parseTime_driver_text: "calendar t \<Longrightarrow> parseTime (driver_text t) = instant_of t"
proof -
  assume "calendar t"
  have "length (date_text t) = 10" by (simp add: date_text_def)
  then have "driver_text t \<noteq> []" by (auto simp: driver_text_def)
  with \<open>calendar t\<close> show ?thesis by (simp add: parseTime_def blank_layouts_refuse rfc3339_reads)
qed

text \<open>C27. A timestamp survives the way from the column to the task: the text the driver makes of a moment of
  the calendar, in any zone of whole minutes and with any fraction of a second, is parsed as that
  moment, although the first three layouts the code tries refuse it.
\<close>

theorem driver_text_read:
  assumes "calendar t"
  shows "parseTime (driver_text t) = instant_of t"
  using assms by (rule parseTime_driver_text)

theorem driver_text_read_witness:
  "parseTime ''2026-02-28T23:59:59.1234-03:30'' = (1772335799, 123400000)"
proof -
  let ?t = "\<lparr>year = 2026, month = 2, day = 28, hour = 23, minute = 59, second = 59,
    nanos = 123400000, zone = -12600\<rparr>"
  have "calendar ?t" by (simp add: calendar_def days_in_def)
  moreover have "driver_text ?t = ''2026-02-28T23:59:59.1234-03:30''" by (simp add: text_values)
  moreover have "instant_of ?t = (1772335799, 123400000)"
    by (simp add: instant_of_def date_days_def days_in_def leap_def upt_rec)
  ultimately show ?thesis using driver_text_read [of ?t] by (simp only:)
qed

end
