(* ===== verification/Json.thy ===== *)
theory Json
  imports Prelude
begin

text \<open>
  The part of Go's \<^verbatim>\<open>encoding/json\<close> that the JSON columns and the request bodies use: \<open>json_text\<close> is what
  \<^verbatim>\<open>json.Marshal\<close> writes (HTML-escaped strings, no white space) and \<open>json_parse\<close> reads it
  back. Strings are byte strings in UTF-8; the columns hold integers only, and a number
  with a fraction or an exponent is kept as its literal. The round trip \<open>json_parse_text\<close> is what
  the repositories rely on; \<open>parse_val_fuel\<close> shows that the reader's fuel is enough for any text.
\<close>

datatype json = JNull | JBool bool | JNum int | JFrac string | JStr string | JArr "json list"
  | JObj "(string \<times> json) list"

subsection \<open>Writing\<close>

definition hex_digit :: "nat \<Rightarrow> char" where
  "hex_digit n = (if n < 10 then char_of (48 + n) else char_of (87 + n))"

text \<open>
  The escapes of \<^verbatim>\<open>appendString\<close> with \<^verbatim>\<open>escapeHTML\<close> set; the two line separators
  U+2028 and U+2029 are escaped as well, every other byte from 0x80 on is copied.
\<close>

function esc :: "string \<Rightarrow> string" where
  "esc [] = []"
| "esc (c # cs) =
    (if c = CHR 0x22 \<or> c = CHR 0x5C then CHR 0x5C # c # esc cs
     else if c = CHR 0x08 then CHR 0x5C # CHR ''b'' # esc cs
     else if c = CHR 0x0C then CHR 0x5C # CHR ''f'' # esc cs
     else if c = CHR 0x0A then CHR 0x5C # CHR ''n'' # esc cs
     else if c = CHR 0x0D then CHR 0x5C # CHR ''r'' # esc cs
     else if c = CHR 0x09 then CHR 0x5C # CHR ''t'' # esc cs
     else if (of_char c :: nat) < 32 \<or> c = CHR ''<'' \<or> c = CHR ''>'' \<or> c = CHR ''&'' then
       CHR 0x5C # CHR ''u'' # CHR ''0'' # CHR ''0'' # hex_digit (of_char c div 16)
         # hex_digit (of_char c mod 16) # esc cs
     else if c = CHR 0xE2 \<and> take 2 cs = [CHR 0x80, CHR 0xA8] then
       CHR 0x5C # ''u2028'' @ esc (drop 2 cs)
     else if c = CHR 0xE2 \<and> take 2 cs = [CHR 0x80, CHR 0xA9] then
       CHR 0x5C # ''u2029'' @ esc (drop 2 cs)
     else c # esc cs)"
  by pat_completeness auto
termination
  by (relation "measure length") auto

fun json_text :: "json \<Rightarrow> string"
  and json_elems :: "json list \<Rightarrow> string"
  and json_fields :: "(string \<times> json) list \<Rightarrow> string" where
  "json_text JNull = ''null''"
| "json_text (JBool b) = (if b then ''true'' else ''false'')"
| "json_text (JNum i) = dec_int i"
| "json_text (JFrac t) = t"
| "json_text (JStr s) = CHR 0x22 # esc s @ [CHR 0x22]"
| "json_text (JArr js) = CHR ''['' # json_elems js @ '']''"
| "json_text (JObj fs) = CHR ''{'' # json_fields fs @ ''}''"
| "json_elems [] = []"
| "json_elems [j] = json_text j"
| "json_elems (j # js) = json_text j @ CHR '','' # json_elems js"
| "json_fields [] = []"
| "json_fields [(k, j)] = CHR 0x22 # esc k @ CHR 0x22 # CHR '':'' # json_text j"
| "json_fields ((k, j) # fs) =
     CHR 0x22 # esc k @ CHR 0x22 # CHR '':'' # json_text j @ CHR '','' # json_fields fs"

subsection \<open>Reading\<close>

definition is_ws :: "char \<Rightarrow> bool" where
  "is_ws c \<longleftrightarrow> c = CHR '' '' \<or> c = CHR 0x09 \<or> c = CHR 0x0A \<or> c = CHR 0x0D"

definition ws :: "string \<Rightarrow> string" where
  "ws s = dropWhile is_ws s"

definition hex_val :: "char \<Rightarrow> nat option" where
  "hex_val c = (let n = (of_char c :: nat) in
     if 48 \<le> n \<and> n \<le> 57 then Some (n - 48)
     else if 97 \<le> n \<and> n \<le> 102 then Some (n - 87)
     else if 65 \<le> n \<and> n \<le> 70 then Some (n - 55) else None)"

definition hex4 :: "char \<Rightarrow> char \<Rightarrow> char \<Rightarrow> char \<Rightarrow> nat option" where
  "hex4 a b c d = (case (hex_val a, hex_val b, hex_val c, hex_val d) of
     (Some i, Some j, Some k, Some l) \<Rightarrow> Some (((i * 16 + j) * 16 + k) * 16 + l)
   | _ \<Rightarrow> None)"

text \<open>A code point in UTF-8; a surrogate becomes U+FFFD.\<close>

definition utf8 :: "nat \<Rightarrow> string" where
  "utf8 n = (if n < 128 then [char_of n]
     else if n < 2048 then [char_of (192 + n div 64), char_of (128 + n mod 64)]
     else if 65536 \<le> n then [char_of (240 + n div 262144), char_of (128 + (n div 4096) mod 64),
       char_of (128 + (n div 64) mod 64), char_of (128 + n mod 64)]
     else let m = (if 55296 \<le> n \<and> n \<le> 57343 then 65533 else n) in
       [char_of (224 + m div 4096), char_of (128 + (m div 64) mod 64), char_of (128 + m mod 64)])"

definition prepend :: "string \<Rightarrow> (string \<times> string) option \<Rightarrow> (string \<times> string) option" where
  "prepend p r = (case r of None \<Rightarrow> None | Some (s, rest) \<Rightarrow> Some (p @ s, rest))"

lemma prepend_simps [simp]:
  "prepend p None = None" "prepend p (Some (s, r)) = Some (p @ s, r)"
  by (simp_all add: prepend_def)

text \<open>\<^verbatim>\<open>utf16.DecodeRune\<close>: a high and a low surrogate are one code point.\<close>

definition surrogates :: "nat \<Rightarrow> nat option \<Rightarrow> nat option" where
  "surrogates n lo = (case lo of None \<Rightarrow> None | Some m \<Rightarrow>
     if 55296 \<le> n \<and> n < 56320 \<and> 56320 \<le> m \<and> m < 57344
     then Some ((n - 55296) * 1024 + (m - 56320) + 65536) else None)"

text \<open>The body of a string after its opening quote: its bytes and what follows it.\<close>

fun parse_chars :: "string \<Rightarrow> (string \<times> string) option" where
  "parse_chars [] = None"
| "parse_chars (c # cs) =
    (if c = CHR 0x22 then Some ([], cs)
     else if c = CHR 0x5C then
       (case cs of [] \<Rightarrow> None
        | e # es \<Rightarrow>
          if e = CHR 0x22 \<or> e = CHR 0x5C \<or> e = CHR ''/'' then prepend [e] (parse_chars es)
          else if e = CHR ''b'' then prepend [CHR 0x08] (parse_chars es)
          else if e = CHR ''f'' then prepend [CHR 0x0C] (parse_chars es)
          else if e = CHR ''n'' then prepend [CHR 0x0A] (parse_chars es)
          else if e = CHR ''r'' then prepend [CHR 0x0D] (parse_chars es)
          else if e = CHR ''t'' then prepend [CHR 0x09] (parse_chars es)
          else if e = CHR ''u'' then
            (case es of h1 # h2 # h3 # h4 # rest \<Rightarrow>
               (case hex4 h1 h2 h3 h4 of None \<Rightarrow> None
                | Some n \<Rightarrow>
                  (case rest of b # u # l1 # l2 # l3 # l4 # rest' \<Rightarrow>
                     (case surrogates n (if b = CHR 0x5C \<and> u = CHR ''u'' then hex4 l1 l2 l3 l4 else None) of
                        Some m \<Rightarrow> prepend (utf8 m) (parse_chars rest')
                      | None \<Rightarrow> prepend (utf8 n) (parse_chars rest))
                   | _ \<Rightarrow> prepend (utf8 n) (parse_chars rest)))
             | _ \<Rightarrow> None)
          else None)
     else if (of_char c :: nat) < 32 then None
     else prepend [c] (parse_chars cs))"

definition strip_prefix :: "string \<Rightarrow> string \<Rightarrow> string option" where
  "strip_prefix p s = (if take (length p) s = p then Some (drop (length p) s) else None)"

text \<open>The fraction and the exponent of a number, empty when there is none.\<close>

definition scan_frac :: "string \<Rightarrow> (string \<times> string) option" where
  "scan_frac s = (if s \<noteq> [] \<and> hd s = CHR ''.'' then
       (let ds = takeWhile is_digit (tl s) in
        if ds = [] then None else Some (hd s # ds, dropWhile is_digit (tl s)))
     else Some ([], s))"

definition scan_exp :: "string \<Rightarrow> (string \<times> string) option" where
  "scan_exp s = (if s \<noteq> [] \<and> hd s \<in> {CHR ''e'', CHR ''E''} then
       (let sign = takeWhile (\<lambda>c. c \<in> {CHR ''+'', CHR ''-''}) (take 1 (tl s)); t = drop (length sign) (tl s);
            ds = takeWhile is_digit t in
        if ds = [] then None else Some (hd s # sign @ ds, dropWhile is_digit t))
     else Some ([], s))"

definition parse_num :: "string \<Rightarrow> (json \<times> string) option" where
  "parse_num s =
    (let sign = (if s \<noteq> [] \<and> hd s = CHR ''-'' then ''-'' else []); t = drop (length sign) s;
         ds = takeWhile is_digit t
     in if ds = [] \<or> (hd ds = CHR ''0'' \<and> ds \<noteq> ''0'') then None
        else (case scan_frac (dropWhile is_digit t) of
            None \<Rightarrow> None
          | Some (frac, r) \<Rightarrow> (case scan_exp r of
              None \<Rightarrow> None
            | Some (e, rest) \<Rightarrow> Some (if frac = [] \<and> e = []
                then JNum (if sign = [] then int (undec ds) else - int (undec ds))
                else JFrac (sign @ ds @ frac @ e), rest))))"

fun parse_val :: "nat \<Rightarrow> string \<Rightarrow> (json \<times> string) option"
  and parse_elems :: "nat \<Rightarrow> string \<Rightarrow> (json list \<times> string) option"
  and parse_fields :: "nat \<Rightarrow> string \<Rightarrow> ((string \<times> json) list \<times> string) option" where
  "parse_val 0 s = None"
| "parse_val (Suc n) s =
    (case ws s of [] \<Rightarrow> None
     | c # cs \<Rightarrow>
       if c = CHR ''n'' then map_option (\<lambda>r. (JNull, r)) (strip_prefix ''ull'' cs)
       else if c = CHR ''t'' then map_option (\<lambda>r. (JBool True, r)) (strip_prefix ''rue'' cs)
       else if c = CHR ''f'' then map_option (\<lambda>r. (JBool False, r)) (strip_prefix ''alse'' cs)
       else if c = CHR 0x22 then map_option (\<lambda>(s, r). (JStr s, r)) (parse_chars cs)
       else if c = CHR ''['' then
         (case ws cs of [] \<Rightarrow> None
          | d # ds \<Rightarrow> if d = CHR '']'' then Some (JArr [], ds)
                     else map_option (\<lambda>(js, r). (JArr js, r)) (parse_elems n (d # ds)))
       else if c = CHR ''{'' then
         (case ws cs of [] \<Rightarrow> None
          | d # ds \<Rightarrow> if d = CHR ''}'' then Some (JObj [], ds)
                     else map_option (\<lambda>(fs, r). (JObj fs, r)) (parse_fields n (d # ds)))
       else parse_num (c # cs))"
| "parse_elems 0 s = None"
| "parse_elems (Suc n) s =
    (case parse_val n s of None \<Rightarrow> None
     | Some (j, r) \<Rightarrow>
       (case ws r of [] \<Rightarrow> None
        | c # cs \<Rightarrow>
          if c = CHR '']'' then Some ([j], cs)
          else if c = CHR '','' then map_option (\<lambda>(js, q). (j # js, q)) (parse_elems n cs)
          else None))"
| "parse_fields 0 s = None"
| "parse_fields (Suc n) s =
    (case ws s of [] \<Rightarrow> None
     | q # qs \<Rightarrow>
       if q \<noteq> CHR 0x22 then None
       else (case parse_chars qs of None \<Rightarrow> None
         | Some (k, r) \<Rightarrow>
           (case ws r of [] \<Rightarrow> None
            | c # cs \<Rightarrow>
              if c \<noteq> CHR '':'' then None
              else (case parse_val n cs of None \<Rightarrow> None
                | Some (j, r') \<Rightarrow>
                  (case ws r' of [] \<Rightarrow> None
                   | e # es \<Rightarrow>
                     if e = CHR ''}'' then Some ([(k, j)], es)
                     else if e = CHR '','' then
                       map_option (\<lambda>(fs, q'). ((k, j) # fs, q')) (parse_fields n es)
                     else None)))))"

definition json_parse :: "string \<Rightarrow> json option" where
  "json_parse s = (case parse_val (2 * length s + 2) s of
     Some (j, r) \<Rightarrow> if ws r = [] then Some j else None | None \<Rightarrow> None)"

subsection \<open>The round trip\<close>

lemma hex4_byte:
  assumes "n < 128"
  shows "hex4 (CHR ''0'') (CHR ''0'') (hex_digit (n div 16)) (hex_digit (n mod 16)) = Some n"
proof -
  have hv: "hex_val (hex_digit k) = Some k" if "k < 16" for k :: nat
    using that by (simp add: hex_val_def hex_digit_def Let_def)
  have "n div 16 < 16" "n mod 16 < 16" using assms by simp_all
  moreover have "hex_val (CHR ''0'') = Some 0" by (simp add: hex_val_def)
  ultimately show ?thesis by (simp add: hex4_def hv)
qed

lemma hex4_line_separators:
  "hex4 (CHR ''2'') (CHR ''0'') (CHR ''2'') (CHR ''8'') = Some 8232"
  "hex4 (CHR ''2'') (CHR ''0'') (CHR ''2'') (CHR ''9'') = Some 8233"
  by (simp_all add: hex4_def hex_val_def)

lemma line_separators_below: "(8232 :: nat) < 55296" "(8233 :: nat) < 55296"
  by simp_all

lemma utf8_line_separators:
  "utf8 8232 = [CHR 0xE2, CHR 0x80, CHR 0xA8]" "utf8 8233 = [CHR 0xE2, CHR 0x80, CHR 0xA9]"
  by (simp_all add: utf8_def) code_simp+

lemma utf8_byte: "(of_char c :: nat) < 128 \<Longrightarrow> utf8 (of_char c) = [c]"
  by (simp add: utf8_def)

lemma take2_drop2: "take 2 cs = [a, b] \<Longrightarrow> cs = a # b # drop 2 cs"
  by (cases cs; cases "tl cs") auto

lemma parse_chars_u:
  "hex4 h1 h2 h3 h4 = Some n \<Longrightarrow> n < 55296 \<Longrightarrow>
     parse_chars (CHR 0x5C # CHR ''u'' # h1 # h2 # h3 # h4 # rest) = prepend (utf8 n) (parse_chars rest)"
  by (subst parse_chars.simps) (simp add: surrogates_def split: option.split list.split del: parse_chars.simps)

lemma esc_cases:
  assumes "A \<Longrightarrow> P" "\<not> A \<Longrightarrow> B \<Longrightarrow> P" "C \<Longrightarrow> D \<Longrightarrow> P" "C \<Longrightarrow> E \<Longrightarrow> P"
    "\<not> A \<Longrightarrow> \<not> B \<Longrightarrow> \<not> (C \<and> D) \<Longrightarrow> \<not> (C \<and> E) \<Longrightarrow> P"
  shows P
  using assms by blast

lemma parse_chars_esc: "parse_chars (esc s @ CHR 0x22 # r) = Some (s, r)"
proof (induction s rule: measure_induct_rule [where f = length])
  case (less s)
  show ?case
  proof (cases s)
    case Nil
    then show ?thesis by simp
  next
    case (Cons c cs)
    have IH: "parse_chars (esc cs @ CHR 0x22 # r) = Some (cs, r)"
      "parse_chars (esc (drop 2 cs) @ CHR 0x22 # r) = Some (drop 2 cs, r)"
      using less Cons by simp_all
    let ?S = "{CHR 0x22, CHR 0x5C, CHR 0x08, CHR 0x0C, CHR 0x0A, CHR 0x0D, CHR 0x09}"
    let ?U = "(of_char c :: nat) < 32 \<or> c = CHR ''<'' \<or> c = CHR ''>'' \<or> c = CHR ''&''"
    consider (two) "c \<in> ?S" | (u) "c \<notin> ?S" ?U
      | (ls) "c = CHR 0xE2" "take 2 cs = [CHR 0x80, CHR 0xA8]"
      | (ps) "c = CHR 0xE2" "take 2 cs = [CHR 0x80, CHR 0xA9]"
      | (plain) "c \<notin> ?S" "\<not> ?U" "\<not> (c = CHR 0xE2 \<and> take 2 cs = [CHR 0x80, CHR 0xA8])"
          "\<not> (c = CHR 0xE2 \<and> take 2 cs = [CHR 0x80, CHR 0xA9])"
      by (rule esc_cases [of "c \<in> ?S" _ ?U "c = CHR 0xE2" "take 2 cs = [CHR 0x80, CHR 0xA8]"
          "take 2 cs = [CHR 0x80, CHR 0xA9]"])
    then have "parse_chars (esc (c # cs) @ CHR 0x22 # r) = Some (c # cs, r)"
    proof cases
      case two
      then show ?thesis by (elim insertE) (simp_all add: IH(1))
    next
      case u
      have lt: "(of_char c :: nat) < 128"
        using u(2) by (elim disjE) simp_all
      then have below: "(of_char c :: nat) < 55296" by simp
      have "esc (c # cs) = CHR 0x5C # CHR ''u'' # CHR ''0'' # CHR ''0''
          # hex_digit (of_char c div 16) # hex_digit (of_char c mod 16) # esc cs"
        using u by (simp only: esc.simps insert_iff empty_iff de_Morgan_disj simp_thms if_False if_True)
      then show ?thesis
        by (simp only: append_Cons parse_chars_u [OF hex4_byte [OF lt] below] utf8_byte [OF lt] IH(1)
            prepend_simps append_Nil)
    next
      case ls
      then have "esc (c # cs) = CHR 0x5C # ''u2028'' @ esc (drop 2 cs)" by simp
      then show ?thesis using take2_drop2 [OF ls(2)] ls(1)
        by (simp only: append_Cons append_Nil parse_chars_u [OF hex4_line_separators(1) line_separators_below(1)]
            utf8_line_separators IH(2) prepend_simps)
    next
      case ps
      then have "esc (c # cs) = CHR 0x5C # ''u2029'' @ esc (drop 2 cs)" by simp
      then show ?thesis using take2_drop2 [OF ps(2)] ps(1)
        by (simp only: append_Cons append_Nil parse_chars_u [OF hex4_line_separators(2) line_separators_below(2)]
            utf8_line_separators IH(2) prepend_simps)
    next
      case plain
      then have "esc (c # cs) = c # esc cs"
        by (simp only: esc.simps insert_iff empty_iff de_Morgan_disj simp_thms if_False)
      then show ?thesis using plain IH(1) by simp
    qed
    then show ?thesis using Cons by simp
  qed
qed

definition num_end :: "string \<Rightarrow> bool" where
  "num_end r \<longleftrightarrow> r = [] \<or> hd r \<in> {CHR '','', CHR '']'', CHR ''}''}"

lemma takeWhile_digits:
  assumes "\<forall>c \<in> set ds. is_digit c" and "r = [] \<or> \<not> is_digit (hd r)"
  shows "takeWhile is_digit (ds @ r) = ds \<and> dropWhile is_digit (ds @ r) = r"
  using assms by (induction ds) (cases r; auto)+

lemma num_end_not_digit: "num_end r \<Longrightarrow> r = [] \<or> \<not> is_digit (hd r)"
  by (auto simp: num_end_def is_digit_def)

lemma digit_not:
  "is_digit c \<Longrightarrow> \<not> is_ws c \<and> c \<notin> {CHR ''-'', CHR ''n'', CHR ''t'', CHR ''f'', CHR 0x22,
     CHR ''['', CHR ''{'', CHR '']'', CHR ''}''}"
  by (auto simp: is_digit_def is_ws_def)

lemma hd_dec_nat: "is_digit (hd (dec_nat n))"
  using dec_nat_digits [of n] hd_in_set [OF dec_nat_nonempty [of n]] by blast

lemma parse_num_dec:
  assumes "num_end r"
  shows "parse_num (dec_int i @ r) = Some (JNum i, r)"
proof -
  have tw: "takeWhile is_digit (dec_nat n @ r) = dec_nat n \<and> dropWhile is_digit (dec_nat n @ r) = r"
    for n using takeWhile_digits [OF dec_nat_digits num_end_not_digit [OF assms]] .
  have e: "scan_frac r = Some ([], r)" "scan_exp r = Some ([], r)"
    using assms by (auto simp: num_end_def scan_frac_def scan_exp_def)
  have d: "hd (dec_nat n) \<noteq> CHR ''-''" for n
    using digit_not [OF hd_dec_nat [of n]] by blast
  have z: "\<not> (hd (dec_nat n) = CHR ''0'' \<and> dec_nat n \<noteq> ''0'')" for n
    using dec_nat_no_leading_zero by blast
  show ?thesis
  proof (cases "i < 0")
    case True
    then show ?thesis using e z [of "nat (- i)"]
      by (simp add: parse_num_def dec_int_def Let_def tw del: insert_iff dropWhile_eq_Nil_conv)
  next
    case False
    then show ?thesis using e z [of "nat i"] d [of "nat i"]
      by (simp add: parse_num_def dec_int_def Let_def tw del: insert_iff dropWhile_eq_Nil_conv)
  qed
qed

text \<open>Values without a fraction, whose texts the reader gives back.\<close>

fun whole :: "json \<Rightarrow> bool" and whole_elems :: "json list \<Rightarrow> bool"
  and whole_fields :: "(string \<times> json) list \<Rightarrow> bool" where
  "whole (JFrac t) = False"
| "whole (JArr js) = whole_elems js"
| "whole (JObj fs) = whole_fields fs"
| "whole JNull = True" | "whole (JBool b) = True" | "whole (JNum i) = True" | "whole (JStr s) = True"
| "whole_elems [] = True"
| "whole_elems (j # js) = (whole j \<and> whole_elems js)"
| "whole_fields [] = True"
| "whole_fields ((k, j) # fs) = (whole j \<and> whole_fields fs)"

lemma whole_elems_iff [simp]: "whole_elems js \<longleftrightarrow> (\<forall>j \<in> set js. whole j)"
  by (induction js) auto

fun need :: "json \<Rightarrow> nat" and need_elems :: "json list \<Rightarrow> nat"
  and need_fields :: "(string \<times> json) list \<Rightarrow> nat" where
  "need (JArr js) = Suc (need_elems js)"
| "need (JObj fs) = Suc (need_fields fs)"
| "need JNull = 1" | "need (JBool b) = 1" | "need (JNum i) = 1" | "need (JFrac t) = 0" | "need (JStr s) = 1"
| "need_elems [] = 0"
| "need_elems (j # js) = Suc (max (need j) (need_elems js))"
| "need_fields [] = 0"
| "need_fields ((k, j) # fs) = Suc (max (need j) (need_fields fs))"

lemma need_length:
  "need j \<le> length (json_text j)"
  "need_elems js \<le> Suc (length (json_elems js))"
  "need_fields fs \<le> Suc (length (json_fields fs))"
proof (induction j and js and fs rule: json_text_json_elems_json_fields.induct)
  case (3 i)
  have "dec_int i \<noteq> []" by (simp add: dec_int_def)
  then show ?case by (simp add: Suc_le_eq)
qed auto

lemma hd_json_text:
  "whole j \<Longrightarrow> json_text j \<noteq> [] \<and> \<not> is_ws (hd (json_text j)) \<and> hd (json_text j) \<notin> {CHR '']'', CHR ''}''}"
proof (cases j)
  case (JNum i)
  have "\<not> is_ws (hd (dec_nat n)) \<and> hd (dec_nat n) \<notin> {CHR '']'', CHR ''}''}" for n
    using digit_not [OF hd_dec_nat [of n]] by blast
  then show ?thesis using JNum by (simp add: dec_int_def is_ws_def)
qed (auto simp: is_ws_def)

lemma ws_id: "s = [] \<or> \<not> is_ws (hd s) \<Longrightarrow> ws s = s"
  by (cases s) (auto simp: ws_def)

lemma ws_Cons [simp]: "\<not> is_ws c \<Longrightarrow> ws (c # s) = c # s"
  by (simp add: ws_def)

lemma ws_Nil [simp]: "ws [] = []"
  by (simp add: ws_def)

lemma not_ws [simp]:
  "\<not> is_ws (CHR '','')" "\<not> is_ws (CHR '']'')" "\<not> is_ws (CHR ''}'')" "\<not> is_ws (CHR '':'')"
  "\<not> is_ws (CHR 0x22)" "\<not> is_ws (CHR ''['')" "\<not> is_ws (CHR ''{'')"
  "\<not> is_ws (CHR ''n'')" "\<not> is_ws (CHR ''t'')" "\<not> is_ws (CHR ''f'')"
  by (simp_all add: is_ws_def)

lemma json_elems_Cons:
  "json_elems (j # js) = json_text j @ (if js = [] then [] else CHR '','' # json_elems js)"
  by (cases js) auto

lemma json_fields_Cons:
  "json_fields ((k, j) # fs) = CHR 0x22 # esc k @ CHR 0x22 # CHR '':'' # json_text j @
     (if fs = [] then [] else CHR '','' # json_fields fs)"
  by (cases fs) auto

lemma num_end_simps [simp]:
  "num_end []" "num_end (CHR '','' # r)" "num_end (CHR '']'' # r)" "num_end (CHR ''}'' # r)"
  by (simp_all add: num_end_def)

lemma parse_num_text:
  assumes "num_end r" shows "parse_val (Suc n) (dec_int i @ r) = Some (JNum i, r)"
proof -
  obtain c cs where c: "dec_int i @ r = c # cs" and cd: "c = CHR ''-'' \<or> is_digit c"
  proof (cases "i < 0")
    case True
    then show ?thesis using that by (simp add: dec_int_def)
  next
    case False
    obtain d ds where "dec_nat (nat i) = d # ds" by (meson dec_nat_nonempty neq_Nil_conv)
    then show ?thesis using that False dec_nat_digits [of "nat i"] by (simp add: dec_int_def)
  qed
  have "\<not> is_ws c" using cd digit_not [of c] by (auto simp: is_ws_def)
  moreover have "c \<notin> {CHR ''n'', CHR ''t'', CHR ''f'', CHR 0x22, CHR ''['', CHR ''{''}"
    using cd digit_not [of c] by blast
  ultimately show ?thesis using parse_num_dec [OF assms, of i] by (simp add: c)
qed

lemma parse_text:
  "whole j \<Longrightarrow> num_end r \<Longrightarrow> need j \<le> n \<Longrightarrow> parse_val n (json_text j @ r) = Some (j, r)"
  "whole_elems js \<Longrightarrow> js \<noteq> [] \<Longrightarrow> need_elems js \<le> n \<Longrightarrow>
     parse_elems n (json_elems js @ CHR '']'' # r) = Some (js, r)"
  "whole_fields fs \<Longrightarrow> fs \<noteq> [] \<Longrightarrow> need_fields fs \<le> n \<Longrightarrow>
     parse_fields n (json_fields fs @ CHR ''}'' # r) = Some (fs, r)"
proof (induction j and js and fs arbitrary: n r and n r and n r
       rule: need_need_elems_need_fields.induct)
  case (1 js)
  then obtain m where m: "n = Suc m" "need_elems js \<le> m" by (cases n) auto
  show ?case
  proof (cases js)
    case Nil
    then show ?thesis using m by simp
  next
    case (Cons j js')
    let ?t = "json_elems js @ CHR '']'' # r"
    have wj: "whole j" using "1.prems" Cons by simp
    have h: "hd ?t = hd (json_text j)" "?t \<noteq> []"
      using hd_json_text [OF wj] Cons by (simp_all add: json_elems_Cons)
    obtain d ds where d: "?t = d # ds" using h(2) by (cases ?t) auto
    with h(1) hd_json_text [OF wj] have "\<not> is_ws d" "d \<noteq> CHR '']''" by auto
    then show ?thesis using "1.IH" [of m r] "1.prems"(1) m Cons d by simp
  qed
next
  case (2 fs)
  then obtain m where m: "n = Suc m" "need_fields fs \<le> m" by (cases n) auto
  show ?case
  proof (cases fs)
    case Nil
    then show ?thesis using m by simp
  next
    case (Cons f fs')
    obtain k j where f: "f = (k, j)" by (cases f)
    let ?t = "json_fields fs @ CHR ''}'' # r"
    obtain ds where d: "?t = CHR 0x22 # ds" using Cons f by (simp add: json_fields_Cons)
    then show ?thesis using "2.IH" [of m r] "2.prems"(1) m Cons by simp
  qed
next
  case 3
  then show ?case by (cases n) (auto simp: strip_prefix_def)
next
  case (4 b)
  then show ?case by (cases n) (auto simp: strip_prefix_def)
next
  case (5 i)
  then show ?case by (cases n) (auto simp: parse_num_text simp del: parse_val.simps)
next
  case (7 s)
  then show ?case by (cases n) (auto simp: parse_chars_esc)
next
  case (9 j js)
  then obtain m where m: "n = Suc m" "need j \<le> m" "need_elems js \<le> m" "whole j" "whole_elems js" by (cases n) auto
  show ?case
  proof (cases "js = []")
    case True
    then show ?thesis using "9.IH"(1) [of "CHR '']'' # r" m] m by (simp add: json_elems_Cons)
  next
    case False
    then show ?thesis using "9.IH"(1) [of "CHR '','' # json_elems js @ CHR '']'' # r" m]
      "9.IH"(2) [of m r] m by (simp add: json_elems_Cons)
  qed
next
  case (11 k j fs)
  then obtain m where m: "n = Suc m" "need j \<le> m" "need_fields fs \<le> m" "whole j" "whole_fields fs" by (cases n) auto
  show ?case
  proof (cases "fs = []")
    case True
    then show ?thesis using "11.IH"(1) [of "CHR ''}'' # r" m] m
      by (simp add: json_fields_Cons parse_chars_esc)
  next
    case False
    then show ?thesis using "11.IH"(1) [of "CHR '','' # json_fields fs @ CHR ''}'' # r" m]
      "11.IH"(2) [of m r] m by (simp add: json_fields_Cons parse_chars_esc)
  qed
qed auto

theorem json_parse_text: "whole j \<Longrightarrow> json_parse (json_text j) = Some j"
  using need_length(1) [of j] parse_text(1) [of j "[]" "2 * length (json_text j) + 2"]
  by (simp add: json_parse_def)

subsection \<open>Fuel\<close>

text \<open>Every step of the reader consumes a character or goes from a list to its first element.\<close>

lemma parse_chars_shorter: "parse_chars s = Some (t, r) \<Longrightarrow> length r < length s"
proof (induction s arbitrary: t r rule: measure_induct_rule [where f = length])
  case (less s)
  have IH: "parse_chars y = Some (t', r') \<Longrightarrow> length y < length s \<Longrightarrow> length r' < length y" for y t' r'
    using less.IH by blast
  from less.prems show ?case
    by (cases s; simp only: parse_chars.simps)
      (auto simp: prepend_def split: if_splits list.splits option.splits dest!: IH simp del: parse_chars.simps)
qed

lemma ws_shorter: "length (ws s) \<le> length s"
  by (simp add: ws_def length_dropWhile_le)

lemma scan_shorter:
  "scan_frac s = Some (f, r) \<Longrightarrow> length r \<le> length s" "scan_exp s = Some (e, r) \<Longrightarrow> length r \<le> length s"
  using length_dropWhile_le [of is_digit "tl s"] length_dropWhile_le [of is_digit "drop k (tl s)" for k]
  by (auto simp: scan_frac_def scan_exp_def Let_def split: if_splits intro: order.trans [OF length_dropWhile_le])

lemma parse_num_shorter: "parse_num s = Some (j, r) \<Longrightarrow> length r < length s"
proof -
  assume a: "parse_num s = Some (j, r)"
  define t where "t = (if s \<noteq> [] \<and> hd s = CHR ''-'' then tl s else s)"
  have t: "drop (length (if s \<noteq> [] \<and> hd s = CHR ''-'' then ''-'' else [])) s = t" "length t \<le> length s"
    by (auto simp: t_def drop_Suc)
  from a obtain f q e where "takeWhile is_digit t \<noteq> []" "scan_frac (dropWhile is_digit t) = Some (f, q)" "scan_exp q = Some (e, r)"
    by (auto simp: parse_num_def Let_def t(1) split: if_splits option.splits)
  then have "length r \<le> length (dropWhile is_digit t)" "length (takeWhile is_digit t) \<noteq> 0"
    using scan_shorter(1) [of "dropWhile is_digit t" f q] scan_shorter(2) [of q e r] by auto
  moreover have "length (takeWhile is_digit t) + length (dropWhile is_digit t) = length t"
    by (metis length_append takeWhile_dropWhile_id)
  ultimately show ?thesis using t(2) by linarith
qed

lemma strip_prefix_shorter: "strip_prefix p s = Some r \<Longrightarrow> length r \<le> length s"
  by (auto simp: strip_prefix_def split: if_splits)

lemma ws_Cons_shorter: "ws s = c # cs \<Longrightarrow> length cs < length s"
  using ws_shorter [of s] by simp

lemma parse_shorter:
  "parse_val n s = Some (j, r) \<Longrightarrow> length r < length s"
  "parse_elems n s' = Some (js, r) \<Longrightarrow> length r < length s'"
  "parse_fields n s'' = Some (fs, r) \<Longrightarrow> length r < length s''"
proof (induction n arbitrary: s j r s' js s'' fs)
  case (Suc n)
  note IH = Suc.IH(1) Suc.IH(2) Suc.IH(3)
  {
    case 1
    then show ?case
      by (auto split: list.splits if_splits option.splits dest!: ws_Cons_shorter IH strip_prefix_shorter
          parse_chars_shorter parse_num_shorter)
  next
    case 2
    then show ?case
      by (auto split: list.splits if_splits option.splits dest!: ws_Cons_shorter IH)
  next
    case 3
    then show ?case
      by (auto split: list.splits if_splits option.splits dest!: ws_Cons_shorter IH parse_chars_shorter)
  }
qed simp_all

lemmas parser_simps = parse_val.simps parse_elems.simps parse_fields.simps

text \<open>One more unit of fuel changes nothing, when it changes nothing for what is read inside.\<close>

lemma parse_val_more:
  assumes "\<And>s. 2 * length s + 1 < n \<Longrightarrow> parse_elems (Suc n) s = parse_elems n s \<and> parse_fields (Suc n) s = parse_fields n s"
    and "2 * length s < Suc n"
  shows "parse_val (Suc (Suc n)) s = parse_val (Suc n) s"
proof -
  have i: "parse_elems (Suc n) (d # ds) = parse_elems n (d # ds)" "parse_fields (Suc n) (d # ds) = parse_fields n (d # ds)"
    if "ws s = c # cs" "ws cs = d # ds" for c cs d ds
    using assms(2) ws_Cons_shorter [OF that(1)] ws_Cons_shorter [OF that(2)]
    by (simp_all add: assms(1) del: parser_simps)
  show ?thesis
    by (subst parse_val.simps, subst parse_val.simps) (auto simp: i split: list.split simp del: parser_simps)
qed

lemma parse_elems_more:
  assumes "\<And>s. 2 * length s < n \<Longrightarrow> parse_val (Suc n) s = parse_val n s"
    and "\<And>s. 2 * length s + 1 < n \<Longrightarrow> parse_elems (Suc n) s = parse_elems n s"
    and "2 * length s + 1 < Suc n"
  shows "parse_elems (Suc (Suc n)) s = parse_elems (Suc n) s"
proof -
  have v: "parse_val (Suc n) s = parse_val n s" using assms(3) by (intro assms(1)) simp
  have i: "parse_elems (Suc n) cs = parse_elems n cs" if "parse_val n s = Some (j, r)" "ws r = c # cs" for j r c cs
    using assms(3) parse_shorter(1) [OF that(1)] ws_Cons_shorter [OF that(2)] by (intro assms(2)) simp
  show ?thesis
    by (subst parse_elems.simps, subst parse_elems.simps, unfold v)
      (auto simp: i split: list.split option.split simp del: parser_simps)
qed

lemma parse_fields_more:
  assumes "\<And>s. 2 * length s < n \<Longrightarrow> parse_val (Suc n) s = parse_val n s"
    and "\<And>s. 2 * length s + 1 < n \<Longrightarrow> parse_fields (Suc n) s = parse_fields n s"
    and "2 * length s + 1 < Suc n"
  shows "parse_fields (Suc (Suc n)) s = parse_fields (Suc n) s"
proof -
  have v: "parse_val (Suc n) cs = parse_val n cs"
    if "ws s = q # qs" "parse_chars qs = Some (k, r)" "ws r = c # cs" for q qs k r c cs
    using assms(3) ws_Cons_shorter [OF that(1)] parse_chars_shorter [OF that(2)]
      ws_Cons_shorter [OF that(3)] by (intro assms(1)) simp
  have i: "parse_fields (Suc n) es = parse_fields n es"
    if "ws s = q # qs" "parse_chars qs = Some (k, r)" "ws r = c # cs" "parse_val n cs = Some (j, r')" "ws r' = e # es"
    for q qs k r c cs j r' e es
    using assms(3) ws_Cons_shorter [OF that(1)] parse_chars_shorter [OF that(2)]
      ws_Cons_shorter [OF that(3)] parse_shorter(1) [OF that(4)] ws_Cons_shorter [OF that(5)] by (intro assms(2)) simp
  show ?thesis
  proof (cases "ws s")
    case (Cons q qs)
    show ?thesis
    proof (cases "parse_chars qs")
      case (Some p)
      obtain k r where p: "p = (k, r)" by (cases p)
      show ?thesis
      proof (cases "ws r")
        case (Cons c cs)
        note w = \<open>ws s = q # qs\<close> Some [unfolded p] Cons
        show ?thesis
        proof (cases "parse_val n cs")
          case (Some y)
          obtain j r' where y: "y = (j, r')" by (cases y)
          show ?thesis
            by (cases "ws r'"; subst parse_fields.simps, subst parse_fields.simps)
              (simp_all add: w v [OF w] Some y i [OF w Some [unfolded y]] del: parser_simps)
        qed (subst parse_fields.simps, subst parse_fields.simps, simp add: w v [OF w] del: parser_simps)
      qed (simp add: Cons Some p)
    qed (simp add: Cons)
  qed simp
qed

lemma parse_more_fuel:
  "(\<forall>s. 2 * length s < n \<longrightarrow> parse_val (Suc n) s = parse_val n s) \<and>
   (\<forall>s. 2 * length s + 1 < n \<longrightarrow> parse_elems (Suc n) s = parse_elems n s \<and> parse_fields (Suc n) s = parse_fields n s)"
proof (induction n)
  case (Suc n)
  then show ?case using parse_val_more [of n] parse_elems_more [of n] parse_fields_more [of n] by blast
qed simp

lemma parse_val_fuel:
  assumes "2 * length s < m" and "m \<le> n"
  shows "parse_val n s = parse_val m s"
  using assms(2)
  by (induction n rule: dec_induct) (use assms(1) parse_more_fuel in simp_all)



definition marshal_strings :: "string slice \<Rightarrow> string" where
  "marshal_strings s = json_text (case s of None \<Rightarrow> JNull | Some xs \<Rightarrow> JArr (map JStr xs))"

text \<open>
  \<^verbatim>\<open>json.Unmarshal\<close> into a nil \<^verbatim>\<open>[]string\<close>: \<open>null\<close> leaves it nil, an array of strings
  (and nulls, which leave the zero value) fills it, anything else is an error.
\<close>

fun string_elem :: "json \<Rightarrow> string option" where
  "string_elem (JStr s) = Some s"
| "string_elem JNull = Some []"
| "string_elem _ = None"

definition unmarshal_strings :: "string \<Rightarrow> string slice option" where
  "unmarshal_strings t = (case json_parse t of
     Some JNull \<Rightarrow> Some None
   | Some (JArr js) \<Rightarrow> map_option Some (those (map string_elem js))
   | _ \<Rightarrow> None)"

lemma those_string_elem [simp]: "those (map (string_elem \<circ> JStr) xs) = Some xs"
  by (induction xs) auto

lemma unmarshal_marshal_strings [simp]: "unmarshal_strings (marshal_strings s) = Some s"
  by (cases s) (simp_all add: unmarshal_strings_def marshal_strings_def json_parse_text
      del: json_text.simps)

lemma marshal_strings_inj: "marshal_strings s = marshal_strings t \<Longrightarrow> s = t"
  by (metis option.inject unmarshal_marshal_strings)

lemma marshal_strings_nonempty [simp]: "marshal_strings s \<noteq> []"
  by (simp add: marshal_strings_def split: option.split)

text \<open>Strings that JSON writes as they are: task ids, skill names and tags of the usual form.\<close>

definition plain :: "string \<Rightarrow> bool" where
  "plain s \<longleftrightarrow> (\<forall>c \<in> set s. 32 \<le> (of_char c :: nat) \<and> (of_char c :: nat) < 128
     \<and> c \<notin> {CHR 0x22, CHR 0x5C, CHR ''<'', CHR ''>'', CHR ''&''})"

lemma plain_char:
  assumes "32 \<le> (of_char c :: nat)" and "(of_char c :: nat) < 128"
    and "c \<notin> {CHR 0x22, CHR 0x5C, CHR ''<'', CHR ''>'', CHR ''&''}"
  shows "esc (c # cs) = c # esc cs"
proof -
  have "c \<notin> {CHR 0x08, CHR 0x0C, CHR 0x0A, CHR 0x0D, CHR 0x09}"
    using assms(1) by (auto simp del: not_le)
  moreover have "c \<noteq> CHR 0xE2" using assms(2) by (rule contrapos_pn) simp
  moreover have "\<not> (of_char c :: nat) < 32" using assms(1) by simp
  ultimately show ?thesis
    using assms(3) by (simp only: esc.simps insert_iff empty_iff de_Morgan_disj simp_thms if_False)
qed

lemma esc_plain: "plain s \<Longrightarrow> esc s = s"
proof (induction s)
  case (Cons c s)
  then have "esc (c # s) = c # esc s" by (intro plain_char) (simp_all add: plain_def)
  then show ?case using Cons by (simp add: plain_def del: esc.simps)
qed simp

lemma sublist_json_elems: "j \<in> set js \<Longrightarrow> sublist (json_text j) (json_elems js)"
proof (induction js)
  case (Cons k js)
  show ?case
  proof (cases "j = k")
    case True
    then show ?thesis by (simp add: json_elems_Cons)
  next
    case False
    with Cons have "sublist (json_text j) (json_elems js)" and "js \<noteq> []" by auto
    then show ?thesis by (simp add: json_elems_Cons sublist_extend)
  qed
qed simp

lemma sublist_marshal_strings:
  assumes "x \<in> set (elems s)" and "plain x"
  shows "sublist x (marshal_strings s)"
proof -
  obtain xs where s: "s = Some xs" "x \<in> set xs" using assms(1) by (cases s) auto
  have "sublist x (json_text (JStr x))"
    by (simp add: esc_plain [OF assms(2)] sublist_extend)
  also have "sublist (json_text (JStr x)) (json_elems (map JStr xs))"
    using s by (intro sublist_json_elems) simp
  also have "sublist (json_elems (map JStr xs)) (marshal_strings s)"
    by (simp add: s marshal_strings_def sublist_extend)
  finally show ?thesis .
qed

end
