(* ===== verification/Models.thy ===== *)
theory Models
  imports Json
begin

text \<open>
  The structs of \<^verbatim>\<open>internal/models\<close>: tasks, task events, artifacts, gates and agents, with
  the JSON text of an artifact list, and the goroutines that handlers start.
  Go's \<open>int\<close> and \<open>int64\<close> fields are HOL integers: nothing adds to them but
  \<open>retry_count + 1\<close>, which PostgreSQL computes and checks.
\<close>

record artifact =
  Key :: string
  Bucket :: string
  Size :: int
  ContentType :: string

record task =
  ID :: string
  Title :: string
  Assignee :: string
  Status :: string
  Priority :: int
  Parents :: "string slice"
  Skills :: "string slice"
  RequiredSkills :: "string slice"
  Tags :: "string slice"
  BodyGoal :: string
  BodyContext :: string
  BodyDeliverableFmt :: string
  BodyDeliverablePath :: string
  CreatedAt :: time
  UpdatedAt :: time
  Summary :: string
  Artifacts :: "artifact slice"
  LastHeartbeat :: "time option"
  MaxRetries :: int
  RetryCount :: int

definition zero_task :: task where
  "zero_task = \<lparr>ID = [], Title = [], Assignee = [], Status = [], Priority = 0, Parents = None,
     Skills = None, RequiredSkills = None, Tags = None, BodyGoal = [], BodyContext = [],
     BodyDeliverableFmt = [], BodyDeliverablePath = [], CreatedAt = 0, UpdatedAt = 0,
     Summary = [], Artifacts = None, LastHeartbeat = None, MaxRetries = 0, RetryCount = 0\<rparr>"

record task_event =
  EvID :: int
  EvTask :: string
  EvEvent :: string
  EvAgent :: string
  EvTimestamp :: time
  EvDetail :: string
  EvTitle :: string

record gate =
  GateID :: string
  GateTask :: string
  GateQuestion :: string
  GateAsk :: string
  GateStatus :: string
  GateAnswer :: string
  GateCreatedAt :: time
  GateAnsweredAt :: "time option"

record agent =
  AgName :: string
  AgPort :: int
  AgToken :: string
  AgLastHeartbeat :: "time option"
  AgSkills :: "string slice"
  AgWebhookURL :: string
  AgWebhookSecret :: string

definition zero_agent :: agent where
  "zero_agent = \<lparr>AgName = [], AgPort = 0, AgToken = [], AgLastHeartbeat = None,
     AgSkills = None, AgWebhookURL = [], AgWebhookSecret = []\<rparr>"

subsection \<open>The skill test the code repeats\<close>

text \<open>
  The double loop of \<open>ClaimTask\<close>, \<open>FindMatchingAgents\<close>, \<open>HasRequiredSkills\<close> and
  \<open>FindNextForAgent\<close>: every required skill is searched for in the agent's list, and the
  first one that is missing ends the search.
\<close>

fun has_skill :: "string \<Rightarrow> string list \<Rightarrow> bool" where
  "has_skill req [] = False"
| "has_skill req (s # ss) = (if s = req then True else has_skill req ss)"

fun has_all_skills :: "string list \<Rightarrow> string list \<Rightarrow> bool" where
  "has_all_skills [] ss = True"
| "has_all_skills (r # rs) ss = (if \<not> has_skill r ss then False else has_all_skills rs ss)"

lemma has_skill_iff [simp]: "has_skill r ss \<longleftrightarrow> r \<in> set ss"
  by (induction ss) auto

lemma has_all_skills_iff [simp]: "has_all_skills rs ss \<longleftrightarrow> set rs \<subseteq> set ss"
  by (induction rs) auto

subsection \<open>The artifacts_json column\<close>

definition artifact_json :: "artifact \<Rightarrow> json" where
  "artifact_json a = JObj [(''key'', JStr (Key a)), (''bucket'', JStr (Bucket a)),
     (''size'', JNum (Size a)), (''content_type'', JStr (ContentType a))]"

definition marshal_artifacts :: "artifact slice \<Rightarrow> string" where
  "marshal_artifacts s =
     json_text (case s of None \<Rightarrow> JNull | Some xs \<Rightarrow> JArr (map artifact_json xs))"

fun field_string :: "json option \<Rightarrow> string option" where
  "field_string None = Some []"
| "field_string (Some JNull) = Some []"
| "field_string (Some (JStr s)) = Some s"
| "field_string (Some _) = None"

fun field_int :: "json option \<Rightarrow> int option" where
  "field_int None = Some 0"
| "field_int (Some JNull) = Some 0"
| "field_int (Some (JNum i)) = Some i"
| "field_int (Some _) = None"

fun artifact_elem :: "json \<Rightarrow> artifact option" where
  "artifact_elem (JObj fs) =
    (case (field_string (map_of fs ''key''), field_string (map_of fs ''bucket''),
           field_int (map_of fs ''size''), field_string (map_of fs ''content_type'')) of
       (Some k, Some b, Some n, Some c) \<Rightarrow>
         Some \<lparr>Key = k, Bucket = b, Size = n, ContentType = c\<rparr>
     | _ \<Rightarrow> None)"
| "artifact_elem JNull = Some \<lparr>Key = [], Bucket = [], Size = 0, ContentType = []\<rparr>"
| "artifact_elem _ = None"

definition unmarshal_artifacts :: "string \<Rightarrow> artifact slice option" where
  "unmarshal_artifacts t = (case json_parse t of
     Some JNull \<Rightarrow> Some None
   | Some (JArr js) \<Rightarrow> map_option Some (those (map artifact_elem js))
   | _ \<Rightarrow> None)"

lemma artifact_elem_json [simp]: "artifact_elem (artifact_json a) = Some a"
  by (simp add: artifact_json_def)

lemma those_artifact_elem [simp]: "those (map (artifact_elem \<circ> artifact_json) xs) = Some xs"
  by (induction xs) auto

lemma whole_artifact [simp]: "whole (artifact_json a)"
  by (simp add: artifact_json_def)

lemma unmarshal_marshal_artifacts [simp]: "unmarshal_artifacts (marshal_artifacts s) = Some s"
  by (cases s) (simp_all add: unmarshal_artifacts_def marshal_artifacts_def json_parse_text
      del: json_text.simps)

lemma marshal_artifacts_empty: "marshal_artifacts (Some []) = ''[]''"
  by (simp add: marshal_artifacts_def)

lemma marshal_artifacts_nonempty [simp]: "marshal_artifacts s \<noteq> []"
  by (simp add: marshal_artifacts_def split: option.split)

lemma marshal_artifacts_brackets: "marshal_artifacts s = ''[]'' \<longleftrightarrow> s = Some []"
  by (metis marshal_artifacts_empty option.inject unmarshal_marshal_artifacts)

subsection \<open>Goroutines\<close>

text \<open>
  What is started with \<^verbatim>\<open>go\<close>: by the handlers a publication on Redis, a webhook for a
  status change, the dispatch of a new task (whose pointer may be nil); by the dispatcher one
  webhook per agent and one drain per retry queue.
\<close>

datatype job =
    Publish (pub_event: string) (pub_task: string) (pub_agent: string) (pub_gate: string)
      (pub_summary: string) (pub_skills: "string slice")
  | Notify (ntf_task: task) (ntf_old: string) (ntf_new: string) (ntf_action: string)
  | Dispatch "task option"
  | SendWebhook agent task int
  | SendStatus agent task string string string
  | DrainQueue string

end
