(* ===== verification/Net.thy ===== *)
theory Net
  imports Prelude "HOL-Library.Word"
begin

unbundle bit_operations_syntax

text \<open>
  IP addresses as \<^verbatim>\<open>net.IP\<close> has them, byte slices of 4 or 16 bytes, with the parts of package
  \<^verbatim>\<open>net\<close> that \<open>isPrivateIP\<close> of \<^verbatim>\<open>internal/dispatcher/validator.go\<close> uses, and
  \<open>isPrivateIP\<close> itself with its nine ranges.
\<close>

type_synonym net_ip = "8 word slice"

definition v4_prefix :: "8 word list" where
  "v4_prefix = [0, 0, 0, 0, 0, 0, 0, 0, 0, 0, 255, 255]"

text \<open>The addresses \<^verbatim>\<open>net.ParseIP\<close> gives for the dotted and colon forms in the ranges.\<close>

definition ipv4 :: "8 word \<Rightarrow> 8 word \<Rightarrow> 8 word \<Rightarrow> 8 word \<Rightarrow> 8 word list" where
  "ipv4 a b c d = v4_prefix @ [a, b, c, d]"

definition ipv6 :: "8 word \<Rightarrow> 8 word \<Rightarrow> 8 word \<Rightarrow> 8 word list" where
  "ipv6 a b z = [a, b, 0, 0, 0, 0, 0, 0, 0, 0, 0, 0, 0, 0, 0, z]"

definition to4 :: "8 word list \<Rightarrow> 8 word list option" where
  "to4 ip = (if length ip = 4 then Some ip
     else if length ip = 16 \<and> take 12 ip = v4_prefix then Some (drop 12 ip) else None)"

fun cidr_mask :: "nat \<Rightarrow> nat \<Rightarrow> 8 word list" where
  "cidr_mask n 0 = []"
| "cidr_mask n (Suc l) = (if 8 \<le> n then 255 # cidr_mask (n - 8) l
     else NOT (drop_bit n 255) # cidr_mask 0 l)"

record ipnet =
  NetIP :: "8 word list"
  NetMask :: "8 word list"

definition network_number_and_mask :: "ipnet \<Rightarrow> 8 word list \<times> 8 word list" where
  "network_number_and_mask n =
    (let ip = (case to4 (NetIP n) of Some x \<Rightarrow> x
               | None \<Rightarrow> if length (NetIP n) = 16 then NetIP n else []); m = NetMask n in
     if ip = [] then ([], [])
     else if length m = 4 then (if length ip \<noteq> 4 then ([], []) else (ip, m))
     else if length m = 16 then (if length ip = 4 then (ip, drop 12 m) else (ip, m))
     else ([], []))"

definition ip_contains :: "ipnet \<Rightarrow> 8 word list \<Rightarrow> bool" where
  "ip_contains n ip = (case network_number_and_mask n of (nn, m) \<Rightarrow>
     let x = (case to4 ip of Some y \<Rightarrow> y | None \<Rightarrow> ip) in
     length x = length nn \<and> list_all (\<lambda>(a, b, k). a AND k = b AND k) (zip nn (zip x m)))"

definition private_networks :: "ipnet list" where
  "private_networks = [
     \<lparr>NetIP = ipv4 10 0 0 0, NetMask = cidr_mask 8 4\<rparr>,
     \<lparr>NetIP = ipv4 172 16 0 0, NetMask = cidr_mask 12 4\<rparr>,
     \<lparr>NetIP = ipv4 192 168 0 0, NetMask = cidr_mask 16 4\<rparr>,
     \<lparr>NetIP = ipv4 0 0 0 0, NetMask = cidr_mask 8 4\<rparr>]"

definition deny_ranges :: "ipnet list" where
  "deny_ranges = [
     \<lparr>NetIP = ipv4 127 0 0 0, NetMask = cidr_mask 8 4\<rparr>,
     \<lparr>NetIP = ipv4 169 254 0 0, NetMask = cidr_mask 16 4\<rparr>,
     \<lparr>NetIP = ipv6 0xfc 0 0, NetMask = cidr_mask 7 16\<rparr>,
     \<lparr>NetIP = ipv6 0xfe 0x80 0, NetMask = cidr_mask 10 16\<rparr>,
     \<lparr>NetIP = ipv6 0 0 1, NetMask = cidr_mask 128 16\<rparr>]"

definition isPrivateIP :: "net_ip \<Rightarrow> bool" where
  "isPrivateIP ip = (case ip of
     None \<Rightarrow> True
   | Some bytes \<Rightarrow> (if list_ex (\<lambda>n. ip_contains n bytes) private_networks then True
       else list_ex (\<lambda>n. ip_contains n bytes) deny_ranges))"

subsection \<open>The ranges\<close>

lemma masks: "cidr_mask 8 4 = [255, 0, 0, 0]" "cidr_mask 12 4 = [255, 240, 0, 0]"
  "cidr_mask 16 4 = [255, 255, 0, 0]"
  "cidr_mask 7 16 = [254, 0, 0, 0, 0, 0, 0, 0, 0, 0, 0, 0, 0, 0, 0, 0]"
  "cidr_mask 10 16 = [255, 192, 0, 0, 0, 0, 0, 0, 0, 0, 0, 0, 0, 0, 0, 0]"
  "cidr_mask 128 16 = [255, 255, 255, 255, 255, 255, 255, 255, 255, 255, 255, 255, 255, 255, 255, 255]"
  by code_simp+

lemma and_full [simp]: "(x :: 8 word) AND 255 = x"
proof -
  have "x AND - 1 = x" by simp
  moreover have "(255 :: 8 word) = - 1" by simp
  ultimately show ?thesis by metis
qed

lemma v4_networks [simp]:
  "network_number_and_mask \<lparr>NetIP = ipv4 a b c d, NetMask = m\<rparr> =
     (if length m = 4 then ([a, b, c, d], m) else if length m = 16 then ([a, b, c, d], drop 12 m)
      else ([], []))"
  by (simp add: network_number_and_mask_def to4_def ipv4_def v4_prefix_def)

lemma v6_networks [simp]:
  "network_number_and_mask \<lparr>NetIP = ipv6 a b z, NetMask = m\<rparr> =
     (if length m = 16 then (ipv6 a b z, m) else ([], []))"
  by (simp add: network_number_and_mask_def to4_def ipv6_def v4_prefix_def Let_def)

lemma length_ipv6 [simp]: "length (ipv6 a b z) = 16"
  by (simp add: ipv6_def)

lemma to4_v4 [simp]: "to4 (ipv4 a b c d) = Some [a, b, c, d]" "to4 [a, b, c, d] = Some [a, b, c, d]"
  by (simp_all add: to4_def ipv4_def v4_prefix_def)

lemma high_bits:
  fixes b :: "8 word"
  assumes "n \<le> 8"
  shows "unat (b AND (mask 8 AND NOT (mask n))) = 2 ^ n * (unat b div 2 ^ n)"
proof -
  have "b AND (mask 8 AND NOT (mask n)) = push_bit n (take_bit (8 - n) (drop_bit n b))"
    using slice_eq_mask [of n "8 - n" b] assms by (simp add: and.assoc)
  moreover have "unat (push_bit n (take_bit (8 - n) (drop_bit n b))) = 2 ^ n * (unat b div 2 ^ n)"
  proof -
    have "(2::nat) ^ n * 2 ^ (8 - n) = 256" using assms by (simp flip: power_add)
    then have "unat b < 2 ^ n * 2 ^ (8 - n)" using unsigned_less [of b] by simp
    have drop_bit_nat_eq: "drop_bit n (unat b) = unat b div 2 ^ n" by (simp add: drop_bit_eq_div)
    from \<open>unat b < _\<close> have l: "unat b div 2 ^ n < 2 ^ (8 - n)" by (simp add: less_mult_imp_div_less mult.commute)
    then have "unat (take_bit (8 - n) (drop_bit n b)) = unat b div 2 ^ n"
      by (simp only: unsigned_take_bit_eq unat_drop_bit_eq drop_bit_nat_eq take_bit_nat_eq_self)
    then have "unat (push_bit n (take_bit (8 - n) (drop_bit n b)))
        = take_bit 8 (push_bit n (unat b div 2 ^ n))"
      by (simp add: unsigned_push_bit_eq)
    also have "\<dots> = push_bit n (unat b div 2 ^ n)"
      using assms l by (simp add: take_bit_push_bit take_bit_nat_eq_self)
    finally show ?thesis by (simp add: push_bit_eq_mult)
  qed
  ultimately show ?thesis by simp
qed

lemma byte_masks:
  fixes b :: "8 word"
  shows "unat (b AND 240) = 16 * (unat b div 16)" "unat (b AND 254) = 2 * (unat b div 2)"
    "unat (b AND 192) = 64 * (unat b div 64)"
proof -
  have m: "(240 :: 8 word) = mask 8 AND NOT (mask 4)" "(254 :: 8 word) = mask 8 AND NOT (mask 1)"
    "(192 :: 8 word) = mask 8 AND NOT (mask 6)"
    by code_simp+
  show "unat (b AND 240) = 16 * (unat b div 16)" "unat (b AND 254) = 2 * (unat b div 2)"
    "unat (b AND 192) = 64 * (unat b div 64)"
    unfolding m by (simp_all only: high_bits) simp_all
qed
lemma slice_nat:
  fixes x :: nat
  assumes "0 < m"
  shows "m * (x div m) = m * k \<longleftrightarrow> m * k \<le> x \<and> x < m * Suc k"
  using assms by (metis (full_types) div_mult_self1_is_m div_nat_eqI dividend_less_times_div mult.commute
      mult_left_cancel times_div_less_eq_dividend neq0_conv mult_Suc_right)

lemma byte_ranges:
  fixes b :: "8 word"
  shows "b AND 240 = 16 \<longleftrightarrow> 16 \<le> b \<and> b < 32" "b AND 254 = 252 \<longleftrightarrow> 252 \<le> b \<and> b < 254"
    "b AND 192 = 128 \<longleftrightarrow> 128 \<le> b \<and> b < 192"
  using slice_nat [of 16 "unat b" 1] slice_nat [of 2 "unat b" 126] slice_nat [of 64 "unat b" 2]
  by (simp_all add: word_unat_eq_iff word_le_nat_alt word_less_nat_alt byte_masks)
lemma isPrivateIP_bytes4:
  "isPrivateIP (Some [a, b, c, d]) \<longleftrightarrow> a = 10 \<or> (a = 172 \<and> 16 \<le> b \<and> b < 32) \<or>
     (a = 192 \<and> b = 168) \<or> a = 0 \<or> a = 127 \<or> (a = 169 \<and> b = 254)"
proof -
  have 240: "16 = b AND 240 \<longleftrightarrow> 16 \<le> b \<and> b < 32" using byte_ranges(1) [of b] by metis
  show ?thesis
    by (simp add: isPrivateIP_def private_networks_def deny_ranges_def ip_contains_def masks 240) blast
qed


text \<open>A 16-byte address that is not an IPv4 address in disguise is checked against three ranges only.\<close>

lemma isPrivateIP_bytes16:
  assumes "take 12 [x0, x1, x2, x3, x4, x5, x6, x7, x8, x9, x10, x11, x12, x13, x14, x15] \<noteq> v4_prefix"
  shows "isPrivateIP (Some [x0, x1, x2, x3, x4, x5, x6, x7, x8, x9, x10, x11, x12, x13, x14, x15]) \<longleftrightarrow>
    (252 \<le> x0 \<and> x0 < 254) \<or> (x0 = 254 \<and> 128 \<le> x1 \<and> x1 < 192) \<or>
    [x0, x1, x2, x3, x4, x5, x6, x7, x8, x9, x10, x11, x12, x13, x14, x15] = ipv6 0 0 1"
proof -
  let ?ip = "[x0, x1, x2, x3, x4, x5, x6, x7, x8, x9, x10, x11, x12, x13, x14, x15]"
  have t: "to4 ?ip = None" using assms by (simp add: to4_def)
  have r: "252 = x0 AND 254 \<longleftrightarrow> 252 \<le> x0 \<and> x0 < 254" "128 = x1 AND 192 \<longleftrightarrow> 128 \<le> x1 \<and> x1 < 192"
    using byte_ranges(2) [of x0] byte_ranges(3) [of x1] by metis+
  have "ip_contains \<lparr>NetIP = ipv6 252 0 0, NetMask = cidr_mask 7 16\<rparr> ?ip \<longleftrightarrow> 252 \<le> x0 \<and> x0 < 254"
    "ip_contains \<lparr>NetIP = ipv6 254 128 0, NetMask = cidr_mask 10 16\<rparr> ?ip \<longleftrightarrow>
       x0 = 254 \<and> 128 \<le> x1 \<and> x1 < 192"
    "ip_contains \<lparr>NetIP = ipv6 0 0 1, NetMask = cidr_mask 128 16\<rparr> ?ip \<longleftrightarrow> ?ip = ipv6 0 0 1"
    unfolding ip_contains_def v6_networks masks by (simp_all add: t r ipv6_def)
  moreover have "\<not> list_ex (\<lambda>n. ip_contains n ?ip) private_networks"
    "\<not> ip_contains \<lparr>NetIP = ipv4 127 0 0 0, NetMask = cidr_mask 8 4\<rparr> ?ip"
    "\<not> ip_contains \<lparr>NetIP = ipv4 169 254 0 0, NetMask = cidr_mask 16 4\<rparr> ?ip"
    by (simp_all add: private_networks_def ip_contains_def masks t)
  ultimately show ?thesis by (simp add: isPrivateIP_def deny_ranges_def)
qed

end
