(* ===== verification/Store.thy ===== *)
theory Store
  imports Models Net
begin

text \<open>
  The tables of \<^verbatim>\<open>internal/db/schema.go\<close> as lists of rows, the world an operation runs in,
  and the two ways an operation reaches the database: \<open>exec\<close> for a statement that writes and
  \<open>query\<close> for one that reads. A statement is atomic. The head of \<open>faults\<close> says whether
  the next statement fails (connection lost, text the server rejects); with no entry left
  none does. A failed statement changes nothing, and neither does one that a constraint
  refuses, but that it may have taken a number from the sequence of event ids.
\<close>

record task_row =
  t_id :: string
  t_title :: string
  t_assignee :: string
  t_status :: string
  t_priority :: int
  t_parents :: string
  t_skills :: string
  t_required_skills :: string
  t_tags :: string
  t_body_goal :: string
  t_body_context :: string
  t_body_deliverable_format :: string
  t_body_deliverable_path :: string
  t_created_at :: time
  t_updated_at :: time
  t_summary :: string
  t_artifacts_json :: string
  t_last_heartbeat :: "time option"
  t_max_retries :: int
  t_retry_count :: int

record gate_row =
  g_id :: string
  g_task :: string
  g_question :: string
  g_ask :: string
  g_status :: string
  g_answer :: string
  g_created_at :: time
  g_answered_at :: "time option"

record agent_row =
  a_name :: string
  a_port :: int
  a_token :: string
  a_token_prefix :: string
  a_last_heartbeat :: "time option"
  a_skills :: string
  a_webhook_url :: string
  a_webhook_secret :: string
  a_last_event_id :: "int option"

record event_row =
  e_id :: int
  e_task :: string
  e_event :: string
  e_agent :: string
  e_timestamp :: time
  e_detail :: string

record database =
  tasks :: "task_row list"
  gates :: "gate_row list"
  agents :: "agent_row list"
  events :: "event_row list"
  next_event :: int

definition empty_db :: database where
  "empty_db = \<lparr>tasks = [], gates = [], agents = [], events = [], next_event = 1\<rparr>"

text \<open>
  The world: the database, the clock that \<open>NOW()\<close> and \<^verbatim>\<open>time.Now()\<close> read, the faults to
  come, the goroutines started and not yet run, the Redis lists, the messages published on
  Redis channels, the requests posted to webhooks, the answers they will give (a status code,
  or none when the request itself fails) and the DNS pin cache of the validator.
\<close>

record http_post =
  PostURL :: string
  PostHeaders :: "(string \<times> string) list"
  PostBody :: string

record world =
  db :: database
  now :: time
  faults :: "bool list"
  jobs :: "job list"
  rlists :: "(string \<times> string list) list"
  published :: "(string \<times> string) list"
  posts :: "http_post list"
  answers :: "int option list"
  pin_ips :: "string \<Rightarrow> net_ip slice"
  pin_ttls :: "string \<Rightarrow> time option"

definition empty_world :: world where
  "empty_world = \<lparr>db = empty_db, now = 0, faults = [], jobs = [], rlists = [],
     published = [], posts = [], answers = [], pin_ips = (\<lambda>_. None), pin_ttls = (\<lambda>_. None)\<rparr>"

subsection \<open>Errors\<close>

text \<open>
  What the repositories return as \<^verbatim>\<open>error\<close>: a wrapped error of the driver with the prefix
  of its message, the errors of their own, and \<open>NilDeref\<close> for the panic of a nil pointer.
\<close>

datatype repo_error =
    DbError string
  | TaskNotFound string
  | ConflictError (CurrentStatus: string) (Message: string)
  | GateNotIn string string
  | AgentNotFound string
  | InvalidTimeout int
  | BadJSON string
  | CryptoError string
  | NilDeref

subsection \<open>Statements\<close>

type_synonym 'a sql = "time \<Rightarrow> database \<Rightarrow> 'a option \<times> database"

definition exec :: "'a sql \<Rightarrow> (world, 'a option) state" where
  "exec s = State (\<lambda>w. case faults w of
       [] \<Rightarrow> (case s (now w) (db w) of (r, d) \<Rightarrow> (r, w\<lparr>db := d\<rparr>))
     | f # fs \<Rightarrow> if f then (None, w\<lparr>faults := fs\<rparr>)
         else (case s (now w) (db w) of (r, d) \<Rightarrow> (r, w\<lparr>db := d, faults := fs\<rparr>)))"

definition query :: "(time \<Rightarrow> database \<Rightarrow> 'a) \<Rightarrow> (world, 'a option) state" where
  "query q = exec (\<lambda>n d. (Some (q n d), d))"

definition go :: "job \<Rightarrow> (world, unit) state" where
  "go j = State (\<lambda>w. ((), w\<lparr>jobs := jobs w @ [j]\<rparr>))"

lemma run_exec_ok [exec_simps]:
  "faults w = [] \<Longrightarrow> run_state (exec s) w =
     (fst (s (now w) (db w)), w\<lparr>db := snd (s (now w) (db w))\<rparr>)"
  by (simp add: exec_def split: prod.split)

lemma run_query_ok [exec_simps]:
  "faults w = [] \<Longrightarrow> run_state (query q) w = (Some (q (now w) (db w)), w)"
  by (simp add: query_def run_exec_ok)

lemma run_exec_fault [exec_simps]:
  "faults w = True # fs \<Longrightarrow> run_state (exec s) w = (None, w\<lparr>faults := fs\<rparr>)"
  by (simp add: exec_def)

lemma run_exec_pass [exec_simps]:
  "faults w = False # fs \<Longrightarrow> run_state (exec s) w =
     (fst (s (now w) (db w)), w\<lparr>db := snd (s (now w) (db w)), faults := fs\<rparr>)"
  by (simp add: exec_def split: prod.split)

lemma run_query_pass [exec_simps]:
  "faults w = False # fs \<Longrightarrow>
     run_state (query q) w = (Some (q (now w) (db w)), w\<lparr>faults := fs\<rparr>)"
  by (simp add: query_def run_exec_pass)

lemma run_query_fault [exec_simps]:
  "faults w = True # fs \<Longrightarrow> run_state (query q) w = (None, w\<lparr>faults := fs\<rparr>)"
  by (simp add: query_def run_exec_fault)

lemma run_go [exec_simps]: "run_state (go j) w = ((), w\<lparr>jobs := jobs w @ [j]\<rparr>)"
  by (simp add: go_def)

lemma exec_cases:
  assumes "run_state (exec s) w = (r, w')"
  shows "(r = None \<and> db w' = db w \<and> now w' = now w) \<or>
    (r = fst (s (now w) (db w)) \<and> db w' = snd (s (now w) (db w)) \<and> now w' = now w)"
  using assms by (auto simp: exec_def split: list.splits if_splits prod.splits)

lemma query_cases:
  assumes "run_state (query q) w = (r, w')"
  shows "db w' = db w \<and> now w' = now w \<and> (r = None \<or> r = Some (q (now w) (db w)))"
  using exec_cases [OF assms [unfolded query_def]] by auto

subsection \<open>The constraints of the schema\<close>

definition int4 :: "int \<Rightarrow> bool" where
  "int4 i \<longleftrightarrow> - (2 ^ 31) \<le> i \<and> i < 2 ^ 31"

definition task_ids :: "database \<Rightarrow> string set" where
  "task_ids d = t_id ` set (tasks d)"

definition wf_db :: "database \<Rightarrow> bool" where
  "wf_db d \<longleftrightarrow>
     distinct (map t_id (tasks d)) \<and> distinct (map g_id (gates d)) \<and>
     distinct (map a_name (agents d)) \<and>
     (\<forall>t \<in> set (tasks d). t_status t \<in> set task_statuses) \<and>
     (\<forall>g \<in> set (gates d). g_status g \<in> set gate_statuses \<and> g_task g \<in> task_ids d) \<and>
     (\<forall>e \<in> set (events d). e_task e \<in> task_ids d \<and> e_id e < next_event d) \<and>
     sorted_wrt (<) (map e_id (events d))"

definition find_task :: "string \<Rightarrow> database \<Rightarrow> task_row option" where
  "find_task i d = find (\<lambda>r. t_id r = i) (tasks d)"

definition find_gate :: "string \<Rightarrow> database \<Rightarrow> gate_row option" where
  "find_gate i d = find (\<lambda>r. g_id r = i) (gates d)"

definition find_agent :: "string \<Rightarrow> database \<Rightarrow> agent_row option" where
  "find_agent i d = find (\<lambda>r. a_name r = i) (agents d)"

lemmas find_defs = find_task_def find_gate_def find_agent_def

lemma find_task_Some: "find_task i d = Some r \<Longrightarrow> r \<in> set (tasks d) \<and> t_id r = i"
  unfolding find_task_def by (rule find_key_mem)

lemma find_task_None: "find_task i d = None \<longleftrightarrow> i \<notin> task_ids d"
  by (simp add: find_task_def task_ids_def find_key_None)

lemma find_task_mem: "wf_db d \<Longrightarrow> r \<in> set (tasks d) \<Longrightarrow> find_task (t_id r) d = Some r"
  by (simp add: find_task_def wf_db_def find_distinct_mem)

lemma find_gate_Some: "find_gate i d = Some r \<Longrightarrow> r \<in> set (gates d) \<and> g_id r = i"
  unfolding find_gate_def by (rule find_key_mem)

lemma find_agent_Some: "find_agent i d = Some r \<Longrightarrow> r \<in> set (agents d) \<and> a_name r = i"
  unfolding find_agent_def by (rule find_key_mem)

lemma find_agent_mem: "wf_db d \<Longrightarrow> r \<in> set (agents d) \<Longrightarrow> find_agent (a_name r) d = Some r"
  by (simp add: find_agent_def wf_db_def find_distinct_mem)

lemma wf_empty_db: "wf_db empty_db"
  by (simp add: wf_db_def empty_db_def)

lemma find_task_status: "wf_db d \<Longrightarrow> find_task i d = Some r \<Longrightarrow> t_status r \<in> set task_statuses"
  using find_task_Some by (fastforce simp: wf_db_def)

end
