(* ===== verification/Like.thy ===== *)
theory Like
  imports Prelude
begin

text \<open>
  SQL's \<open>LIKE\<close> as PostgreSQL evaluates it on UTF-8 text: \<open>%\<close> matches any run, \<open>_\<close> one
  character (a lead byte with its continuation bytes), the backslash makes the next pattern
  character literal. The repositories search the JSON text of a column for a task id or a
  skill between two \<open>%\<close>; the lemmas say when that is a substring search.
\<close>

definition is_cont :: "char \<Rightarrow> bool" where
  "is_cont c \<longleftrightarrow> 128 \<le> (of_char c :: nat) \<and> (of_char c :: nat) < 192"

function like :: "string \<Rightarrow> string \<Rightarrow> bool" where
  "like [] s \<longleftrightarrow> s = []"
| "like (p # ps) s \<longleftrightarrow>
    (if p = CHR ''%'' then like ps s \<or> (case s of [] \<Rightarrow> False | c # cs \<Rightarrow> like (p # ps) cs)
     else (case s of [] \<Rightarrow> False
       | c # cs \<Rightarrow>
         if p = CHR ''_'' then like ps (dropWhile is_cont cs)
         else if p = CHR 0x5C then (case ps of [] \<Rightarrow> False | q # qs \<Rightarrow> q = c \<and> like qs cs)
         else p = c \<and> like ps cs))"
  by pat_completeness auto
termination
  by (relation "measure (\<lambda>(p, s). length p + length s)")
    (auto simp: less_Suc_eq_le le_SucI length_dropWhile_le add_le_mono)

declare like.simps [simp del]

text \<open>\<^verbatim>\<open>strings.NewReplacer("%", "\%", "_", "\_")\<close> of \<open>List\<close>.\<close>

fun esc_like :: "string \<Rightarrow> string" where
  "esc_like [] = []"
| "esc_like (c # cs) = (if c = CHR ''%'' \<or> c = CHR ''_'' then CHR 0x5C # c # esc_like cs
     else c # esc_like cs)"

definition like_plain :: "string \<Rightarrow> bool" where
  "like_plain x \<longleftrightarrow> CHR ''%'' \<notin> set x \<and> CHR ''_'' \<notin> set x \<and> CHR 0x5C \<notin> set x"

lemma like_percent: "like (CHR ''%'' # ps) s \<longleftrightarrow> (\<exists>a r. s = a @ r \<and> like ps r)"
proof (induction s)
  case Nil
  then show ?case by (simp add: like.simps)
next
  case (Cons c cs)
  have "like (CHR ''%'' # ps) (c # cs) \<longleftrightarrow> like ps (c # cs) \<or> like (CHR ''%'' # ps) cs"
    by (subst like.simps) simp
  also have "\<dots> \<longleftrightarrow> (\<exists>a r. c # cs = a @ r \<and> like ps r)"
    unfolding Cons.IH by (auto simp: Cons_eq_append_conv)
  finally show ?case .
qed

lemma like_all: "like ''%'' s"
  unfolding like_percent by (auto simp: like.simps(1))

lemma like_literal:
  "like_plain x \<Longrightarrow> like (x @ ps) s \<longleftrightarrow> (\<exists>r. s = x @ r \<and> like ps r)"
proof (induction x arbitrary: s)
  case (Cons c x)
  then show ?case
    by (cases s) (auto simp: like_plain_def like.simps(2) [of c "x @ ps"])
qed simp

lemma like_escaped:
  "CHR 0x5C \<notin> set x \<Longrightarrow> like (esc_like x @ ps) s \<longleftrightarrow> (\<exists>r. s = x @ r \<and> like ps r)"
proof (induction x arbitrary: s)
  case (Cons c x)
  then show ?case
    by (cases s) (auto simp: like.simps(2) [of c "esc_like x @ ps"]
      like.simps(2) [of "CHR 0x5C" "c # esc_like x @ ps"])
qed simp

definition contains_pattern :: "string \<Rightarrow> string" where
  "contains_pattern x = CHR ''%'' # x @ ''%''"

lemma like_contains_plain: "like_plain x \<Longrightarrow> like (contains_pattern x) s \<longleftrightarrow> sublist x s"
  unfolding contains_pattern_def like_percent [of "x @ ''%''"]
  by (simp add: like_literal like_all) (auto simp: sublist_def)

lemma like_contains_escaped:
  "CHR 0x5C \<notin> set x \<Longrightarrow> like (contains_pattern (esc_like x)) s \<longleftrightarrow> sublist x s"
  unfolding contains_pattern_def like_percent [of "esc_like x @ ''%''"]
  by (simp add: like_escaped like_all) (auto simp: sublist_def)

end
