(* ===== verification/Statements.thy ===== *)
theory Statements
  imports Store Like
begin

text \<open>
  The SQL of the repositories, one definition per writing statement, each atomic, and the
  relation \<open>db_write\<close> of the writes the program issues, with what the code has checked before
  it issues them. Every operation is a sequence of such writes (the theories of the
  repositories and handlers prove it), so a relation between databases that every write keeps
  is kept by every operation: the locale \<open>write_closed\<close>.
\<close>

subsection \<open>Tasks\<close>

definition task_row_of :: "task \<Rightarrow> time \<Rightarrow> task_row" where
  "task_row_of t n = \<lparr>t_id = ID t, t_title = Title t, t_assignee = Assignee t,
     t_status = Status t, t_priority = Priority t, t_parents = marshal_strings (Parents t),
     t_skills = marshal_strings (Skills t),
     t_required_skills = marshal_strings (RequiredSkills t), t_tags = marshal_strings (Tags t),
     t_body_goal = BodyGoal t, t_body_context = BodyContext t,
     t_body_deliverable_format = BodyDeliverableFmt t,
     t_body_deliverable_path = BodyDeliverablePath t, t_created_at = n, t_updated_at = n,
     t_summary = Summary t, t_artifacts_json = marshal_artifacts (Artifacts t),
     t_last_heartbeat = None, t_max_retries = MaxRetries t, t_retry_count = RetryCount t\<rparr>"

definition sql_insert_task :: "task \<Rightarrow> unit sql" where
  "sql_insert_task t n d =
    (if ID t \<in> task_ids d \<or> Status t \<notin> set task_statuses \<or>
        \<not> int4 (Priority t) \<or> \<not> int4 (MaxRetries t) \<or> \<not> int4 (RetryCount t)
     then (None, d) else (Some (), d\<lparr>tasks := tasks d @ [task_row_of t n]\<rparr>))"

definition update_tasks :: "(task_row \<Rightarrow> bool) \<Rightarrow> (task_row \<Rightarrow> task_row) \<Rightarrow> database \<Rightarrow>
    nat option \<times> database" where
  "update_tasks P f d = (Some (count_where P (tasks d)), d\<lparr>tasks := upd_where P f (tasks d)\<rparr>)"

definition set_status :: "string \<Rightarrow> time \<Rightarrow> task_row \<Rightarrow> task_row" where
  "set_status s n r = r\<lparr>t_status := s, t_updated_at := n\<rparr>"

definition sql_update_status :: "string \<Rightarrow> string \<Rightarrow> nat sql" where
  "sql_update_status status i n d =
    (if status \<notin> set task_statuses \<and> i \<in> task_ids d then (None, d)
     else update_tasks (\<lambda>r. t_id r = i) (set_status status n) d)"

definition sql_claim :: "string \<Rightarrow> string \<Rightarrow> nat sql" where
  "sql_claim assignee i n = update_tasks (\<lambda>r. t_id r = i \<and> t_status r = st_pending)
     (\<lambda>r. (set_status st_claimed n r)\<lparr>t_assignee := assignee\<rparr>)"

definition sql_start :: "string \<Rightarrow> nat sql" where
  "sql_start i n = update_tasks (\<lambda>r. t_id r = i \<and> t_status r = st_claimed)
     (set_status st_in_progress n)"

definition sql_block :: "string \<Rightarrow> nat sql" where
  "sql_block i n = update_tasks
     (\<lambda>r. t_id r = i \<and> (t_status r = st_in_progress \<or> t_status r = st_claimed))
     (set_status st_blocked n)"

definition sql_complete :: "string \<Rightarrow> string \<Rightarrow> nat sql" where
  "sql_complete summary i n = update_tasks (\<lambda>r. t_id r = i \<and> t_status r = st_in_progress)
     (\<lambda>r. (set_status st_completed n r)\<lparr>t_summary := summary\<rparr>)"

definition sql_fail :: "string \<Rightarrow> string \<Rightarrow> nat sql" where
  "sql_fail reason i n = update_tasks (\<lambda>r. t_id r = i \<and> t_status r = st_in_progress)
     (\<lambda>r. (set_status st_failed n r)\<lparr>t_summary := reason\<rparr>)"

definition sql_retry :: "string \<Rightarrow> nat sql" where
  "sql_retry i n d =
    (if \<exists>r \<in> set (tasks d). t_id r = i \<and> \<not> int4 (t_retry_count r + 1) then (None, d)
     else update_tasks (\<lambda>r. t_id r = i) (\<lambda>r. (set_status st_pending n r)
       \<lparr>t_retry_count := t_retry_count r + 1, t_assignee := []\<rparr>) d)"

definition expired_summary :: string where
  "expired_summary = ''Task expired: no agent claimed within timeout period''"

definition sql_expire_pending :: "string \<Rightarrow> nat sql" where
  "sql_expire_pending i n = update_tasks (\<lambda>r. t_id r = i \<and> t_status r = st_pending)
     (\<lambda>r. (set_status st_failed n r)\<lparr>t_summary := expired_summary\<rparr>)"

definition sql_release :: "string \<Rightarrow> nat sql" where
  "sql_release i n = update_tasks (\<lambda>r. t_id r = i)
     (\<lambda>r. (set_status st_pending n r)\<lparr>t_assignee := []\<rparr>)"

definition sql_task_heartbeat :: "string \<Rightarrow> nat sql" where
  "sql_task_heartbeat i n = update_tasks (\<lambda>r. t_id r = i)
     (\<lambda>r. r\<lparr>t_last_heartbeat := Some n, t_updated_at := n\<rparr>)"

definition sql_expire_stale :: "string \<Rightarrow> string \<Rightarrow> nat sql" where
  "sql_expire_stale summary i n = update_tasks (\<lambda>r. t_id r = i \<and> t_status r = st_in_progress)
     (\<lambda>r. (set_status st_failed n r)\<lparr>t_summary := summary\<rparr>)"

definition sql_set_artifacts :: "string \<Rightarrow> string \<Rightarrow> nat sql" where
  "sql_set_artifacts raw i n = update_tasks (\<lambda>r. t_id r = i) (\<lambda>r. r\<lparr>t_artifacts_json := raw\<rparr>)"

subsection \<open>Gates\<close>

definition sql_insert_gate :: "gate \<Rightarrow> unit sql" where
  "sql_insert_gate g n d =
    (if GateID g \<in> g_id ` set (gates d) \<or> GateStatus g \<notin> set gate_statuses
        \<or> GateTask g \<notin> task_ids d
     then (None, d)
     else (Some (), d\<lparr>gates := gates d @ [\<lparr>g_id = GateID g, g_task = GateTask g,
       g_question = GateQuestion g, g_ask = GateAsk g, g_status = GateStatus g,
       g_answer = GateAnswer g, g_created_at = n, g_answered_at = None\<rparr>]\<rparr>))"

definition update_gates :: "(gate_row \<Rightarrow> bool) \<Rightarrow> (gate_row \<Rightarrow> gate_row) \<Rightarrow> database \<Rightarrow>
    nat option \<times> database" where
  "update_gates P f d = (Some (count_where P (gates d)), d\<lparr>gates := upd_where P f (gates d)\<rparr>)"

definition sql_ask_gate :: "string \<Rightarrow> string \<Rightarrow> nat sql" where
  "sql_ask_gate answer i n = update_gates (\<lambda>g. g_id g = i \<and> g_status g = st_pending)
     (\<lambda>g. g\<lparr>g_status := st_asked, g_answer := answer\<rparr>)"

definition sql_answer_gate :: "string \<Rightarrow> string \<Rightarrow> nat sql" where
  "sql_answer_gate answer i n = update_gates (\<lambda>g. g_id g = i \<and> g_status g = st_asked)
     (\<lambda>g. g\<lparr>g_status := st_answered, g_answer := answer, g_answered_at := Some n\<rparr>)"

definition sql_resolve_gate :: "string \<Rightarrow> nat sql" where
  "sql_resolve_gate i n = update_gates (\<lambda>g. g_id g = i \<and> g_status g = st_answered)
     (\<lambda>g. g\<lparr>g_status := st_resolved\<rparr>)"

subsection \<open>Agents\<close>

text \<open>
  \<open>ON CONFLICT(name) DO UPDATE\<close> writes every column but \<open>last_event_id\<close>, which a new row
  takes from its default 0.
\<close>

definition sql_upsert_agent :: "agent_row \<Rightarrow> unit sql" where
  "sql_upsert_agent a n d =
    (if \<not> int4 (a_port a) then (None, d)
     else if a_name a \<in> a_name ` set (agents d)
     then (Some (), d\<lparr>agents := upd_where (\<lambda>r. a_name r = a_name a)
       (\<lambda>r. a\<lparr>a_last_event_id := a_last_event_id r\<rparr>) (agents d)\<rparr>)
     else (Some (), d\<lparr>agents := agents d @ [a\<lparr>a_last_event_id := Some 0\<rparr>]\<rparr>))"

definition update_agents :: "(agent_row \<Rightarrow> bool) \<Rightarrow> (agent_row \<Rightarrow> agent_row) \<Rightarrow> database \<Rightarrow>
    nat option \<times> database" where
  "update_agents P f d = (Some (count_where P (agents d)), d\<lparr>agents := upd_where P f (agents d)\<rparr>)"

definition sql_agent_heartbeat :: "time \<Rightarrow> string \<Rightarrow> nat sql" where
  "sql_agent_heartbeat ts name n = update_agents (\<lambda>a. a_name a = name)
     (\<lambda>a. a\<lparr>a_last_heartbeat := Some ts\<rparr>)"

definition sql_set_cursor :: "int \<Rightarrow> string \<Rightarrow> nat sql" where
  "sql_set_cursor c name n = update_agents (\<lambda>a. a_name a = name)
     (\<lambda>a. a\<lparr>a_last_event_id := Some c\<rparr>)"

definition sql_store_token :: "string \<Rightarrow> string \<Rightarrow> string \<Rightarrow> nat sql" where
  "sql_store_token hash pfx name n = update_agents (\<lambda>a. a_name a = name)
     (\<lambda>a. a\<lparr>a_token := hash, a_token_prefix := pfx\<rparr>)"

subsection \<open>Events\<close>

text \<open>The id comes from a sequence, which a refused insert has advanced as well.\<close>

definition sql_insert_event :: "string \<Rightarrow> string \<Rightarrow> string \<Rightarrow> string \<Rightarrow> unit sql" where
  "sql_insert_event task ev agent detail n d =
    (if task \<notin> task_ids d then (None, d\<lparr>next_event := next_event d + 1\<rparr>)
     else (Some (), d\<lparr>next_event := next_event d + 1,
       events := events d @ [\<lparr>e_id = next_event d, e_task = task, e_event = ev,
         e_agent = agent, e_timestamp = n, e_detail = detail\<rparr>]\<rparr>))"

lemmas update_defs = update_tasks_def update_gates_def update_agents_def

lemmas task_stmt_defs = sql_insert_task_def sql_update_status_def sql_claim_def sql_start_def
  sql_block_def sql_complete_def sql_fail_def sql_retry_def sql_expire_pending_def
  sql_release_def sql_task_heartbeat_def sql_expire_stale_def sql_set_artifacts_def

lemmas gate_stmt_defs = sql_insert_gate_def sql_ask_gate_def sql_answer_gate_def
  sql_resolve_gate_def

lemmas agent_stmt_defs = sql_upsert_agent_def sql_agent_heartbeat_def sql_set_cursor_def
  sql_store_token_def

lemmas stmt_defs = task_stmt_defs gate_stmt_defs agent_stmt_defs sql_insert_event_def

subsection \<open>The writes the program issues\<close>

text \<open>
  One rule per statement, with what holds where the code issues it: tasks and gates are
  inserted as pending, a claim has an assignee, skills are written as JSON, a retry is issued for a failed task whose retries are not used up, a
  release for a task selected as claimed or in progress, the artifact column is written with
  the JSON text of a list. Only \<open>UnblockTask\<close> issues the unguarded status update; the flag
  says whether the operation is that one.
\<close>

inductive db_write :: "bool \<Rightarrow> database \<Rightarrow> database \<Rightarrow> bool" for u where
  insert_task: "Status t = st_pending \<Longrightarrow> RetryCount t = 0 \<Longrightarrow>
     db_write u d (snd (sql_insert_task t n d))"
| unblock: "u \<Longrightarrow> db_write u d (snd (sql_update_status st_in_progress i n d))"
| claim: "a \<noteq> [] \<Longrightarrow> db_write u d (snd (sql_claim a i n d))"
| start: "db_write u d (snd (sql_start i n d))"
| block: "db_write u d (snd (sql_block i n d))"
| complete: "db_write u d (snd (sql_complete s i n d))"
| fail: "db_write u d (snd (sql_fail s i n d))"
| retry: "find_task i d = Some r \<Longrightarrow> t_status r = st_failed \<Longrightarrow> 0 < t_max_retries r \<Longrightarrow>
     t_retry_count r < t_max_retries r \<Longrightarrow> db_write u d (snd (sql_retry i n d))"
| expire_pending: "db_write u d (snd (sql_expire_pending i n d))"
| release: "find_task i d = Some r \<Longrightarrow> t_status r = st_claimed \<or> t_status r = st_in_progress \<Longrightarrow>
     db_write u d (snd (sql_release i n d))"
| task_heartbeat: "db_write u d (snd (sql_task_heartbeat i n d))"
| expire_stale: "db_write u d (snd (sql_expire_stale s i n d))"
| set_artifacts: "db_write u d (snd (sql_set_artifacts (marshal_artifacts xs) i n d))"
| insert_gate: "GateStatus g = st_pending \<Longrightarrow> db_write u d (snd (sql_insert_gate g n d))"
| ask_gate: "db_write u d (snd (sql_ask_gate s i n d))"
| answer_gate: "db_write u d (snd (sql_answer_gate s i n d))"
| resolve_gate: "db_write u d (snd (sql_resolve_gate i n d))"
| upsert_agent: "a_skills a = marshal_strings ss \<Longrightarrow> db_write u d (snd (sql_upsert_agent a n d))"
| agent_heartbeat: "db_write u d (snd (sql_agent_heartbeat ts i n d))"
| set_cursor: "db_write u d (snd (sql_set_cursor c i n d))"
| store_token: "db_write u d (snd (sql_store_token h p i n d))"
| insert_event: "db_write u d (snd (sql_insert_event t e a x n d))"

lemma row_id_simps [row_simps, simp]:
  "t_id (set_status s n r) = t_id r" "t_status (set_status s n r) = s"
  "t_max_retries (set_status s n r) = t_max_retries r"
  "t_retry_count (set_status s n r) = t_retry_count r"
  by (simp_all add: set_status_def)

lemma update_tasks_simps [simp]:
  "gates (snd (update_tasks P f d)) = gates d" "agents (snd (update_tasks P f d)) = agents d"
  "events (snd (update_tasks P f d)) = events d"
  "next_event (snd (update_tasks P f d)) = next_event d"
  "tasks (snd (update_tasks P f d)) = upd_where P f (tasks d)"
  "fst (update_tasks P f d) = Some (count_where P (tasks d))"
  by (simp_all add: update_tasks_def)

lemma update_gates_simps [simp]:
  "tasks (snd (update_gates P h d)) = tasks d" "agents (snd (update_gates P h d)) = agents d"
  "events (snd (update_gates P h d)) = events d"
  "next_event (snd (update_gates P h d)) = next_event d"
  "gates (snd (update_gates P h d)) = upd_where P h (gates d)"
  "fst (update_gates P h d) = Some (count_where P (gates d))"
  by (simp_all add: update_gates_def)

lemma update_agents_simps [simp]:
  "tasks (snd (update_agents P h d)) = tasks d" "gates (snd (update_agents P h d)) = gates d"
  "events (snd (update_agents P h d)) = events d"
  "next_event (snd (update_agents P h d)) = next_event d"
  "agents (snd (update_agents P h d)) = upd_where P h (agents d)"
  "fst (update_agents P h d) = Some (count_where P (agents d))"
  by (simp_all add: update_agents_def)

lemma task_ids_update:
  "(\<And>r. t_id (f r) = t_id r) \<Longrightarrow> task_ids (snd (update_tasks P f d)) = task_ids d"
  by (simp add: task_ids_def map_upd_where flip: set_map)

lemma wf_update_tasks:
  assumes "wf_db d" and "\<And>r. t_id (f r) = t_id r"
    and "\<And>r. t_status r \<in> set task_statuses \<Longrightarrow> t_status (f r) \<in> set task_statuses"
  shows "wf_db (snd (update_tasks P f d))"
  using assms task_ids_update [of f P d]
  by (auto simp: wf_db_def map_upd_where set_upd_where)

lemma wf_update_gates:
  assumes "wf_db d" and "\<And>r. g_id (f r) = g_id r" and "\<And>r. g_task (f r) = g_task r"
    and "\<And>r. g_status r \<in> set gate_statuses \<Longrightarrow> g_status (f r) \<in> set gate_statuses"
  shows "wf_db (snd (update_gates P f d))"
  using assms by (auto simp: wf_db_def map_upd_where set_upd_where task_ids_def)

lemma wf_update_agents:
  assumes "wf_db d" and "\<And>r. a_name (f r) = a_name r"
  shows "wf_db (snd (update_agents P f d))"
  using assms by (auto simp: wf_db_def map_upd_where set_upd_where task_ids_def)

lemma wf_insert_task: "wf_db d \<Longrightarrow> wf_db (snd (sql_insert_task t n d))"
  by (auto simp: sql_insert_task_def wf_db_def task_ids_def task_row_of_def)

lemma wf_insert_gate: "wf_db d \<Longrightarrow> wf_db (snd (sql_insert_gate g n d))"
  by (auto simp: sql_insert_gate_def wf_db_def task_ids_def)

lemma wf_upsert_agent: "wf_db d \<Longrightarrow> wf_db (snd (sql_upsert_agent a n d))"
proof -
  assume wf: "wf_db d"
  have "map a_name (upd_where (\<lambda>r. a_name r = a_name a)
      (\<lambda>r. a\<lparr>a_last_event_id := a_last_event_id r\<rparr>) rs) = map a_name rs" for rs
    by (induction rs) auto
  with wf show ?thesis by (auto simp: sql_upsert_agent_def wf_db_def task_ids_def)
qed

lemma wf_insert_event: "wf_db d \<Longrightarrow> wf_db (snd (sql_insert_event t e a x n d))"
  by (fastforce simp: sql_insert_event_def wf_db_def task_ids_def sorted_wrt_append)

lemma db_write_wf: "db_write u d d' \<Longrightarrow> wf_db d \<Longrightarrow> wf_db d'"
proof (induction rule: db_write.induct)
  case (unblock d i n)
  then show ?case by (auto simp: sql_update_status_def intro!: wf_update_tasks)
next
  case (retry i d r n)
  then show ?case by (auto simp: sql_retry_def intro!: wf_update_tasks)
qed (simp_all add: wf_insert_task wf_insert_gate wf_upsert_agent wf_insert_event
       task_stmt_defs(3-7) task_stmt_defs(9-) gate_stmt_defs(2-) agent_stmt_defs(2-)
       wf_update_tasks wf_update_gates wf_update_agents)

lemma db_writes_wf: "(db_write u)\<^sup>*\<^sup>* d d' \<Longrightarrow> wf_db d \<Longrightarrow> wf_db d'"
  by (induction rule: rtranclp_induct) (auto intro: db_write_wf)

lemma db_write_mono: "db_write False d d' \<Longrightarrow> db_write u d d'"
  by (induction rule: db_write.induct) (auto intro: db_write.intros)

lemma db_writes_mono: "(db_write False)\<^sup>*\<^sup>* d d' \<Longrightarrow> (db_write u)\<^sup>*\<^sup>* d d'"
  by (induction rule: rtranclp_induct) (auto intro: db_write_mono rtranclp.rtrancl_into_rtrancl)

subsection \<open>Relations every write keeps\<close>

text \<open>
  The contract between the statements and everything built from them: a preorder on
  databases that each write of a well-formed database keeps is kept by every sequence of
  writes, hence by every operation and every run.
\<close>

locale write_closed =
  fixes u :: bool and R :: "database \<Rightarrow> database \<Rightarrow> bool"
  assumes refl: "R d d"
    and trans: "R d1 d2 \<Longrightarrow> R d2 d3 \<Longrightarrow> R d1 d3"
    and keeps: "wf_db d \<Longrightarrow> db_write u d d' \<Longrightarrow> R d d'"
begin

lemma writes: "(db_write u)\<^sup>*\<^sup>* d d' \<Longrightarrow> wf_db d \<Longrightarrow> R d d'"
proof (induction rule: rtranclp_induct)
  case base
  show ?case by (rule refl)
next
  case (step d' d'')
  then have "wf_db d'" using db_writes_wf by blast
  with step show ?case by (meson trans keeps)
qed

end

subsection \<open>Operations as sequences of writes\<close>

definition issues :: "bool \<Rightarrow> (world, 'a) state \<Rightarrow> bool" where
  "issues u m \<longleftrightarrow> (\<forall>w. wf_db (db w) \<longrightarrow> (db_write u)\<^sup>*\<^sup>* (db w) (db (snd (run_state m w))))"

lemma issues_return [steps_intros]: "issues u (State_Monad.return x)"
  by (simp add: issues_def exec_simps)

lemma issues_bind [steps_intros]:
  assumes "issues u m" and "\<And>x. issues u (f x)"
  shows "issues u (State_Monad.bind m f)"
  unfolding issues_def
proof (intro allI impI)
  fix w :: world
  assume wf: "wf_db (db w)"
  obtain x w' where m: "run_state m w = (x, w')" by (cases "run_state m w")
  have 1: "(db_write u)\<^sup>*\<^sup>* (db w) (db w')" using assms(1) wf m by (auto simp: issues_def)
  then have "wf_db (db w')" using wf by (rule db_writes_wf)
  then have "(db_write u)\<^sup>*\<^sup>* (db w') (db (snd (run_state (f x) w')))"
    using assms(2) by (auto simp: issues_def)
  with 1 show "(db_write u)\<^sup>*\<^sup>* (db w) (db (snd (run_state (State_Monad.bind m f) w)))"
    by (simp add: exec_simps m)
qed

lemma issues_exec:
  assumes "\<And>n d. db_write u d (snd (s n d))"
  shows "issues u (exec s)"
  unfolding issues_def
proof (intro allI impI)
  fix w :: world
  obtain r w' where e: "run_state (exec s) w = (r, w')" by (cases "run_state (exec s) w")
  from exec_cases [OF e] assms show "(db_write u)\<^sup>*\<^sup>* (db w) (db (snd (run_state (exec s) w)))"
    by (auto simp: e)
qed

lemma issues_query [steps_intros]: "issues u (query q)"
  unfolding issues_def
  by (metis prod.collapse query_cases rtranclp.rtrancl_refl)

lemma run_get [exec_simps]: "run_state State_Monad.get w = (w, w)"
  by (simp add: State_Monad.get_def)

lemma issues_get [steps_intros]: "issues u State_Monad.get"
  by (simp add: issues_def exec_simps)

lemma issues_go [steps_intros]: "issues u (go j)"
  by (simp add: issues_def exec_simps)

lemma issues_mono: "issues False m \<Longrightarrow> issues u m"
  by (simp add: issues_def db_writes_mono)

lemma issues_if [steps_intros]:
  "(b \<Longrightarrow> issues u m) \<Longrightarrow> (\<not> b \<Longrightarrow> issues u m') \<Longrightarrow> issues u (if b then m else m')"
  by simp

lemma issues_case_option [steps_intros]:
  "issues u m \<Longrightarrow> (\<And>x. issues u (f x)) \<Longrightarrow> issues u (case z of None \<Rightarrow> m | Some x \<Rightarrow> f x)"
  by (cases z) auto

lemma issues_case_sum [steps_intros]:
  "(\<And>e. issues u (g e)) \<Longrightarrow> (\<And>x. issues u (f x)) \<Longrightarrow>
     issues u (case z of Inl e \<Rightarrow> g e | Inr x \<Rightarrow> f x)"
  by (cases z) auto

lemma issues_case_prod [steps_intros]:
  "(\<And>a b. issues u (f a b)) \<Longrightarrow> issues u (case z of (a, b) \<Rightarrow> f a b)"
  by (cases z) auto

lemma issues_let [steps_intros]: "(\<And>x. issues u (f x)) \<Longrightarrow> issues u (let x = e in f x)"
  by simp

lemma issues_wf: "issues u m \<Longrightarrow> wf_db (db w) \<Longrightarrow> wf_db (db (snd (run_state m w)))"
  unfolding issues_def using db_writes_wf by blast

lemmas issues_stmts [steps_intros] =
  issues_exec [OF db_write.start] issues_exec [OF db_write.block]
  issues_exec [OF db_write.complete] issues_exec [OF db_write.fail] issues_exec [OF db_write.expire_pending]
  issues_exec [OF db_write.task_heartbeat] issues_exec [OF db_write.expire_stale] issues_exec [OF db_write.set_artifacts]
  issues_exec [OF db_write.ask_gate] issues_exec [OF db_write.answer_gate] issues_exec [OF db_write.resolve_gate]
  issues_exec [OF db_write.agent_heartbeat] issues_exec [OF db_write.set_cursor]
  issues_exec [OF db_write.store_token] issues_exec [OF db_write.insert_event]

lemma issues_insert_task [steps_intros]:
  "Status t = st_pending \<Longrightarrow> RetryCount t = 0 \<Longrightarrow> issues u (exec (sql_insert_task t))"
  by (rule issues_exec) (rule db_write.insert_task)

lemma issues_claim [steps_intros]: "a \<noteq> [] \<Longrightarrow> issues u (exec (sql_claim a i))"
  by (rule issues_exec) (rule db_write.claim)

lemma issues_upsert [steps_intros]: "a_skills a = marshal_strings ss \<Longrightarrow> issues u (exec (sql_upsert_agent a))"
  by (rule issues_exec) (rule db_write.upsert_agent)

lemma issues_insert_gate [steps_intros]:
  "GateStatus g = st_pending \<Longrightarrow> issues u (exec (sql_insert_gate g))"
  by (rule issues_exec) (rule db_write.insert_gate)

lemma issues_unblock [steps_intros]: "issues True (exec (sql_update_status st_in_progress i))"
  by (rule issues_exec) (rule db_write.unblock, simp)

end
