(* ===== verification/EventRepo.thy ===== *)
theory EventRepo
  imports Statements
begin

text \<open>
  \<^verbatim>\<open>internal/db/task_event_repo.go\<close>: the audit trail of task events and its two readers,
  the trail of one task and the feed with an id or a timestamp cursor.
\<close>

definition InsertEvent :: "string \<Rightarrow> string \<Rightarrow> string \<Rightarrow> string \<Rightarrow> (world, repo_error + unit) state" where
  "InsertEvent taskID event ag detail = do {
     r \<leftarrow> exec (sql_insert_event taskID event ag detail);
     State_Monad.return (case r of None \<Rightarrow> Inl (DbError ''insert task event'') | Some _ \<Rightarrow> Inr ())
   }"

text \<open>\<open>LEFT JOIN tasks t ... COALESCE(t.title, e.task_id)\<close>\<close>

definition joined_event :: "database \<Rightarrow> event_row \<Rightarrow> task_event" where
  "joined_event d e = \<lparr>EvID = e_id e, EvTask = e_task e, EvEvent = e_event e, EvAgent = e_agent e,
     EvTimestamp = e_timestamp e, EvDetail = e_detail e,
     EvTitle = (case find_task (e_task e) d of None \<Rightarrow> e_task e | Some t \<Rightarrow> t_title t)\<rparr>"

text \<open>
  The four queries differ in the cursor and the agent filter only. The timestamp cursor is
  the text the server casts to a timestamp; none when it rejects the text.
\<close>

definition since_where :: "time option \<Rightarrow> string \<Rightarrow> int \<Rightarrow> bool \<Rightarrow> event_row \<Rightarrow> bool" where
  "since_where since ag afterID useID e \<longleftrightarrow>
     (if useID then afterID < e_id e
      else (case since of None \<Rightarrow> False | Some ts \<Rightarrow> ts < e_timestamp e)) \<and>
     (ag \<noteq> [] \<longrightarrow> e_agent e = ag \<or> e_agent e = [])"

definition clamp_limit :: "int \<Rightarrow> int" where
  "clamp_limit limit = (if limit \<le> 0 \<or> limit > 200 then 50 else limit)"

definition select_since :: "time option \<Rightarrow> string \<Rightarrow> int \<Rightarrow> int \<Rightarrow> bool \<Rightarrow> database \<Rightarrow> task_event list" where
  "select_since since ag limit afterID useID d =
     map (joined_event d) (take (nat limit)
       (rev (sort_key e_id (filter (since_where since ag afterID useID) (events d)))))"

definition ListSince :: "time option \<Rightarrow> string \<Rightarrow> int \<Rightarrow> int \<Rightarrow> bool \<Rightarrow>
    (world, repo_error + task_event slice) state" where
  "ListSince since ag limit afterID useID = do {
     rows \<leftarrow> (if \<not> useID \<and> since = None then exec (\<lambda>n d. (None, d))
       else query (\<lambda>_. select_since since ag (clamp_limit limit) afterID useID));
     State_Monad.return (case rows of None \<Rightarrow> Inl (DbError ''list events since'')
       | Some es \<Rightarrow> Inr (built es))
   }"

definition select_by_task :: "string \<Rightarrow> database \<Rightarrow> task_event list" where
  "select_by_task taskID d =
     map (\<lambda>e. \<lparr>EvID = 0, EvTask = e_task e, EvEvent = e_event e, EvAgent = e_agent e,
            EvTimestamp = e_timestamp e, EvDetail = e_detail e, EvTitle = []\<rparr>)
       (rev (sort_key e_timestamp (filter (\<lambda>e. e_task e = taskID) (events d))))"

definition ListByTask :: "string \<Rightarrow> (world, repo_error + task_event slice) state" where
  "ListByTask taskID = do {
     rows \<leftarrow> query (\<lambda>_. select_by_task taskID);
     State_Monad.return (case rows of None \<Rightarrow> Inl (DbError ''list task events'')
       | Some es \<Rightarrow> Inr (built es))
   }"

subsection \<open>Writes\<close>

lemma issues_InsertEvent [steps_intros]: "issues u (InsertEvent t e a x)"
  unfolding InsertEvent_def by (intro steps_intros)

lemma issues_refused [steps_intros]: "issues u (exec (\<lambda>n d. (None, d)))"
  using issues_query [of u "\<lambda>_ _. undefined"] exec_cases
  by (metis (no_types, lifting) issues_def prod.collapse rtranclp.rtrancl_refl snd_conv)

lemma issues_ListSince [steps_intros]: "issues u (ListSince s a l i b)"
  unfolding ListSince_def by (intro steps_intros)

lemma issues_ListByTask [steps_intros]: "issues u (ListByTask t)"
  unfolding ListByTask_def by (intro steps_intros)

lemma InsertEvent_frame:
  "tasks (db (snd (run_state (InsertEvent t e a x) w))) = tasks (db w)"
  "gates (db (snd (run_state (InsertEvent t e a x) w))) = gates (db w)"
  "agents (db (snd (run_state (InsertEvent t e a x) w))) = agents (db w)"
proof -
  obtain r w' where e: "run_state (exec (sql_insert_event t e a x)) w = (r, w')"
    by (cases "run_state (exec (sql_insert_event t e a x)) w")
  from exec_cases [OF e]
  show "tasks (db (snd (run_state (InsertEvent t e a x) w))) = tasks (db w)"
    "gates (db (snd (run_state (InsertEvent t e a x) w))) = gates (db w)"
    "agents (db (snd (run_state (InsertEvent t e a x) w))) = agents (db w)"
    by (auto simp: InsertEvent_def exec_simps e sql_insert_event_def)
qed

subsection \<open>The feed\<close>

lemma sort_key_sorted: "sorted_wrt (<) (map f xs) \<Longrightarrow> sort_key f xs = xs" for f :: "'a \<Rightarrow> 'b::linorder"
  by (rule sort_key_id_if_sorted) (metis strict_sorted_iff)

lemma sorted_filter_ids: "sorted_wrt (<) (map e_id es) \<Longrightarrow> sorted_wrt (<) (map e_id (filter P es))"
  by (induction es) auto

text \<open>In a well-formed database the ids are already ascending, so the feed is the tail of the table.\<close>

lemma select_since_wf:
  assumes "wf_db d"
  shows "select_since since ag limit afterID useID d =
    map (joined_event d) (take (nat limit) (rev (filter (since_where since ag afterID useID) (events d))))"
proof -
  have "sorted_wrt (<) (map e_id (filter (since_where since ag afterID useID) (events d)))"
    using assms by (intro sorted_filter_ids) (simp add: wf_db_def)
  then show ?thesis by (simp add: select_since_def sort_key_sorted)
qed

lemma clamp_limit_bounds: "1 \<le> clamp_limit l \<and> clamp_limit l \<le> 200"
  by (simp add: clamp_limit_def)

end
