(* ===== verification/TaskRepo.thy ===== *)
theory TaskRepo
  imports EventRepo
begin

text \<open>
  \<^verbatim>\<open>internal/db/task_repo.go\<close>: the task repository. Each method is its Go body in
  do-notation: a statement returns none when the driver reports an error, the number of
  affected rows (or the rows) otherwise, and the method branches on it as the code does.
  Log lines are left out. \<open>NewTaskRepo\<close> sets the event repository, so the checks for a nil
  one have no other branch.
\<close>

subsection \<open>Scanning rows\<close>

definition unmarshal_or_nil :: "'a slice option \<Rightarrow> 'a slice" where
  "unmarshal_or_nil r = (case r of None \<Rightarrow> None | Some s \<Rightarrow> s)"

lemma unmarshal_or_nil_Some [simp]: "unmarshal_or_nil (Some s) = s"
  by (simp add: unmarshal_or_nil_def)

definition scan_columns :: "task_row \<Rightarrow> task" where
  "scan_columns r = \<lparr>ID = t_id r, Title = t_title r, Assignee = t_assignee r,
     Status = t_status r, Priority = t_priority r,
     Parents = unmarshal_or_nil (unmarshal_strings (t_parents r)),
     Skills = unmarshal_or_nil (unmarshal_strings (t_skills r)),
     RequiredSkills = unmarshal_or_nil (unmarshal_strings (t_required_skills r)),
     Tags = unmarshal_or_nil (unmarshal_strings (t_tags r)),
     BodyGoal = t_body_goal r, BodyContext = t_body_context r,
     BodyDeliverableFmt = t_body_deliverable_format r,
     BodyDeliverablePath = t_body_deliverable_path r,
     CreatedAt = t_created_at r, UpdatedAt = t_updated_at r, Summary = t_summary r,
     Artifacts = unmarshal_or_nil (unmarshal_artifacts (t_artifacts_json r)),
     LastHeartbeat = t_last_heartbeat r, MaxRetries = t_max_retries r,
     RetryCount = t_retry_count r\<rparr>"

definition scanTaskRow :: "task_row \<Rightarrow> task" where
  "scanTaskRow r = (let task = scan_columns r
     in if Status task = [] then task\<lparr>Status := st_pending\<rparr> else task)"

subsection \<open>Create and the readers\<close>

definition logTaskEvent :: "string \<Rightarrow> string \<Rightarrow> string \<Rightarrow> string \<Rightarrow> (world, unit) state" where
  "logTaskEvent taskID event ag detail = do {
     _ \<leftarrow> InsertEvent taskID event ag detail;
     State_Monad.return ()
   }"

definition Create :: "task \<Rightarrow> (world, repo_error + unit) state" where
  "Create t = (let t = (if Status t = [] then t\<lparr>Status := st_pending\<rparr> else t) in do {
     r \<leftarrow> exec (sql_insert_task t);
     case r of
       None \<Rightarrow> State_Monad.return (Inl (DbError ''insert task''))
     | Some _ \<Rightarrow> do {
         logTaskEvent (ID t) ''CreateTask'' (Assignee t) [];
         State_Monad.return (Inr ())
       }
   })"

definition GetByID :: "string \<Rightarrow> (world, repo_error + task option) state" where
  "GetByID i = do {
     row \<leftarrow> query (\<lambda>_. find_task i);
     State_Monad.return (case row of
       None \<Rightarrow> Inl (DbError ''scan task'')
     | Some None \<Rightarrow> Inr None
     | Some (Some r) \<Rightarrow> Inr (Some (scanTaskRow r)))
   }"

definition getTasksByIDs :: "string list \<Rightarrow> (world, repo_error + task slice) state" where
  "getTasksByIDs ids = (if ids = [] then State_Monad.return (Inr None) else do {
     rows \<leftarrow> query (\<lambda>_ d. filter (\<lambda>r. t_id r \<in> set ids) (tasks d));
     State_Monad.return (case rows of
       None \<Rightarrow> Inl (DbError ''batch get tasks'')
     | Some rs \<Rightarrow> Inr (built (map scanTaskRow rs)))
   })"

definition AreParentsCompleted :: "string list \<Rightarrow> (world, repo_error + bool) state" where
  "AreParentsCompleted parentIDs = (if parentIDs = [] then State_Monad.return (Inr True) else do {
     count \<leftarrow> query (\<lambda>_ d. count_where (\<lambda>r. t_id r \<in> set parentIDs \<and> t_status r = st_completed)
       (tasks d));
     State_Monad.return (case count of
       None \<Rightarrow> Inl (DbError ''check parents'')
     | Some n \<Rightarrow> Inr (n = length parentIDs))
   })"

definition list_where :: "string \<Rightarrow> string \<Rightarrow> string list \<Rightarrow> task_row \<Rightarrow> bool" where
  "list_where status assignee required r \<longleftrightarrow>
     (status \<noteq> [] \<longrightarrow> t_status r = status) \<and> (assignee \<noteq> [] \<longrightarrow> t_assignee r = assignee) \<and>
     (\<forall>skill \<in> set required. like (contains_pattern (esc_like skill)) (t_required_skills r))"

definition List :: "string \<Rightarrow> string \<Rightarrow> string list \<Rightarrow> (world, repo_error + task slice) state" where
  "List status assignee required = do {
     rows \<leftarrow> query (\<lambda>_ d. filter (list_where status assignee required) (tasks d));
     State_Monad.return (case rows of
       None \<Rightarrow> Inl (DbError ''list tasks'')
     | Some rs \<Rightarrow> Inr (built (map scan_columns rs)))
   }"

definition GetPendingByAgent :: "string \<Rightarrow> (world, repo_error + task slice) state" where
  "GetPendingByAgent ag = List st_pending [] []"

subsection \<open>Transitions\<close>

text \<open>\<^verbatim>\<open>SELECT status FROM tasks WHERE id = $1\<close>, its error ignored: the empty string then.\<close>

definition current_status :: "string \<Rightarrow> (world, string) state" where
  "current_status i = do {
     row \<leftarrow> query (\<lambda>_. find_task i);
     State_Monad.return (case row of Some (Some r) \<Rightarrow> t_status r | _ \<Rightarrow> [])
   }"

definition UpdateStatus :: "string \<Rightarrow> string \<Rightarrow> (world, repo_error + unit) state" where
  "UpdateStatus i status = do {
     res \<leftarrow> exec (sql_update_status status i);
     case res of
       None \<Rightarrow> State_Monad.return (Inl (DbError ''update status''))
     | Some n \<Rightarrow> if n = 0 then State_Monad.return (Inl (TaskNotFound i)) else do {
         logTaskEvent i ''UpdateStatus'' [] [];
         State_Monad.return (Inr ())
       }
   }"

definition conflict_or_missing :: "string \<Rightarrow> string \<Rightarrow> (world, repo_error + 'a) state" where
  "conflict_or_missing i msg = do {
     current \<leftarrow> current_status i;
     State_Monad.return (Inl (if current = [] then TaskNotFound i else ConflictError current msg))
   }"

definition ClaimTask :: "string \<Rightarrow> string \<Rightarrow> (world, repo_error + task option) state" where
  "ClaimTask i assignee = do {
     res \<leftarrow> exec (sql_claim assignee i);
     case res of
       None \<Rightarrow> State_Monad.return (Inl (DbError ''claim task''))
     | Some n \<Rightarrow> if n = 0 then conflict_or_missing i ''task is not in pending status'' else do {
         logTaskEvent i ''ClaimTask'' assignee [];
         GetByID i
       }
   }"

definition StartTask :: "string \<Rightarrow> (world, repo_error + task option) state" where
  "StartTask i = do {
     res \<leftarrow> exec (sql_start i);
     case res of
       None \<Rightarrow> State_Monad.return (Inl (DbError ''start task''))
     | Some n \<Rightarrow> if n = 0 then conflict_or_missing i ''task is not in claimed status'' else do {
         logTaskEvent i ''StartTask'' [] [];
         GetByID i
       }
   }"

text \<open>Unlike its siblings, \<open>BlockTask\<close> reports a conflict with an empty status for a missing task.\<close>

definition BlockTask :: "string \<Rightarrow> (world, repo_error + task option) state" where
  "BlockTask i = do {
     res \<leftarrow> exec (sql_block i);
     case res of
       None \<Rightarrow> State_Monad.return (Inl (DbError ''block task''))
     | Some n \<Rightarrow> if n = 0 then do {
           current \<leftarrow> current_status i;
           State_Monad.return
             (Inl (ConflictError current ''task is not in in_progress or claimed status''))
         } else do {
           logTaskEvent i ''BlockTask'' [] [];
           GetByID i
         }
   }"

subsection \<open>Parents and children\<close>

definition CheckParentsCompleted :: "string \<Rightarrow> (world, repo_error + bool) state" where
  "CheckParentsCompleted taskID = do {
     r \<leftarrow> GetByID taskID;
     case r of
       Inl e \<Rightarrow> State_Monad.return (Inl (DbError ''get task for parent check''))
     | Inr None \<Rightarrow> State_Monad.return (Inl (TaskNotFound taskID))
     | Inr (Some t) \<Rightarrow> AreParentsCompleted (elems (Parents t))
   }"

definition parents_like :: "string \<Rightarrow> task_row \<Rightarrow> bool" where
  "parents_like taskID r \<longleftrightarrow> like (contains_pattern taskID) (t_parents r)"

fun promote_loop :: "string \<Rightarrow> string list \<Rightarrow> (world, unit) state" where
  "promote_loop taskID [] = State_Monad.return ()"
| "promote_loop taskID (childID # rest) = do {
     r \<leftarrow> CheckParentsCompleted childID;
     case r of
       Inl e \<Rightarrow> promote_loop taskID rest
     | Inr allDone \<Rightarrow>
         if allDone then do {
           logTaskEvent childID ''ParentsCompleted'' [] (''parent '' @ taskID @ '' completed'');
           promote_loop taskID rest
         } else promote_loop taskID rest
   }"

definition PromoteChildren :: "string \<Rightarrow> (world, repo_error + unit) state" where
  "PromoteChildren taskID = do {
     rows \<leftarrow> query (\<lambda>_ d. map t_id
       (filter (\<lambda>r. parents_like taskID r \<and> t_status r = st_pending) (tasks d)));
     case rows of
       None \<Rightarrow> State_Monad.return (Inl (DbError ''query children for promotion''))
     | Some childIDs \<Rightarrow> do {
         promote_loop taskID childIDs;
         State_Monad.return (Inr ())
       }
   }"

definition CompleteTask :: "string \<Rightarrow> string \<Rightarrow> (world, repo_error + task option) state" where
  "CompleteTask i summary = do {
     res \<leftarrow> exec (sql_complete summary i);
     case res of
       None \<Rightarrow> State_Monad.return (Inl (DbError ''complete task''))
     | Some n \<Rightarrow>
         if n = 0 then conflict_or_missing i ''task is not in in_progress status'' else do {
           logTaskEvent i ''CompleteTask'' [] summary;
           r \<leftarrow> GetByID i;
           case r of
             Inl e \<Rightarrow> State_Monad.return (Inl (DbError ''get task after complete''))
           | Inr completed \<Rightarrow> do {
               _ \<leftarrow> PromoteChildren i;
               State_Monad.return (Inr completed)
             }
         }
   }"

subsection \<open>Failure and retry\<close>

record fail_result =
  FTask :: "task option"
  DidRetry :: bool
  Attempt :: int
  MaxRetry :: int

definition retry_detail :: "task \<Rightarrow> string \<Rightarrow> string" where
  "retry_detail t reason = ''retry '' @ dec_int (RetryCount t + 1) @ ''/'' @ dec_int (MaxRetries t)
     @ '': '' @ reason"

definition FailTask :: "string \<Rightarrow> string \<Rightarrow> (world, repo_error + fail_result) state" where
  "FailTask i reason = do {
     res \<leftarrow> exec (sql_fail reason i);
     case res of
       None \<Rightarrow> State_Monad.return (Inl (DbError ''fail task''))
     | Some n \<Rightarrow>
         if n = 0 then conflict_or_missing i ''task is not in in_progress status'' else do {
           logTaskEvent i ''FailTask'' [] reason;
           r \<leftarrow> GetByID i;
           case r of
             Inl e \<Rightarrow> State_Monad.return (Inl (DbError ''get task after fail''))
           | Inr None \<Rightarrow> State_Monad.return (Inl NilDeref)
           | Inr (Some t) \<Rightarrow>
               if 0 < MaxRetries t \<and> RetryCount t < MaxRetries t then do {
                 res' \<leftarrow> exec (sql_retry i);
                 case res' of
                   None \<Rightarrow> State_Monad.return (Inl (DbError ''fail task retry''))
                 | Some _ \<Rightarrow> do {
                     logTaskEvent i ''TaskRetry'' [] (retry_detail t reason);
                     r' \<leftarrow> GetByID i;
                     case r' of
                       Inl e \<Rightarrow> State_Monad.return (Inl (DbError ''get task after retry''))
                     | Inr None \<Rightarrow> State_Monad.return (Inl NilDeref)
                     | Inr (Some t') \<Rightarrow> State_Monad.return (Inr \<lparr>FTask = Some t',
                         DidRetry = True, Attempt = RetryCount t', MaxRetry = MaxRetries t\<rparr>)
                   }
               } else State_Monad.return (Inr \<lparr>FTask = Some t, DidRetry = False, Attempt = 0,
                   MaxRetry = MaxRetries t\<rparr>)
         }
   }"

subsection \<open>Timeouts\<close>

text \<open>Clock readings are in seconds; \<open>minutes n\<close> is the interval of \<open>n\<close> minutes.\<close>

definition minutes :: "int \<Rightarrow> time" where
  "minutes n = 60 * n"

definition pending_expired :: "int \<Rightarrow> time \<Rightarrow> task_row \<Rightarrow> bool" where
  "pending_expired timeoutMinutes n r \<longleftrightarrow>
     t_status r = st_pending \<and> t_created_at r < n - minutes timeoutMinutes"

fun expire_pending_loop :: "int \<Rightarrow> string list \<Rightarrow> (world, unit) state" where
  "expire_pending_loop m [] = State_Monad.return ()"
| "expire_pending_loop m (i # rest) = do {
     res \<leftarrow> exec (sql_expire_pending i);
     case res of
       None \<Rightarrow> expire_pending_loop m rest
     | Some _ \<Rightarrow> do {
         logTaskEvent i ''PendingTimeout'' []
           (''Task expired after '' @ dec_int m @ '' minutes in pending status'');
         expire_pending_loop m rest
       }
   }"

definition ExpirePendingTasks :: "int \<Rightarrow> (world, repo_error + string slice) state" where
  "ExpirePendingTasks timeoutMinutes =
    (if timeoutMinutes \<le> 0 then State_Monad.return (Inl (InvalidTimeout timeoutMinutes)) else do {
       rows \<leftarrow> query (\<lambda>n d. map t_id (filter (pending_expired timeoutMinutes n) (tasks d)));
       case rows of
         None \<Rightarrow> State_Monad.return (Inl (DbError ''query pending expired tasks''))
       | Some expiredIDs \<Rightarrow>
           if expiredIDs = [] then State_Monad.return (Inr None) else do {
             expire_pending_loop timeoutMinutes expiredIDs;
             State_Monad.return (Inr (Some expiredIDs))
           }
     })"

definition active_task_of :: "string \<Rightarrow> task_row \<Rightarrow> bool" where
  "active_task_of agentName r \<longleftrightarrow> t_assignee r = agentName \<and>
     (t_status r = st_claimed \<or> t_status r = st_in_progress)"

fun release_loop :: "string \<Rightarrow> string list \<Rightarrow> (world, unit) state" where
  "release_loop agentName [] = State_Monad.return ()"
| "release_loop agentName (i # rest) = do {
     res \<leftarrow> exec (sql_release i);
     case res of
       None \<Rightarrow> release_loop agentName rest
     | Some _ \<Rightarrow> do {
         logTaskEvent i ''StaleAgentRelease'' [] (''released from stale agent '' @ agentName);
         release_loop agentName rest
       }
   }"

definition ReleaseAgentTasks :: "string \<Rightarrow> (world, repo_error + string slice) state" where
  "ReleaseAgentTasks agentName = do {
     rows \<leftarrow> query (\<lambda>_ d. map t_id (filter (active_task_of agentName) (tasks d)));
     case rows of
       None \<Rightarrow> State_Monad.return (Inl (DbError ''query agent tasks''))
     | Some released \<Rightarrow> do {
         release_loop agentName released;
         State_Monad.return (Inr (built released))
       }
   }"

definition UpdateTaskHeartbeat :: "string \<Rightarrow> (world, repo_error + unit) state" where
  "UpdateTaskHeartbeat taskID = do {
     res \<leftarrow> exec (sql_task_heartbeat taskID);
     State_Monad.return (case res of
       None \<Rightarrow> Inl (DbError ''update task heartbeat'')
     | Some n \<Rightarrow> if n = 0 then Inl (TaskNotFound taskID) else Inr ())
   }"

definition stale_in_progress :: "int \<Rightarrow> time \<Rightarrow> task_row \<Rightarrow> bool" where
  "stale_in_progress timeoutMinutes n r \<longleftrightarrow> t_status r = st_in_progress \<and>
     (case t_last_heartbeat r of
        Some h \<Rightarrow> h < n - minutes timeoutMinutes
      | None \<Rightarrow> t_created_at r < n - minutes timeoutMinutes)"

definition stale_summary :: "int \<Rightarrow> string" where
  "stale_summary m = ''Task timed out after '' @ dec_int m @ '' minutes without heartbeat''"

fun expire_stale_loop :: "int \<Rightarrow> string list \<Rightarrow> (world, unit) state" where
  "expire_stale_loop m [] = State_Monad.return ()"
| "expire_stale_loop m (i # rest) = do {
     res \<leftarrow> exec (sql_expire_stale (stale_summary m) i);
     case res of
       None \<Rightarrow> expire_stale_loop m rest
     | Some _ \<Rightarrow> do {
         logTaskEvent i ''TaskHeartbeatTimeout'' []
           (''Task expired after '' @ dec_int m @ '' minutes without heartbeat'');
         expire_stale_loop m rest
       }
   }"

definition ExpireStaleInProgressTasks :: "int \<Rightarrow> (world, repo_error + string slice) state" where
  "ExpireStaleInProgressTasks timeoutMinutes =
    (if timeoutMinutes \<le> 0 then State_Monad.return (Inr None) else do {
       rows \<leftarrow> query (\<lambda>n d. map t_id (filter (stale_in_progress timeoutMinutes n) (tasks d)));
       case rows of
         None \<Rightarrow> State_Monad.return (Inl (DbError ''query stale in-progress tasks''))
       | Some staleIDs \<Rightarrow>
           if staleIDs = [] then State_Monad.return (Inr None) else do {
             expire_stale_loop timeoutMinutes staleIDs;
             State_Monad.return (Inr (Some staleIDs))
           }
     })"

subsection \<open>Artifacts\<close>

definition getArtifactsJSON :: "string \<Rightarrow> (world, repo_error + string) state" where
  "getArtifactsJSON i = do {
     row \<leftarrow> query (\<lambda>_. find_task i);
     State_Monad.return (case row of
       None \<Rightarrow> Inl (DbError ''get artifacts json'')
     | Some None \<Rightarrow> Inl (TaskNotFound i)
     | Some (Some r) \<Rightarrow> Inr (t_artifacts_json r))
   }"

definition SetArtifactsJSON :: "string \<Rightarrow> string \<Rightarrow> (world, repo_error + unit) state" where
  "SetArtifactsJSON i raw = do {
     res \<leftarrow> exec (sql_set_artifacts raw i);
     State_Monad.return (case res of None \<Rightarrow> Inl (DbError ''set artifacts'') | Some _ \<Rightarrow> Inr ())
   }"

definition decode_list :: "string \<Rightarrow> artifact slice option" where
  "decode_list raw = (if raw \<noteq> [] then unmarshal_artifacts raw else Some None)"

definition AddArtifact :: "string \<Rightarrow> artifact \<Rightarrow> (world, repo_error + unit) state" where
  "AddArtifact taskID a = do {
     r \<leftarrow> getArtifactsJSON taskID;
     case r of
       Inl e \<Rightarrow> State_Monad.return (Inl e)
     | Inr raw \<Rightarrow>
         (case decode_list raw of
           None \<Rightarrow> State_Monad.return (Inl (BadJSON ''unmarshal artifacts''))
         | Some l \<Rightarrow> SetArtifactsJSON taskID (marshal_artifacts (append_slice l a)))
   }"

definition RemoveArtifact :: "string \<Rightarrow> string \<Rightarrow> (world, repo_error + unit) state" where
  "RemoveArtifact taskID key = do {
     r \<leftarrow> getArtifactsJSON taskID;
     case r of
       Inl e \<Rightarrow> State_Monad.return (Inl e)
     | Inr raw \<Rightarrow>
         (case decode_list raw of
           None \<Rightarrow> State_Monad.return (Inl (BadJSON ''unmarshal artifacts''))
         | Some l \<Rightarrow> SetArtifactsJSON taskID
             (marshal_artifacts (built (filter (\<lambda>a. Key a \<noteq> key) (elems l)))))
   }"

definition GetArtifacts :: "string \<Rightarrow> (world, repo_error + artifact slice) state" where
  "GetArtifacts taskID = do {
     r \<leftarrow> getArtifactsJSON taskID;
     State_Monad.return (case r of
       Inl e \<Rightarrow> Inl e
     | Inr raw \<Rightarrow>
         if raw = [] \<or> raw = ''[]'' then Inr (Some [])
         else (case unmarshal_artifacts raw of
           None \<Rightarrow> Inl (BadJSON ''unmarshal artifacts'')
         | Some l \<Rightarrow> Inr l))
   }"

subsection \<open>Counts and the dependency graph\<close>

record task_counts =
  CPending :: int
  CClaimed :: int
  CInProgress :: int
  CBlocked :: int
  CCompleted :: int
  CFailed :: int
  CTotal :: int

definition zero_counts :: task_counts where
  "zero_counts = \<lparr>CPending = 0, CClaimed = 0, CInProgress = 0, CBlocked = 0, CCompleted = 0,
     CFailed = 0, CTotal = 0\<rparr>"

text \<open>\<^verbatim>\<open>SELECT status, COUNT(*) FROM tasks GROUP BY status\<close>: one row for each status that occurs.\<close>

definition group_counts :: "database \<Rightarrow> (string \<times> int) list" where
  "group_counts d = map (\<lambda>s. (s, int (count_where (\<lambda>r. t_status r = s) (tasks d))))
     (remdups (map t_status (tasks d)))"

definition set_count :: "task_counts \<Rightarrow> string \<times> int \<Rightarrow> task_counts" where
  "set_count c row = (case row of (status, cnt) \<Rightarrow>
     if status = st_pending then c\<lparr>CPending := cnt\<rparr>
     else if status = st_claimed then c\<lparr>CClaimed := cnt\<rparr>
     else if status = st_in_progress then c\<lparr>CInProgress := cnt\<rparr>
     else if status = st_blocked then c\<lparr>CBlocked := cnt\<rparr>
     else if status = st_completed then c\<lparr>CCompleted := cnt\<rparr>
     else if status = st_failed then c\<lparr>CFailed := cnt\<rparr>
     else c)"

definition total_counts :: "task_counts \<Rightarrow> task_counts" where
  "total_counts c = c\<lparr>CTotal := CPending c + CClaimed c + CInProgress c + CBlocked c
     + CCompleted c + CFailed c\<rparr>"

definition GetTaskCounts :: "(world, repo_error + task_counts) state" where
  "GetTaskCounts = do {
     rows \<leftarrow> query (\<lambda>_. group_counts);
     State_Monad.return (case rows of
       None \<Rightarrow> Inl (DbError ''get task counts'')
     | Some rs \<Rightarrow> Inr (total_counts (foldl set_count zero_counts rs)))
   }"

record task_graph =
  GTask :: task
  GParents :: "task slice"
  GChildren :: "task slice"

definition GetDependencyGraph :: "string \<Rightarrow> (world, repo_error + task_graph option) state" where
  "GetDependencyGraph taskID = do {
     r \<leftarrow> GetByID taskID;
     case r of
       Inl e \<Rightarrow> State_Monad.return (Inl e)
     | Inr None \<Rightarrow> State_Monad.return (Inr None)
     | Inr (Some t) \<Rightarrow> do {
         ps \<leftarrow> (if elems (Parents t) \<noteq> [] then do {
             p \<leftarrow> getTasksByIDs (elems (Parents t));
             State_Monad.return (case p of Inl e \<Rightarrow> Some [] | Inr parents \<Rightarrow> parents)
           } else State_Monad.return (Some []));
         rows \<leftarrow> query (\<lambda>_ d. map t_id (filter (parents_like taskID) (tasks d)));
         case rows of
           None \<Rightarrow> State_Monad.return (Inl (DbError ''query children''))
         | Some childIDs \<Rightarrow> do {
             cs \<leftarrow> (if childIDs \<noteq> [] then do {
                 c \<leftarrow> getTasksByIDs childIDs;
                 State_Monad.return (case c of Inl e \<Rightarrow> Some [] | Inr children \<Rightarrow> children)
               } else State_Monad.return (Some []));
             State_Monad.return (Inr (Some \<lparr>GTask = t, GParents = ps, GChildren = cs\<rparr>))
           }
       }
   }"

subsection \<open>Event readers\<close>

definition ListTaskEvents :: "string \<Rightarrow> (world, repo_error + task_event slice) state" where
  "ListTaskEvents taskID = ListByTask taskID"

definition ListTaskEventsSince :: "time option \<Rightarrow> string \<Rightarrow> int \<Rightarrow> int \<Rightarrow> bool \<Rightarrow>
    (world, repo_error + task_event slice) state" where
  "ListTaskEventsSince since ag limit afterID useID = ListSince since ag limit afterID useID"

subsection \<open>Every method is a sequence of the program's writes\<close>

lemma issues_logTaskEvent [steps_intros]: "issues u (logTaskEvent i e a x)"
  unfolding logTaskEvent_def by (intro steps_intros)

lemma issues_Create [steps_intros]:
  "Status t = [] \<or> Status t = st_pending \<Longrightarrow> RetryCount t = 0 \<Longrightarrow> issues u (Create t)"
  unfolding Create_def Let_def by (intro steps_intros) auto

lemma issues_readers [steps_intros]:
  "issues u (GetByID i)" "issues u (getTasksByIDs ids)" "issues u (AreParentsCompleted ids)"
  "issues u (List s a q)" "issues u (current_status i)" "issues u (getArtifactsJSON i)"
  "issues u (GetTaskCounts)" "issues u (ListTaskEvents i)"
  "issues u (ListTaskEventsSince n a l k b)"
  unfolding GetByID_def getTasksByIDs_def AreParentsCompleted_def List_def current_status_def
    getArtifactsJSON_def GetTaskCounts_def ListTaskEvents_def ListTaskEventsSince_def
  by (intro steps_intros)+

lemma issues_conflict [steps_intros]: "issues u (conflict_or_missing i m)"
  unfolding conflict_or_missing_def by (intro steps_intros)

lemma issues_GetPendingByAgent [steps_intros]: "issues u (GetPendingByAgent a)"
  unfolding GetPendingByAgent_def by (intro steps_intros)

lemma issues_UpdateStatus [steps_intros]: "issues True (UpdateStatus i st_in_progress)"
  unfolding UpdateStatus_def by (intro steps_intros)

lemma issues_ClaimTask [steps_intros]: "a \<noteq> [] \<Longrightarrow> issues u (ClaimTask i a)"
  unfolding ClaimTask_def by (intro steps_intros)

lemma issues_StartTask [steps_intros]: "issues u (StartTask i)"
  unfolding StartTask_def by (intro steps_intros)

lemma issues_BlockTask [steps_intros]: "issues u (BlockTask i)"
  unfolding BlockTask_def by (intro steps_intros)

lemma issues_CheckParentsCompleted [steps_intros]: "issues u (CheckParentsCompleted i)"
  unfolding CheckParentsCompleted_def by (intro steps_intros)

lemma issues_promote_loop [steps_intros]: "issues u (promote_loop i ids)"
proof (induction ids)
  case Nil
  then show ?case by (simp add: steps_intros)
next
  case (Cons c ids)
  then show ?case unfolding promote_loop.simps by (intro steps_intros)
qed

lemma issues_PromoteChildren [steps_intros]: "issues u (PromoteChildren i)"
  unfolding PromoteChildren_def by (intro steps_intros)

lemma issues_CompleteTask [steps_intros]: "issues u (CompleteTask i s)"
  unfolding CompleteTask_def by (intro steps_intros)

lemma issues_expire_pending_loop [steps_intros]: "issues u (expire_pending_loop m ids)"
proof (induction ids)
  case Nil
  then show ?case by (simp add: steps_intros)
next
  case (Cons c ids)
  then show ?case unfolding expire_pending_loop.simps by (intro steps_intros)
qed

lemma issues_ExpirePendingTasks [steps_intros]: "issues u (ExpirePendingTasks m)"
  unfolding ExpirePendingTasks_def by (intro steps_intros)

lemma issues_expire_stale_loop [steps_intros]: "issues u (expire_stale_loop m ids)"
proof (induction ids)
  case Nil
  then show ?case by (simp add: steps_intros)
next
  case (Cons c ids)
  then show ?case unfolding expire_stale_loop.simps by (intro steps_intros)
qed

lemma issues_ExpireStaleInProgressTasks [steps_intros]: "issues u (ExpireStaleInProgressTasks m)"
  unfolding ExpireStaleInProgressTasks_def by (intro steps_intros)

lemma issues_UpdateTaskHeartbeat [steps_intros]: "issues u (UpdateTaskHeartbeat i)"
  unfolding UpdateTaskHeartbeat_def by (intro steps_intros)

lemma issues_SetArtifactsJSON [steps_intros]: "issues u (SetArtifactsJSON i (marshal_artifacts l))"
  unfolding SetArtifactsJSON_def by (intro steps_intros)

lemma issues_AddArtifact [steps_intros]: "issues u (AddArtifact i a)"
  unfolding AddArtifact_def by (intro steps_intros)

lemma issues_RemoveArtifact [steps_intros]: "issues u (RemoveArtifact i k)"
  unfolding RemoveArtifact_def by (intro steps_intros)

lemma issues_GetArtifacts [steps_intros]: "issues u (GetArtifacts i)"
  unfolding GetArtifacts_def by (intro steps_intros)

lemma issues_GetDependencyGraph [steps_intros]: "issues u (GetDependencyGraph i)"
  unfolding GetDependencyGraph_def by (intro steps_intros)

subsection \<open>The two writes that depend on what was read before\<close>

lemma writes_bind:
  assumes "run_state m w = (x, w')" and "(db_write u)\<^sup>*\<^sup>* (db w) (db w')"
    and "(db_write u)\<^sup>*\<^sup>* (db w') (db (snd (run_state (f x) w')))"
  shows "(db_write u)\<^sup>*\<^sup>* (db w) (db (snd (run_state (State_Monad.bind m f) w)))"
  using assms by (simp add: exec_simps)

lemma writes_of_issues:
  "issues u m \<Longrightarrow> run_state m w = (x, w') \<Longrightarrow> wf_db (db w) \<Longrightarrow>
     (db_write u)\<^sup>*\<^sup>* (db w) (db w') \<and> wf_db (db w')"
  using issues_wf [of u m w] by (auto simp: issues_def)

lemma logTaskEvent_tasks [simp]:
  "tasks (db (snd (run_state (logTaskEvent i e a x) w))) = tasks (db w)"
  "gates (db (snd (run_state (logTaskEvent i e a x) w))) = gates (db w)"
  "agents (db (snd (run_state (logTaskEvent i e a x) w))) = agents (db w)"
proof -
  obtain r w' where e: "run_state (InsertEvent i e a x) w = (r, w')"
    by (cases "run_state (InsertEvent i e a x) w")
  from InsertEvent_frame [of i e a x w]
  show "tasks (db (snd (run_state (logTaskEvent i e a x) w))) = tasks (db w)"
    "gates (db (snd (run_state (logTaskEvent i e a x) w))) = gates (db w)"
    "agents (db (snd (run_state (logTaskEvent i e a x) w))) = agents (db w)"
    by (simp_all add: logTaskEvent_def exec_simps e)
qed

lemma GetByID_cases:
  assumes "run_state (GetByID i) w = (r, w')"
  shows "db w' = db w \<and> ((\<exists>e. r = Inl e) \<or>
    r = Inr (map_option scanTaskRow (find_task i (db w))))"
proof -
  obtain q w1 where q: "run_state (query (\<lambda>_. find_task i)) w = (q, w1)"
    by (cases "run_state (query (\<lambda>_. find_task i)) w")
  from query_cases [OF q] assms q show ?thesis
    by (auto simp: GetByID_def exec_simps split: option.splits)
qed

lemma scanTaskRow_sel [row_simps, simp]:
  "ID (scanTaskRow r) = t_id r" "Assignee (scanTaskRow r) = t_assignee r"
  "MaxRetries (scanTaskRow r) = t_max_retries r" "RetryCount (scanTaskRow r) = t_retry_count r"
  "Priority (scanTaskRow r) = t_priority r" "Summary (scanTaskRow r) = t_summary r"
  "Parents (scanTaskRow r) = unmarshal_or_nil (unmarshal_strings (t_parents r))"
  "RequiredSkills (scanTaskRow r) = unmarshal_or_nil (unmarshal_strings (t_required_skills r))"
  "Artifacts (scanTaskRow r) = unmarshal_or_nil (unmarshal_artifacts (t_artifacts_json r))"
  "t_status r \<noteq> [] \<Longrightarrow> Status (scanTaskRow r) = t_status r"
  by (simp_all add: scanTaskRow_def scan_columns_def Let_def)

lemma find_task_update:
  assumes "\<And>r. t_id (f r) = t_id r"
  shows "find_task j (snd (update_tasks P f d)) =
    map_option (\<lambda>r. if P r then f r else r) (find_task j d)"
  using assms by (simp add: find_task_def find_upd_where)

lemma count_task:
  "wf_db d \<Longrightarrow> count_where (\<lambda>r. t_id r = i \<and> Q r) (tasks d) =
     (case find_task i d of None \<Rightarrow> 0 | Some r \<Rightarrow> if Q r then 1 else 0)"
  unfolding find_task_def by (rule count_where_key) (simp add: wf_db_def)

lemma count_task_id:
  "wf_db d \<Longrightarrow> count_where (\<lambda>r. t_id r = i) (tasks d) =
     (case find_task i d of None \<Rightarrow> 0 | Some r \<Rightarrow> 1)"
  using count_task [of d i "\<lambda>_. True"] by simp

lemma find_task_tasks: "tasks d = tasks d' \<Longrightarrow> find_task i d = find_task i d'"
  by (simp add: find_task_def)

lemma fail_retry_writes:
  assumes wf: "wf_db (db w)" and failed: "\<And>r. find_task i (db w) = Some r \<Longrightarrow> t_status r = st_failed"
    and kf: "\<And>e. issues u (k (Inl e))" "issues u (k (Inr None))"
    and ks: "\<And>t. k (Inr (Some t)) =
      (if 0 < MaxRetries t \<and> RetryCount t < MaxRetries t then State_Monad.bind (exec (sql_retry i)) (h t)
       else State_Monad.return (g t))"
    and h: "\<And>t x. issues u (h t x)"
  shows "(db_write u)\<^sup>*\<^sup>* (db w) (db (snd (run_state (State_Monad.bind (GetByID i) k) w)))"
proof -
  obtain r w1 where g: "run_state (GetByID i) w = (r, w1)" by (cases "run_state (GetByID i) w")
  from GetByID_cases [OF g] have d: "db w1 = db w" by simp
  have "(db_write u)\<^sup>*\<^sup>* (db w1) (db (snd (run_state (k r) w1)))"
  proof (cases "\<exists>t. r = Inr (Some t) \<and> 0 < MaxRetries t \<and> RetryCount t < MaxRetries t")
    case False
    then have "issues u (k r)"
      by (cases r; cases "projr r") (auto simp: kf ks issues_return)
    moreover have "wf_db (db w1)" using wf d by simp
    ultimately show ?thesis unfolding issues_def by blast
  next
    case True
    then obtain t where t: "r = Inr (Some t)" "0 < MaxRetries t" "RetryCount t < MaxRetries t"
      by blast
    from GetByID_cases [OF g] t obtain row where row: "find_task i (db w) = Some row"
      "t = scanTaskRow row" by (cases "find_task i (db w)") auto
    obtain x w2 where e: "run_state (exec (sql_retry i)) w1 = (x, w2)"
      by (cases "run_state (exec (sql_retry i)) w1")
    have "db_write u (db w1) (snd (sql_retry i (now w1) (db w1)))"
      using row t d failed by (intro db_write.retry [of i _ row]) auto
    with exec_cases [OF e] have s: "(db_write u)\<^sup>*\<^sup>* (db w1) (db w2)" by auto
    with wf d have "wf_db (db w2)" using db_writes_wf by metis
    then have "(db_write u)\<^sup>*\<^sup>* (db w2) (db (snd (run_state (h t x) w2)))"
      using h by (auto simp: issues_def)
    with s e t show ?thesis by (simp add: ks writes_bind)
  qed
  then show ?thesis using d by (intro writes_bind [OF g]) auto
qed


lemma find_task_failed:
  assumes "fst (sql_fail x i n d) \<noteq> Some 0" and "wf_db d"
    and "find_task i (snd (sql_fail x i n d)) = Some r"
  shows "t_status r = st_failed"
  using assms unfolding sql_fail_def
  by (subst (asm) find_task_update)
    (auto simp: count_task split: option.splits if_splits dest: find_task_Some)

lemma issues_FailTask [steps_intros]: "issues u (FailTask i x)"
  unfolding issues_def
proof (intro allI impI)
  fix w :: world
  assume wf: "wf_db (db w)"
  obtain q w1 where e: "run_state (exec (sql_fail x i)) w = (q, w1)"
    by (cases "run_state (exec (sql_fail x i)) w")
  have 1: "(db_write u)\<^sup>*\<^sup>* (db w) (db w1)" "wf_db (db w1)"
    using writes_of_issues [OF issues_exec e wf] db_write.fail by auto
  show "(db_write u)\<^sup>*\<^sup>* (db w) (db (snd (run_state (FailTask i x) w)))"
  proof (cases "q = None \<or> q = Some 0")
    case True
    then show ?thesis
      using issues_conflict [of u i "''task is not in in_progress status''"] 1 unfolding FailTask_def
      by (intro writes_bind [OF e]) (auto simp: issues_def exec_simps)
  next
    case False
    then obtain n where q: "q = Some n" "n \<noteq> 0" by (cases q) auto
    with exec_cases [OF e] have f: "q = fst (sql_fail x i (now w) (db w))"
      "db w1 = snd (sql_fail x i (now w) (db w))" by auto
    obtain y w2 where l: "run_state (logTaskEvent i ''FailTask'' [] x) w1 = (y, w2)"
      by (cases "run_state (logTaskEvent i ''FailTask'' [] x) w1")
    have 2: "(db_write u)\<^sup>*\<^sup>* (db w1) (db w2)" "wf_db (db w2)"
      using writes_of_issues [OF issues_logTaskEvent l 1(2)] by auto
    have t: "tasks (db w2) = tasks (db w1)"
      using logTaskEvent_tasks(1) [of i "''FailTask''" "[]" x w1] l by simp
    have failed: "t_status r = st_failed" if "find_task i (db w2) = Some r" for r
    proof (rule find_task_failed [OF _ wf])
      show "fst (sql_fail x i (now w) (db w)) \<noteq> Some 0" using f q by (metis option.inject)
      show "find_task i (snd (sql_fail x i (now w) (db w))) = Some r"
        using that f find_task_tasks [OF t] by simp
    qed
    show ?thesis
      unfolding FailTask_def
      apply (rule writes_bind [OF e 1(1)])
      apply (simp only: q option.case if_False)
      apply (rule writes_bind [OF l 2(1)])
      apply (rule fail_retry_writes [OF 2(2) failed])
          apply assumption
         apply (simp only: sum.case option.case; intro steps_intros)
        apply (simp only: sum.case option.case; intro steps_intros)
       apply (simp only: sum.case option.case)
      apply (intro steps_intros)
      done
  qed
qed

definition active_ids :: "database \<Rightarrow> string list \<Rightarrow> bool" where
  "active_ids d ids \<longleftrightarrow> distinct ids \<and> (\<forall>i \<in> set ids. \<exists>r. find_task i d = Some r \<and>
     (t_status r = st_claimed \<or> t_status r = st_in_progress))"

lemma active_ids_tl: "active_ids d (i # ids) \<Longrightarrow> active_ids d ids"
  by (simp add: active_ids_def)

lemma active_ids_tasks: "tasks d = tasks d' \<Longrightarrow> active_ids d ids = active_ids d' ids"
  by (simp add: active_ids_def find_task_def)

lemma active_ids_release:
  assumes "active_ids d (i # ids)"
  shows "active_ids (snd (sql_release i n d)) ids"
proof -
  have "find_task j (snd (sql_release i n d)) = find_task j d" if "j \<noteq> i" for j
  proof -
    have "map_option (\<lambda>r. if t_id r = i then f r else r) (find_task j d) = find_task j d" for f
      using that find_task_Some [of j d] by (cases "find_task j d") auto
    then show ?thesis unfolding sql_release_def by (subst find_task_update) auto
  qed
  with assms show ?thesis unfolding active_ids_def
    by (metis distinct.simps(2) list.set_intros(2))
qed

lemma release_loop_writes:
  "wf_db (db w) \<Longrightarrow> active_ids (db w) ids \<Longrightarrow>
     (db_write u)\<^sup>*\<^sup>* (db w) (db (snd (run_state (release_loop ag ids) w)))"
proof (induction ids arbitrary: w)
  case Nil
  then show ?case by (simp add: exec_simps)
next
  case (Cons i ids)
  obtain q w1 where e: "run_state (exec (sql_release i)) w = (q, w1)"
    by (cases "run_state (exec (sql_release i)) w")
  from Cons.prems obtain r where r: "find_task i (db w) = Some r"
    "t_status r = st_claimed \<or> t_status r = st_in_progress" by (auto simp: active_ids_def)
  from db_write.release [OF r] have wr: "db_write u (db w) (snd (sql_release i (now w) (db w)))" .
  with exec_cases [OF e] have 1: "(db_write u)\<^sup>*\<^sup>* (db w) (db w1)" by auto
  then have wf1: "wf_db (db w1)" using Cons.prems db_writes_wf by blast
  have a1: "active_ids (db w1) ids"
    using exec_cases [OF e] Cons.prems active_ids_tl active_ids_release by metis
  obtain y w2 where l: "run_state (logTaskEvent i ''StaleAgentRelease'' []
      (''released from stale agent '' @ ag)) w1 = (y, w2)"
    by (cases "run_state (logTaskEvent i ''StaleAgentRelease'' []
      (''released from stale agent '' @ ag)) w1")
  have 2: "(db_write u)\<^sup>*\<^sup>* (db w1) (db w2)" "wf_db (db w2)"
    using writes_of_issues [OF issues_logTaskEvent l wf1] by auto
  have "tasks (db w2) = tasks (db w1)"
    using logTaskEvent_tasks(1) [of i _ _ _ w1] l by (metis snd_conv)
  with a1 have a2: "active_ids (db w2) ids" using active_ids_tasks by metis
  show ?case
  proof (cases q)
    case None
    with Cons.IH [OF wf1 a1] show ?thesis
      unfolding release_loop.simps by (intro writes_bind [OF e 1]) simp
  next
    case (Some n)
    with writes_bind [OF l 2(1) Cons.IH [OF 2(2) a2]] show ?thesis
      unfolding release_loop.simps by (intro writes_bind [OF e 1]) simp
  qed
qed

lemma active_ids_selected:
  assumes "wf_db d"
  shows "active_ids d (map t_id (filter (active_task_of ag) (tasks d)))"
proof -
  have "distinct (map t_id (filter (active_task_of ag) (tasks d)))"
    using assms by (simp add: wf_db_def distinct_map_filter)
  then show ?thesis
    using find_task_mem [OF assms] by (fastforce simp: active_ids_def active_task_of_def)
qed

lemma issues_ReleaseAgentTasks [steps_intros]: "issues u (ReleaseAgentTasks ag)"
  unfolding issues_def
proof (intro allI impI)
  fix w :: world
  assume wf: "wf_db (db w)"
  let ?q = "\<lambda>_ d. map t_id (filter (active_task_of ag) (tasks d))"
  obtain q w1 where e: "run_state (query ?q) w = (q, w1)" by (cases "run_state (query ?q) w")
  from query_cases [OF e] have d: "db w1 = db w"
    "q = None \<or> q = Some (map t_id (filter (active_task_of ag) (tasks (db w))))" by auto
  have "(db_write u)\<^sup>*\<^sup>* (db w1) (db (snd (run_state (release_loop ag ids) w1)))"
    if "q = Some ids" for ids
    using that d wf active_ids_selected by (intro release_loop_writes) auto
  then show "(db_write u)\<^sup>*\<^sup>* (db w) (db (snd (run_state (ReleaseAgentTasks ag) w)))"
    unfolding ReleaseAgentTasks_def using d(1)
    by (intro writes_bind [OF e]) (auto simp: exec_simps split: option.split prod.split)
qed

end
