(* ===== verification/GateRepo.thy ===== *)
theory GateRepo
  imports Statements
begin

text \<open>
  \<^verbatim>\<open>internal/db/gate_repo.go\<close>: the repository of the gates, questions that block a task
  until a human has answered. A gate goes from pending to asked to answered to resolved, each
  step an \<^verbatim>\<open>UPDATE\<close> guarded by the status before it.
\<close>

definition CreateGate :: "gate \<Rightarrow> (world, repo_error + unit) state" where
  "CreateGate g = (let g = (if GateStatus g = [] then g\<lparr>GateStatus := st_pending\<rparr> else g) in do {
     r \<leftarrow> exec (sql_insert_gate g);
     State_Monad.return (case r of None \<Rightarrow> Inl (DbError ''insert gate'') | Some _ \<Rightarrow> Inr ())
   })"

definition scan_gate :: "gate_row \<Rightarrow> gate" where
  "scan_gate r = \<lparr>GateID = g_id r, GateTask = g_task r, GateQuestion = g_question r,
     GateAsk = g_ask r, GateStatus = g_status r, GateAnswer = g_answer r,
     GateCreatedAt = g_created_at r, GateAnsweredAt = g_answered_at r\<rparr>"

definition GetByTaskID :: "string \<Rightarrow> (world, repo_error + gate slice) state" where
  "GetByTaskID taskID = do {
     rows \<leftarrow> query (\<lambda>_ d. filter (\<lambda>r. g_task r = taskID) (gates d));
     State_Monad.return (case rows of
       None \<Rightarrow> Inl (DbError ''get gates by task'')
     | Some rs \<Rightarrow> Inr (built (map scan_gate rs)))
   }"

definition AnswerGate :: "string \<Rightarrow> string \<Rightarrow> (world, repo_error + unit) state" where
  "AnswerGate gateID answer = do {
     res \<leftarrow> exec (sql_answer_gate answer gateID);
     State_Monad.return (case res of
       None \<Rightarrow> Inl (DbError ''answer gate'')
     | Some n \<Rightarrow> if n = 0 then Inl (GateNotIn gateID st_asked) else Inr ())
   }"

definition GetGateByID :: "string \<Rightarrow> (world, repo_error + gate option) state" where
  "GetGateByID gateID = do {
     row \<leftarrow> query (\<lambda>_. find_gate gateID);
     State_Monad.return (case row of
       None \<Rightarrow> Inl (DbError ''get gate by id'')
     | Some None \<Rightarrow> Inr None
     | Some (Some r) \<Rightarrow> Inr (Some (scan_gate r)))
   }"

definition AskGate :: "string \<Rightarrow> string \<Rightarrow> (world, repo_error + unit) state" where
  "AskGate gateID answer = do {
     res \<leftarrow> exec (sql_ask_gate answer gateID);
     State_Monad.return (case res of
       None \<Rightarrow> Inl (DbError ''ask gate'')
     | Some n \<Rightarrow> if n = 0 then Inl (GateNotIn gateID st_pending) else Inr ())
   }"

definition ResolveGate :: "string \<Rightarrow> (world, repo_error + unit) state" where
  "ResolveGate gateID = do {
     res \<leftarrow> exec (sql_resolve_gate gateID);
     State_Monad.return (case res of
       None \<Rightarrow> Inl (DbError ''resolve gate'')
     | Some n \<Rightarrow> if n = 0 then Inl (GateNotIn gateID st_answered) else Inr ())
   }"

subsection \<open>Writes\<close>

lemma issues_CreateGate [steps_intros]:
  "GateStatus g = [] \<or> GateStatus g = st_pending \<Longrightarrow> issues u (CreateGate g)"
  unfolding CreateGate_def Let_def by (intro steps_intros) auto

lemma issues_gate_repo [steps_intros]:
  "issues u (GetByTaskID i)" "issues u (AnswerGate i a)" "issues u (GetGateByID i)"
  "issues u (AskGate i a)" "issues u (ResolveGate i)"
  unfolding GetByTaskID_def AnswerGate_def GetGateByID_def AskGate_def ResolveGate_def
  by (intro steps_intros)+

lemma GetGateByID_cases:
  assumes "run_state (GetGateByID i) w = (r, w')"
  shows "db w' = db w \<and> ((\<exists>e. r = Inl e) \<or> r = Inr (map_option scan_gate (find_gate i (db w))))"
proof -
  obtain q w1 where q: "run_state (query (\<lambda>_. find_gate i)) w = (q, w1)"
    by (cases "run_state (query (\<lambda>_. find_gate i)) w")
  from query_cases [OF q] assms q show ?thesis
    by (auto simp: GetGateByID_def exec_simps split: option.splits)
qed

subsection \<open>What the updates do to one gate\<close>

lemma find_gate_update:
  assumes "\<And>r. g_id (f r) = g_id r"
  shows "find_gate j (snd (update_gates P f d)) =
    map_option (\<lambda>r. if P r then f r else r) (find_gate j d)"
  using assms by (simp add: find_gate_def find_upd_where)

lemma count_gate:
  "wf_db d \<Longrightarrow> count_where (\<lambda>r. g_id r = i \<and> Q r) (gates d) =
     (case find_gate i d of None \<Rightarrow> 0 | Some r \<Rightarrow> if Q r then 1 else 0)"
  unfolding find_gate_def by (rule count_where_key) (simp add: wf_db_def)

end
