(* ===== verification/Threads.thy ===== *)
theory Threads
  imports TaskRepo GateRepo
begin

text \<open>
  The methods of the task and gate repositories that write, statement by statement: a \<open>prog\<close> is what a goroutine still has to do, the next statement and what follows
  its reply. \<open>run_prog\<close> runs one without interruption, and \<open>prog_methods\<close> shows that this is the
  method of \<open>TaskRepo\<close>; \<open>Interleavings\<close> lets the statements of many of them alternate.
\<close>

datatype reply = Rows nat | Done | TaskRow "task_row option" | Ids "string list"

datatype 'a prog = Ret 'a | Stmt "reply sql" "reply option \<Rightarrow> 'a prog"

primrec run_prog :: "'a prog \<Rightarrow> (world, 'a) state" where
  "run_prog (Ret x) = State_Monad.return x"
| "run_prog (Stmt s k) = State_Monad.bind (exec s) (\<lambda>r. run_prog (k r))"

subsection \<open>Statements\<close>

definition upd :: "nat sql \<Rightarrow> (nat option \<Rightarrow> 'a prog) \<Rightarrow> 'a prog" where
  "upd s k = Stmt (\<lambda>n d. map_prod (map_option Rows) id (s n d))
     (\<lambda>r. k (case r of Some (Rows m) \<Rightarrow> Some m | _ \<Rightarrow> None))"

definition ins :: "unit sql \<Rightarrow> (unit option \<Rightarrow> 'a prog) \<Rightarrow> 'a prog" where
  "ins s k = Stmt (\<lambda>n d. map_prod (map_option (\<lambda>_. Done)) id (s n d))
     (\<lambda>r. k (case r of Some Done \<Rightarrow> Some () | _ \<Rightarrow> None))"

definition row :: "string \<Rightarrow> (task_row option option \<Rightarrow> 'a prog) \<Rightarrow> 'a prog" where
  "row i k = Stmt (\<lambda>n d. (Some (TaskRow (find_task i d)), d))
     (\<lambda>r. k (case r of Some (TaskRow x) \<Rightarrow> Some x | _ \<Rightarrow> None))"

definition ids :: "(time \<Rightarrow> database \<Rightarrow> string list) \<Rightarrow> (string list option \<Rightarrow> 'a prog) \<Rightarrow> 'a prog" where
  "ids q k = Stmt (\<lambda>n d. (Some (Ids (q n d)), d))
     (\<lambda>r. k (case r of Some (Ids x) \<Rightarrow> Some x | _ \<Rightarrow> None))"

definition cnt :: "(database \<Rightarrow> nat) \<Rightarrow> (nat option \<Rightarrow> 'a prog) \<Rightarrow> 'a prog" where
  "cnt q k = Stmt (\<lambda>n d. (Some (Rows (q d)), d))
     (\<lambda>r. k (case r of Some (Rows m) \<Rightarrow> Some m | _ \<Rightarrow> None))"

lemma exec_map:
  "exec (\<lambda>n d. map_prod (map_option f) id (s n d)) =
     State_Monad.bind (exec s) (\<lambda>r. State_Monad.return (map_option f r))"
  by (rule state.expand, rule ext)
    (simp add: exec_def State_Monad.bind_def State_Monad.return_def split: list.split prod.split)

lemma query_map:
  "exec (\<lambda>n d. (Some (f (q n d)), d)) = State_Monad.bind (query q) (\<lambda>r. State_Monad.return (map_option f r))"
  using exec_map [of f "\<lambda>n d. (Some (q n d), d)"] by (simp add: query_def)

lemma run_stmts [simp]:
  "run_prog (upd s k) = State_Monad.bind (exec s) (\<lambda>r. run_prog (k r))"
  "run_prog (ins s' k') = State_Monad.bind (exec s') (\<lambda>r. run_prog (k' r))"
  "run_prog (row i l) = State_Monad.bind (query (\<lambda>_. find_task i)) (\<lambda>r. run_prog (l r))"
  "run_prog (ids q l') = State_Monad.bind (query q) (\<lambda>r. run_prog (l' r))"
  "run_prog (cnt q' k) = State_Monad.bind (query (\<lambda>_. q')) (\<lambda>r. run_prog (k r))"
  by (simp_all add: upd_def ins_def row_def ids_def cnt_def exec_map query_map
      query_map [of TaskRow "\<lambda>n. find_task i" for i] query_map [of Rows "\<lambda>n. q'"])
    (auto intro!: arg_cong [where f = "State_Monad.bind _"] split: option.split)

subsection \<open>The methods\<close>

definition get_by_id :: "string \<Rightarrow> (repo_error + task option \<Rightarrow> 'a prog) \<Rightarrow> 'a prog" where
  "get_by_id i k = row i (\<lambda>r. k (case r of
       None \<Rightarrow> Inl (DbError ''scan task'')
     | Some None \<Rightarrow> Inr None
     | Some (Some x) \<Rightarrow> Inr (Some (scanTaskRow x))))"

definition log_then :: "string \<Rightarrow> string \<Rightarrow> string \<Rightarrow> string \<Rightarrow> 'a prog \<Rightarrow> 'a prog" where
  "log_then i ev ag detail p = ins (sql_insert_event i ev ag detail) (\<lambda>_. p)"

definition conflict_prog :: "string \<Rightarrow> string \<Rightarrow> (repo_error + 'a) prog" where
  "conflict_prog i msg = row i (\<lambda>r.
     let current = (case r of Some (Some x) \<Rightarrow> t_status x | _ \<Rightarrow> []) in
     Ret (Inl (if current = [] then TaskNotFound i else ConflictError current msg)))"

definition claim_prog :: "string \<Rightarrow> string \<Rightarrow> (repo_error + task option) prog" where
  "claim_prog i assignee = upd (sql_claim assignee i) (\<lambda>res. case res of
       None \<Rightarrow> Ret (Inl (DbError ''claim task''))
     | Some n \<Rightarrow> if n = 0 then conflict_prog i ''task is not in pending status''
         else log_then i ''ClaimTask'' assignee [] (get_by_id i Ret))"

definition start_prog :: "string \<Rightarrow> (repo_error + task option) prog" where
  "start_prog i = upd (sql_start i) (\<lambda>res. case res of
       None \<Rightarrow> Ret (Inl (DbError ''start task''))
     | Some n \<Rightarrow> if n = 0 then conflict_prog i ''task is not in claimed status''
         else log_then i ''StartTask'' [] [] (get_by_id i Ret))"

definition block_prog :: "string \<Rightarrow> (repo_error + task option) prog" where
  "block_prog i = upd (sql_block i) (\<lambda>res. case res of
       None \<Rightarrow> Ret (Inl (DbError ''block task''))
     | Some n \<Rightarrow> if n = 0 then row i (\<lambda>r. Ret (Inl (ConflictError
             (case r of Some (Some x) \<Rightarrow> t_status x | _ \<Rightarrow> [])
             ''task is not in in_progress or claimed status'')))
         else log_then i ''BlockTask'' [] [] (get_by_id i Ret))"

definition unblock_prog :: "string \<Rightarrow> (repo_error + unit) prog" where
  "unblock_prog i = upd (sql_update_status st_in_progress i) (\<lambda>res. case res of
       None \<Rightarrow> Ret (Inl (DbError ''update status''))
     | Some n \<Rightarrow> if n = 0 then Ret (Inl (TaskNotFound i))
         else log_then i ''UpdateStatus'' [] [] (Ret (Inr ())))"

definition check_parents_prog :: "string \<Rightarrow> (repo_error + bool \<Rightarrow> 'a prog) \<Rightarrow> 'a prog" where
  "check_parents_prog i k = get_by_id i (\<lambda>r. case r of
       Inl e \<Rightarrow> k (Inl (DbError ''get task for parent check''))
     | Inr None \<Rightarrow> k (Inl (TaskNotFound i))
     | Inr (Some t) \<Rightarrow> let parentIDs = elems (Parents t) in
         if parentIDs = [] then k (Inr True)
         else cnt (\<lambda>d. count_where (\<lambda>r. t_id r \<in> set parentIDs \<and> t_status r = st_completed) (tasks d))
           (\<lambda>count. k (case count of
              None \<Rightarrow> Inl (DbError ''check parents'')
            | Some n \<Rightarrow> Inr (n = length parentIDs))))"

fun promote_prog :: "string \<Rightarrow> string list \<Rightarrow> 'a prog \<Rightarrow> 'a prog" where
  "promote_prog i [] p = p"
| "promote_prog i (c # cs) p = check_parents_prog c (\<lambda>r. case r of
       Inl e \<Rightarrow> promote_prog i cs p
     | Inr allDone \<Rightarrow> if allDone
         then log_then c ''ParentsCompleted'' [] (''parent '' @ i @ '' completed'') (promote_prog i cs p)
         else promote_prog i cs p)"

definition complete_prog :: "string \<Rightarrow> string \<Rightarrow> (repo_error + task option) prog" where
  "complete_prog i summary = upd (sql_complete summary i) (\<lambda>res. case res of
       None \<Rightarrow> Ret (Inl (DbError ''complete task''))
     | Some n \<Rightarrow> if n = 0 then conflict_prog i ''task is not in in_progress status''
         else log_then i ''CompleteTask'' [] summary (get_by_id i (\<lambda>r. case r of
             Inl e \<Rightarrow> Ret (Inl (DbError ''get task after complete''))
           | Inr completed \<Rightarrow> ids (\<lambda>_ d. map t_id (filter (\<lambda>r. parents_like i r \<and> t_status r = st_pending) (tasks d)))
               (\<lambda>rows. case rows of
                  None \<Rightarrow> Ret (Inr completed)
                | Some childIDs \<Rightarrow> promote_prog i childIDs (Ret (Inr completed))))))"

definition fail_prog :: "string \<Rightarrow> string \<Rightarrow> (repo_error + fail_result) prog" where
  "fail_prog i reason = upd (sql_fail reason i) (\<lambda>res. case res of
       None \<Rightarrow> Ret (Inl (DbError ''fail task''))
     | Some n \<Rightarrow> if n = 0 then conflict_prog i ''task is not in in_progress status''
         else log_then i ''FailTask'' [] reason (get_by_id i (\<lambda>r. case r of
             Inl e \<Rightarrow> Ret (Inl (DbError ''get task after fail''))
           | Inr None \<Rightarrow> Ret (Inl NilDeref)
           | Inr (Some t) \<Rightarrow>
               if 0 < MaxRetries t \<and> RetryCount t < MaxRetries t
               then upd (sql_retry i) (\<lambda>res'. case res' of
                   None \<Rightarrow> Ret (Inl (DbError ''fail task retry''))
                 | Some _ \<Rightarrow> log_then i ''TaskRetry'' [] (retry_detail t reason) (get_by_id i (\<lambda>r'. case r' of
                       Inl e \<Rightarrow> Ret (Inl (DbError ''get task after retry''))
                     | Inr None \<Rightarrow> Ret (Inl NilDeref)
                     | Inr (Some t') \<Rightarrow> Ret (Inr \<lparr>FTask = Some t', DidRetry = True,
                         Attempt = RetryCount t', MaxRetry = MaxRetries t\<rparr>))))
               else Ret (Inr \<lparr>FTask = Some t, DidRetry = False, Attempt = 0, MaxRetry = MaxRetries t\<rparr>))))"

text \<open>The loops of the timeouts: one guarded or unguarded statement per task that was selected.\<close>

fun each_prog :: "(string \<Rightarrow> nat sql) \<Rightarrow> string \<Rightarrow> string \<Rightarrow> string list \<Rightarrow> 'a prog \<Rightarrow> 'a prog" where
  "each_prog stmt ev detail [] p = p"
| "each_prog stmt ev detail (i # rest) p = upd (stmt i) (\<lambda>res. case res of
       None \<Rightarrow> each_prog stmt ev detail rest p
     | Some _ \<Rightarrow> log_then i ev [] detail (each_prog stmt ev detail rest p))"

definition pending_detail :: "int \<Rightarrow> string" where
  "pending_detail m = ''Task expired after '' @ dec_int m @ '' minutes in pending status''"

definition stale_detail :: "int \<Rightarrow> string" where
  "stale_detail m = ''Task expired after '' @ dec_int m @ '' minutes without heartbeat''"

definition release_detail :: "string \<Rightarrow> string" where
  "release_detail agentName = ''released from stale agent '' @ agentName"

definition expire_pending_prog :: "int \<Rightarrow> (repo_error + string slice) prog" where
  "expire_pending_prog m = (if m \<le> 0 then Ret (Inl (InvalidTimeout m)) else
     ids (\<lambda>n d. map t_id (filter (pending_expired m n) (tasks d))) (\<lambda>rows. case rows of
         None \<Rightarrow> Ret (Inl (DbError ''query pending expired tasks''))
       | Some expired \<Rightarrow> if expired = [] then Ret (Inr None) else
           each_prog sql_expire_pending ''PendingTimeout''
             (pending_detail m) expired
             (Ret (Inr (Some expired)))))"

definition expire_stale_prog :: "int \<Rightarrow> (repo_error + string slice) prog" where
  "expire_stale_prog m = (if m \<le> 0 then Ret (Inr None) else
     ids (\<lambda>n d. map t_id (filter (stale_in_progress m n) (tasks d))) (\<lambda>rows. case rows of
         None \<Rightarrow> Ret (Inl (DbError ''query stale in-progress tasks''))
       | Some stale \<Rightarrow> if stale = [] then Ret (Inr None) else
           each_prog (sql_expire_stale (stale_summary m)) ''TaskHeartbeatTimeout''
             (stale_detail m) stale
             (Ret (Inr (Some stale)))))"

definition release_prog :: "string \<Rightarrow> (repo_error + string slice) prog" where
  "release_prog agentName = ids (\<lambda>_ d. map t_id (filter (active_task_of agentName) (tasks d))) (\<lambda>rows. case rows of
       None \<Rightarrow> Ret (Inl (DbError ''query agent tasks''))
     | Some released \<Rightarrow> each_prog sql_release ''StaleAgentRelease'' (release_detail agentName)
         released (Ret (Inr (built released))))"

text \<open>The artifact list is read, changed and written back by two statements.\<close>

definition artifacts_prog :: "(artifact slice \<Rightarrow> artifact slice) \<Rightarrow> string \<Rightarrow> (repo_error + unit) prog" where
  "artifacts_prog change i = row i (\<lambda>r. case r of
       None \<Rightarrow> Ret (Inl (DbError ''get artifacts json''))
     | Some None \<Rightarrow> Ret (Inl (TaskNotFound i))
     | Some (Some x) \<Rightarrow> (case decode_list (t_artifacts_json x) of
           None \<Rightarrow> Ret (Inl (BadJSON ''unmarshal artifacts''))
         | Some l \<Rightarrow> upd (sql_set_artifacts (marshal_artifacts (change l)) i) (\<lambda>res.
             Ret (case res of None \<Rightarrow> Inl (DbError ''set artifacts'') | Some _ \<Rightarrow> Inr ()))))"

definition add_prog :: "string \<Rightarrow> artifact \<Rightarrow> (repo_error + unit) prog" where
  "add_prog i a = artifacts_prog (\<lambda>l. append_slice l a) i"

definition remove_prog :: "string \<Rightarrow> string \<Rightarrow> (repo_error + unit) prog" where
  "remove_prog i key = artifacts_prog (\<lambda>l. built (filter (\<lambda>a. Key a \<noteq> key) (elems l))) i"

text \<open>The methods of one statement.\<close>

definition create_prog :: "task \<Rightarrow> (repo_error + unit) prog" where
  "create_prog t = (let t = (if Status t = [] then t\<lparr>Status := st_pending\<rparr> else t) in
     ins (sql_insert_task t) (\<lambda>r. case r of
         None \<Rightarrow> Ret (Inl (DbError ''insert task''))
       | Some _ \<Rightarrow> log_then (ID t) ''CreateTask'' (Assignee t) [] (Ret (Inr ()))))"

definition heartbeat_prog :: "string \<Rightarrow> (repo_error + unit) prog" where
  "heartbeat_prog i = upd (sql_task_heartbeat i) (\<lambda>res. Ret (case res of
       None \<Rightarrow> Inl (DbError ''update task heartbeat'')
     | Some n \<Rightarrow> if n = 0 then Inl (TaskNotFound i) else Inr ()))"

definition create_gate_prog :: "gate \<Rightarrow> (repo_error + unit) prog" where
  "create_gate_prog g = (let g = (if GateStatus g = [] then g\<lparr>GateStatus := st_pending\<rparr> else g) in
     ins (sql_insert_gate g) (\<lambda>r. Ret (case r of None \<Rightarrow> Inl (DbError ''insert gate'') | Some _ \<Rightarrow> Inr ())))"

definition gate_prog :: "string \<Rightarrow> (string \<Rightarrow> nat sql) \<Rightarrow> string \<Rightarrow> string \<Rightarrow> (repo_error + unit) prog" where
  "gate_prog err stmt old gateID = upd (stmt gateID) (\<lambda>res. Ret (case res of
       None \<Rightarrow> Inl (DbError err)
     | Some n \<Rightarrow> if n = 0 then Inl (GateNotIn gateID old) else Inr ()))"

definition ask_prog :: "string \<Rightarrow> string \<Rightarrow> (repo_error + unit) prog" where
  "ask_prog gateID a = gate_prog ''ask gate'' (sql_ask_gate a) st_pending gateID"

definition answer_prog :: "string \<Rightarrow> string \<Rightarrow> (repo_error + unit) prog" where
  "answer_prog gateID a = gate_prog ''answer gate'' (sql_answer_gate a) st_asked gateID"

definition resolve_prog :: "string \<Rightarrow> (repo_error + unit) prog" where
  "resolve_prog gateID = gate_prog ''resolve gate'' sql_resolve_gate st_answered gateID"

subsection \<open>Run alone, they are the methods\<close>

lemma run_cases [simp]:
  "run_prog (case r of None \<Rightarrow> p | Some x \<Rightarrow> f x) = (case r of None \<Rightarrow> run_prog p | Some x \<Rightarrow> run_prog (f x))"
  "run_prog (case z of Inl e \<Rightarrow> g e | Inr y \<Rightarrow> h y) = (case z of Inl e \<Rightarrow> run_prog (g e) | Inr y \<Rightarrow> run_prog (h y))"
  "run_prog (if b then p else q) = (if b then run_prog p else run_prog q)"
  by (simp_all split: option.split sum.split)

lemma run_get_by_id [simp]: "run_prog (get_by_id i k) = State_Monad.bind (GetByID i) (\<lambda>r. run_prog (k r))"
  by (simp add: get_by_id_def GetByID_def)

lemma run_log_then [simp]:
  "run_prog (log_then i ev ag x p) = State_Monad.bind (logTaskEvent i ev ag x) (\<lambda>_. run_prog p)"
  by (simp add: log_then_def logTaskEvent_def InsertEvent_def)

lemma run_conflict_prog [simp]: "run_prog (conflict_prog i msg) = conflict_or_missing i msg"
  by (simp add: conflict_prog_def conflict_or_missing_def current_status_def Let_def)

lemma prog_transitions:
  "run_prog (claim_prog i a) = ClaimTask i a" "run_prog (start_prog i) = StartTask i"
  "run_prog (block_prog i) = BlockTask i" "run_prog (unblock_prog i) = UpdateStatus i st_in_progress"
  by (simp_all add: claim_prog_def ClaimTask_def start_prog_def StartTask_def block_prog_def BlockTask_def
      current_status_def unblock_prog_def UpdateStatus_def cong: option.case_cong if_cong)

lemma run_check_parents_prog [simp]:
  "run_prog (check_parents_prog i k) = State_Monad.bind (CheckParentsCompleted i) (\<lambda>r. run_prog (k r))"
proof -
  have c: "State_Monad.bind (case z of Inl e \<Rightarrow> g e | Inr y \<Rightarrow> (case y of None \<Rightarrow> m | Some t \<Rightarrow> h t)) f =
      (case z of Inl e \<Rightarrow> State_Monad.bind (g e) f
       | Inr y \<Rightarrow> (case y of None \<Rightarrow> State_Monad.bind m f | Some t \<Rightarrow> State_Monad.bind (h t) f))"
    for z :: "repo_error + task option" and g m h and f :: "repo_error + bool \<Rightarrow> (world, 'a) state"
    by (simp split: sum.split option.split)
  show ?thesis
    by (simp add: check_parents_prog_def CheckParentsCompleted_def AreParentsCompleted_def Let_def c
        if_distrib [of "\<lambda>m. State_Monad.bind m f" for f] cong: sum.case_cong option.case_cong if_cong)
qed

lemma run_promote [simp]:
  "run_prog (promote_prog i cs p) = State_Monad.bind (promote_loop i cs) (\<lambda>_. run_prog p)"
proof (induction cs)
  case (Cons c cs)
  have "State_Monad.bind (case z of Inl e \<Rightarrow> g e | Inr y \<Rightarrow> h y) f =
      (case z of Inl e \<Rightarrow> State_Monad.bind (g e) f | Inr y \<Rightarrow> State_Monad.bind (h y) f)"
    for z :: "repo_error + bool" and g h and f :: "unit \<Rightarrow> (world, 'a) state"
    by (simp split: sum.split)
  with Cons show ?case
    by (simp add: if_distrib [of "\<lambda>m. State_Monad.bind m f" for f] cong: sum.case_cong if_cong)
qed simp

lemma prog_complete: "run_prog (complete_prog i s) = CompleteTask i s"
proof -
  have "State_Monad.bind (PromoteChildren i) f = State_Monad.bind
      (query (\<lambda>_ d. map t_id (filter (\<lambda>r. parents_like i r \<and> t_status r = st_pending) (tasks d))))
      (\<lambda>rows. case rows of None \<Rightarrow> f (Inl (DbError ''query children for promotion''))
         | Some childIDs \<Rightarrow> State_Monad.bind (promote_loop i childIDs) (\<lambda>_. f (Inr ())))"
    for f :: "repo_error + unit \<Rightarrow> (world, repo_error + task option) state"
    by (simp add: PromoteChildren_def option.case_distrib [of "\<lambda>m. State_Monad.bind m f"] cong: option.case_cong)
  then show ?thesis
    by (simp add: complete_prog_def CompleteTask_def cong: option.case_cong sum.case_cong if_cong)
qed

lemma prog_fail: "run_prog (fail_prog i s) = FailTask i s"
  by (simp add: fail_prog_def FailTask_def cong: option.case_cong sum.case_cong if_cong)

lemma run_each [simp]:
  "run_prog (each_prog sql_expire_pending ''PendingTimeout''
     (pending_detail m) is p) =
   State_Monad.bind (expire_pending_loop m is) (\<lambda>_. run_prog p)"
  "run_prog (each_prog (sql_expire_stale (stale_summary m)) ''TaskHeartbeatTimeout''
     (stale_detail m) is p) =
   State_Monad.bind (expire_stale_loop m is) (\<lambda>_. run_prog p)"
  "run_prog (each_prog sql_release ''StaleAgentRelease'' (release_detail ag) is p) =
   State_Monad.bind (release_loop ag is) (\<lambda>_. run_prog p)"
  by (induction "is"; simp add: pending_detail_def stale_detail_def release_detail_def option.case_distrib [of "\<lambda>m. State_Monad.bind m f" for f]
      cong: option.case_cong)+

lemma prog_sweeps:
  "run_prog (expire_pending_prog m) = ExpirePendingTasks m"
  "run_prog (expire_stale_prog m) = ExpireStaleInProgressTasks m"
  "run_prog (release_prog ag) = ReleaseAgentTasks ag"
  by (simp_all add: expire_pending_prog_def ExpirePendingTasks_def expire_stale_prog_def
      ExpireStaleInProgressTasks_def release_prog_def ReleaseAgentTasks_def cong: option.case_cong if_cong)

lemma prog_artifacts:
  "run_prog (add_prog i a) = AddArtifact i a" "run_prog (remove_prog i k) = RemoveArtifact i k"
  by (auto simp: add_prog_def remove_prog_def artifacts_prog_def AddArtifact_def RemoveArtifact_def
      getArtifactsJSON_def SetArtifactsJSON_def intro!: arg_cong [where f = "State_Monad.bind _"]
      split: option.split)

lemma prog_create: "run_prog (create_prog t) = Create t"
  by (auto simp: create_prog_def Create_def Let_def intro!: arg_cong [where f = "State_Monad.bind _"]
      split: option.split)

lemma prog_single:
  "run_prog (heartbeat_prog i) = UpdateTaskHeartbeat i" "run_prog (create_gate_prog g) = CreateGate g"
  "run_prog (ask_prog j a) = AskGate j a" "run_prog (answer_prog j a) = AnswerGate j a"
  "run_prog (resolve_prog j) = ResolveGate j"
  by (simp_all add: heartbeat_prog_def UpdateTaskHeartbeat_def create_gate_prog_def CreateGate_def
      gate_prog_def ask_prog_def AskGate_def answer_prog_def AnswerGate_def resolve_prog_def
      ResolveGate_def Let_def cong: option.case_cong)

lemmas prog_methods = prog_create prog_single prog_transitions prog_complete prog_fail prog_sweeps prog_artifacts

end
