(* ===== verification/Crypto.thy ===== *)
theory Crypto
  imports Store
begin

text \<open>
  \<^verbatim>\<open>internal/db/token_hash.go\<close> and \<^verbatim>\<open>internal/db/webhook_crypto.go\<close>: tokens stored as
  salted hashes with a prefix for the lookup, and webhook secrets sealed with a key from the
  environment, both kept in base64. Bytes are characters. The random bytes a call draws are
  an argument, none when the source of randomness fails.

  The record \<open>extern\<close> holds what is not part of the repository: the environment variables,
  Argon2id, SHA-256, AES-GCM (key, nonce, text) and HMAC-SHA256 in hexadecimal, what the URL
  parser makes of a host in brackets, the resolver, and the text in JSON of a time of a column,
  which has the zone of the database's session.
\<close>

record extern =
  getenv :: "string \<Rightarrow> string"
  argon2_idkey :: "string \<Rightarrow> string \<Rightarrow> string"
  sha256 :: "string \<Rightarrow> string"
  gcm_seal :: "string \<Rightarrow> string \<Rightarrow> string \<Rightarrow> string"
  gcm_open :: "string \<Rightarrow> string \<Rightarrow> string \<Rightarrow> string option"
  hmac_hex :: "string \<Rightarrow> string \<Rightarrow> string"
  ip_literal :: "string \<Rightarrow> string option"
  lookup_ip :: "time \<Rightarrow> string \<Rightarrow> net_ip list option"
  json_time :: "time \<Rightarrow> string"

subsection \<open>Standard base64\<close>

definition b64_char :: "nat \<Rightarrow> char" where
  "b64_char n = (if n < 26 then char_of (65 + n) else if n < 52 then char_of (71 + n)
     else if n < 62 then char_of (n - 4) else if n = 62 then CHR ''+'' else CHR ''/'')"

definition b64_val :: "char \<Rightarrow> nat option" where
  "b64_val c = (let k = (of_char c :: nat) in
     if 65 \<le> k \<and> k \<le> 90 then Some (k - 65) else if 97 \<le> k \<and> k \<le> 122 then Some (k - 71)
     else if 48 \<le> k \<and> k \<le> 57 then Some (k + 4) else if k = 43 then Some 62
     else if k = 47 then Some 63 else None)"

fun b64_encode :: "string \<Rightarrow> string" where
  "b64_encode [] = []"
| "b64_encode [a] = [b64_char (of_char a div 4), b64_char (of_char a mod 4 * 16), CHR ''='', CHR ''='']"
| "b64_encode [a, b] = [b64_char (of_char a div 4),
     b64_char (of_char a mod 4 * 16 + of_char b div 16), b64_char (of_char b mod 16 * 4), CHR ''='']"
| "b64_encode (a # b # c # s) = b64_char (of_char a div 4)
     # b64_char (of_char a mod 4 * 16 + of_char b div 16)
     # b64_char (of_char b mod 16 * 4 + of_char c div 64) # b64_char (of_char c mod 64) # b64_encode s"

text \<open>The bytes of a quantum of two, three or four characters.\<close>

definition b64_bytes2 :: "nat \<Rightarrow> nat \<Rightarrow> string" where
  "b64_bytes2 x y = [char_of (x * 4 + y div 16)]"

definition b64_bytes3 :: "nat \<Rightarrow> nat \<Rightarrow> nat \<Rightarrow> string" where
  "b64_bytes3 x y z = b64_bytes2 x y @ [char_of (y mod 16 * 16 + z div 4)]"

definition b64_bytes4 :: "nat \<Rightarrow> nat \<Rightarrow> nat \<Rightarrow> nat \<Rightarrow> string" where
  "b64_bytes4 x y z v = b64_bytes3 x y z @ [char_of (z mod 4 * 64 + v)]"

fun b64_quanta :: "string \<Rightarrow> string option" where
  "b64_quanta [] = Some []"
| "b64_quanta (a # b # c # d # s) =
    (case (b64_val a, b64_val b) of
       (Some x, Some y) \<Rightarrow>
         if c = CHR ''='' then (if d = CHR ''='' \<and> s = [] then Some (b64_bytes2 x y) else None)
         else (case b64_val c of
           None \<Rightarrow> None
         | Some z \<Rightarrow>
             if d = CHR ''='' then (if s = [] then Some (b64_bytes3 x y z) else None)
             else (case b64_val d of
               None \<Rightarrow> None
             | Some v \<Rightarrow> map_option (\<lambda>r. b64_bytes4 x y z v @ r) (b64_quanta s)))
     | _ \<Rightarrow> None)"
| "b64_quanta _ = None"

definition b64_decode :: "string \<Rightarrow> string option" where
  "b64_decode s = b64_quanta (filter (\<lambda>c. c \<noteq> CHR 0x0A \<and> c \<noteq> CHR 0x0D) s)"

lemma b64_val_char [simp]: "n < 64 \<Longrightarrow> b64_val (b64_char n) = Some n"
proof -
  assume "n < 64"
  then consider "n < 26" | "26 \<le> n" "n < 52" | "52 \<le> n" "n < 62" | "n = 62" | "n = 63" by linarith
  then show ?thesis by cases (auto simp: b64_val_def b64_char_def Let_def)
qed

lemma b64_val_special [simp]:
  "b64_val (CHR ''='') = None" "b64_val (CHR 0x0A) = None" "b64_val (CHR 0x0D) = None"
  by (simp_all add: b64_val_def)

lemma b64_char_neq [simp]:
  assumes "n < 64"
  shows "b64_char n \<noteq> CHR ''=''" "b64_char n \<noteq> CHR 0x0A" "b64_char n \<noteq> CHR 0x0D"
  using b64_val_char [OF assms] b64_val_special by (metis option.distinct(1))+

lemma byte_parts [simp]:
  "(of_char c :: nat) div 4 < 64" "(of_char c :: nat) div 16 < 16" "(of_char c :: nat) div 64 < 4"
  using nat_of_char_less_256 [of c] by (simp_all add: less_mult_imp_div_less)

lemma join_parts [simp]:
  fixes x y :: nat
  assumes "y < k"
  shows "(x * k + y) div k = x" "(x * k + y) mod k = y"
  using assms by simp_all

lemma six_bits [simp]:
  fixes x y :: nat
  shows "y < 16 \<Longrightarrow> x mod 4 * 16 + y < 64" "y < 4 \<Longrightarrow> x mod 16 * 4 + y < 64"
    "x mod 4 * 16 < 64" "x mod 16 * 4 < 64" "x mod 64 < 64"
proof -
  have "x mod 4 < 4" "x mod 16 < 16" by simp_all
  then show "y < 16 \<Longrightarrow> x mod 4 * 16 + y < 64" "y < 4 \<Longrightarrow> x mod 16 * 4 + y < 64"
    "x mod 4 * 16 < 64" "x mod 16 * 4 < 64" "x mod 64 < 64" by linarith+
qed

lemma b64_bytes [simp]:
  "b64_bytes2 (of_char a div 4) (of_char a mod 4 * 16) = [a]"
  "y < 16 \<Longrightarrow> b64_bytes2 (of_char a div 4) (of_char a mod 4 * 16 + y) = [a]"
  "b64_bytes3 (of_char a div 4) (of_char a mod 4 * 16 + of_char b div 16) (of_char b mod 16 * 4) = [a, b]"
  "y < 4 \<Longrightarrow> b64_bytes3 (of_char a div 4) (of_char a mod 4 * 16 + of_char b div 16)
     (of_char b mod 16 * 4 + y) = [a, b]"
  "b64_bytes4 (of_char a div 4) (of_char a mod 4 * 16 + of_char b div 16)
     (of_char b mod 16 * 4 + of_char c div 64) (of_char c mod 64) = [a, b, c]"
proof -
  show 1: "y < 16 \<Longrightarrow> b64_bytes2 (of_char a div 4) (of_char a mod 4 * 16 + y) = [a]" for y
    by (simp add: b64_bytes2_def)
  from this [of 0] show "b64_bytes2 (of_char a div 4) (of_char a mod 4 * 16) = [a]" by simp
  show 2: "y < 4 \<Longrightarrow> b64_bytes3 (of_char a div 4) (of_char a mod 4 * 16 + of_char b div 16)
     (of_char b mod 16 * 4 + y) = [a, b]" for y
    using 1 [of "of_char b div 16"] by (simp add: b64_bytes3_def)
  from this [of 0]
  show "b64_bytes3 (of_char a div 4) (of_char a mod 4 * 16 + of_char b div 16) (of_char b mod 16 * 4) = [a, b]"
    by simp
  show "b64_bytes4 (of_char a div 4) (of_char a mod 4 * 16 + of_char b div 16)
     (of_char b mod 16 * 4 + of_char c div 64) (of_char c mod 64) = [a, b, c]"
    using 2 [of "of_char c div 64"] by (simp add: b64_bytes4_def)
qed

lemma b64_quanta_encode [simp]: "b64_quanta (b64_encode s) = Some s"
  by (induction s rule: b64_encode.induct) simp_all

lemma b64_encode_clean: "filter (\<lambda>c. c \<noteq> CHR 0x0A \<and> c \<noteq> CHR 0x0D) (b64_encode s) = b64_encode s"
  by (induction s rule: b64_encode.induct) simp_all

lemma b64_decode_encode [simp]: "b64_decode (b64_encode s) = Some s"
  by (simp add: b64_decode_def b64_encode_clean)

lemma length_b64_encode: "length (b64_encode s) = 4 * ((length s + 2) div 3)"
proof (induction s rule: b64_encode.induct)
  case (4 a b c s)
  have "(length (a # b # c # s) + 2) div 3 = Suc ((length s + 2) div 3)" by simp
  with 4 show ?case by simp
qed simp_all

subsection \<open>Tokens\<close>

definition tokenPrefix :: "extern \<Rightarrow> string \<Rightarrow> string" where
  "tokenPrefix c token = take 8 (b64_encode (take 6 (sha256 c token)))"

definition hashToken :: "extern \<Rightarrow> string option \<Rightarrow> string \<Rightarrow> repo_error + string \<times> string" where
  "hashToken c rnd token = (case rnd of
     None \<Rightarrow> Inl (CryptoError ''generate salt'')
   | Some salt \<Rightarrow> Inr (b64_encode (salt @ argon2_idkey c token salt), tokenPrefix c token))"

definition verifyToken :: "extern \<Rightarrow> string \<Rightarrow> string \<Rightarrow> repo_error + bool" where
  "verifyToken c token storedHash = (case b64_decode storedHash of
     None \<Rightarrow> Inl (CryptoError ''decode hash'')
   | Some decoded \<Rightarrow>
       if length decoded < 16 + 32 then Inl (CryptoError ''invalid hash length'')
       else (let expected = argon2_idkey c token (take 16 decoded); hash = drop 16 decoded in
         if length expected \<noteq> length hash then Inl (CryptoError ''hash mismatch'')
         else Inr (expected = hash)))"

lemma verifyToken_hashToken:
  assumes "length salt = 16" and "\<And>t. length (argon2_idkey c t salt) = 32"
    and "hashToken c (Some salt) token = Inr (h, p)"
  shows "verifyToken c token' h = Inr (argon2_idkey c token' salt = argon2_idkey c token salt)"
  using assms by (auto simp: hashToken_def verifyToken_def)

subsection \<open>Webhook secrets\<close>

text \<open>
  \<open>getCipher\<close> runs \<open>initCipher\<close> once; the environment does not change, so every later call
  gives what the first one gave. AES takes any 32-byte key and GCM its nonce of 12 bytes.
\<close>

definition initCipher :: "extern \<Rightarrow> repo_error + string" where
  "initCipher c =
    (let key = (if getenv c ''ACB_WEBHOOK_SECRET_KEY'' = [] then getenv c ''WEBHOOK_SECRET_KEY''
       else getenv c ''ACB_WEBHOOK_SECRET_KEY'') in
     if key = [] then Inl (CryptoError ''ACB_WEBHOOK_SECRET_KEY not set'')
     else (case b64_decode key of
       None \<Rightarrow> Inl (CryptoError ''decode ACB_WEBHOOK_SECRET_KEY'')
     | Some keyBytes \<Rightarrow>
         if length keyBytes \<noteq> 32 then Inl (CryptoError ''ACB_WEBHOOK_SECRET_KEY must be 32 bytes'')
         else Inr keyBytes))"

definition getCipher :: "extern \<Rightarrow> repo_error + string" where
  "getCipher c = initCipher c"

definition nonce_size :: nat where "nonce_size = 12"

definition EncryptWebhookSecret :: "extern \<Rightarrow> string option \<Rightarrow> string \<Rightarrow> repo_error + string" where
  "EncryptWebhookSecret c rnd plaintext = (case getCipher c of
     Inl e \<Rightarrow> Inl (CryptoError ''webhook encryption not configured'')
   | Inr key \<Rightarrow> (case rnd of
       None \<Rightarrow> Inl (CryptoError ''generate nonce'')
     | Some nonce \<Rightarrow> Inr (b64_encode (nonce @ gcm_seal c key nonce plaintext))))"

definition DecryptWebhookSecret :: "extern \<Rightarrow> string \<Rightarrow> repo_error + string" where
  "DecryptWebhookSecret c encoded = (case getCipher c of
     Inl e \<Rightarrow> Inl (CryptoError ''webhook decryption not configured'')
   | Inr key \<Rightarrow> (case b64_decode encoded of
       None \<Rightarrow> Inl (CryptoError ''decode secret'')
     | Some data \<Rightarrow>
         if length data < nonce_size then Inl (CryptoError ''invalid secret length'')
         else (case gcm_open c key (take nonce_size data) (drop nonce_size data) of
           None \<Rightarrow> Inl (CryptoError ''decrypt secret'')
         | Some plaintext \<Rightarrow> Inr plaintext)))"

end
