(* ===== verification/AgentRepo.thy ===== *)
theory AgentRepo
  imports Statements Crypto
begin

text \<open>
  \<^verbatim>\<open>internal/db/agent_repo.go\<close> and the two token functions of \<^verbatim>\<open>token_hash.go\<close> that
  reach the table: agents with their skills, heartbeat, event cursor and stored token.
  \<open>NewAgentRepo\<close> keeps the connection and has no other state.
\<close>

subsection \<open>Scanning rows\<close>

text \<open>The columns every reader scans; the skills column is decoded, and its error returned.\<close>

definition agent_columns :: "agent_row \<Rightarrow> string slice \<Rightarrow> agent" where
  "agent_columns r skills = \<lparr>AgName = a_name r, AgPort = a_port r, AgToken = [],
     AgLastHeartbeat = a_last_heartbeat r, AgSkills = skills, AgWebhookURL = a_webhook_url r,
     AgWebhookSecret = a_webhook_secret r\<rparr>"

definition scan_agent :: "agent_row \<Rightarrow> repo_error + agent" where
  "scan_agent r = (case unmarshal_strings (a_skills r) of
     None \<Rightarrow> Inl (BadJSON ''unmarshal skills'')
   | Some skills \<Rightarrow> Inr (agent_columns r skills))"

subsection \<open>Writers\<close>

definition UpsertAgent :: "extern \<Rightarrow> string option \<Rightarrow> string option \<Rightarrow> agent \<Rightarrow>
    (world, repo_error + unit) state" where
  "UpsertAgent c salt nonce a = (case hashToken c salt (AgToken a) of
     Inl e \<Rightarrow> State_Monad.return (Inl e)
   | Inr (hash, pfx) \<Rightarrow>
       (case (if AgWebhookSecret a \<noteq> [] then EncryptWebhookSecret c nonce (AgWebhookSecret a)
              else Inr []) of
         Inl e \<Rightarrow> State_Monad.return (Inl e)
       | Inr encryptedSecret \<Rightarrow> do {
           r \<leftarrow> exec (sql_upsert_agent \<lparr>a_name = AgName a, a_port = AgPort a, a_token = hash,
             a_token_prefix = pfx, a_last_heartbeat = AgLastHeartbeat a,
             a_skills = marshal_strings (AgSkills a), a_webhook_url = AgWebhookURL a,
             a_webhook_secret = encryptedSecret, a_last_event_id = None\<rparr>);
           State_Monad.return (case r of None \<Rightarrow> Inl (DbError ''upsert agent'') | Some _ \<Rightarrow> Inr ())
         }))"

definition UpdateHeartbeat :: "string \<Rightarrow> (world, repo_error + unit) state" where
  "UpdateHeartbeat name = do {
     ts \<leftarrow> State_Monad.get;
     res \<leftarrow> exec (sql_agent_heartbeat (now ts) name);
     State_Monad.return (case res of
       None \<Rightarrow> Inl (DbError ''update heartbeat'')
     | Some n \<Rightarrow> if n = 0 then Inl (AgentNotFound name) else Inr ())
   }"

definition UpdateLastEventID :: "string \<Rightarrow> int \<Rightarrow> (world, repo_error + unit) state" where
  "UpdateLastEventID name i = do {
     res \<leftarrow> exec (sql_set_cursor i name);
     State_Monad.return (case res of
       None \<Rightarrow> Inl (DbError ''update last event id'')
     | Some n \<Rightarrow> if n = 0 then Inl (AgentNotFound name) else Inr ())
   }"

definition StoreTokenHash :: "extern \<Rightarrow> string option \<Rightarrow> string \<Rightarrow> string \<Rightarrow>
    (world, repo_error + unit) state" where
  "StoreTokenHash c salt agentName token = (case hashToken c salt token of
     Inl e \<Rightarrow> State_Monad.return (Inl e)
   | Inr (hash, pfx) \<Rightarrow> do {
       res \<leftarrow> exec (sql_store_token hash pfx agentName);
       State_Monad.return (case res of None \<Rightarrow> Inl (DbError ''store token'') | Some _ \<Rightarrow> Inr ())
     })"

subsection \<open>Readers\<close>

definition GetByName :: "string \<Rightarrow> (world, repo_error + agent option) state" where
  "GetByName name = do {
     row \<leftarrow> query (\<lambda>_. find_agent name);
     State_Monad.return (case row of
       None \<Rightarrow> Inl (DbError ''scan agent'')
     | Some None \<Rightarrow> Inr None
     | Some (Some r) \<Rightarrow> (case scan_agent r of Inl e \<Rightarrow> Inl e | Inr a \<Rightarrow> Inr (Some a)))
   }"

fun scanMatchingAgent :: "extern \<Rightarrow> string \<Rightarrow> agent_row list \<Rightarrow> repo_error + agent option" where
  "scanMatchingAgent c token [] = Inr None"
| "scanMatchingAgent c token (r # rs) = (case verifyToken c token (a_token r) of
     Inl e \<Rightarrow> scanMatchingAgent c token rs
   | Inr True \<Rightarrow> (case scan_agent r of Inl e \<Rightarrow> Inl e | Inr a \<Rightarrow> Inr (Some a))
   | Inr False \<Rightarrow> scanMatchingAgent c token rs)"

definition getByTokenPrefix :: "extern \<Rightarrow> string \<Rightarrow> string \<Rightarrow>
    (world, repo_error + agent option) state" where
  "getByTokenPrefix c token pfx = do {
     rows \<leftarrow> query (\<lambda>_ d. filter (\<lambda>r. a_token_prefix r = pfx) (agents d));
     State_Monad.return (case rows of
       None \<Rightarrow> Inl (DbError ''query agents'')
     | Some rs \<Rightarrow> scanMatchingAgent c token rs)
   }"

definition GetByToken :: "extern \<Rightarrow> string option \<Rightarrow> string \<Rightarrow>
    (world, repo_error + agent option) state" where
  "GetByToken c salt token =
    (if length token < 8 then State_Monad.return (Inr None)
     else (case hashToken c salt token of
       Inl e \<Rightarrow> State_Monad.return (Inl e)
     | Inr (_, hashPrefix) \<Rightarrow> getByTokenPrefix c token hashPrefix))"

definition CheckToken :: "extern \<Rightarrow> string \<Rightarrow> string \<Rightarrow> (world, repo_error + bool) state" where
  "CheckToken c agentName token = do {
     row \<leftarrow> query (\<lambda>_. find_agent agentName);
     State_Monad.return (case row of
       None \<Rightarrow> Inl (DbError ''check token'')
     | Some None \<Rightarrow> Inr False
     | Some (Some r) \<Rightarrow> verifyToken c token (a_token r))
   }"

text \<open>The heartbeats that are NULL count as stale. The secret is not among the columns read.\<close>

definition is_stale :: "time \<Rightarrow> agent_row \<Rightarrow> bool" where
  "is_stale cutoff r \<longleftrightarrow> (case a_last_heartbeat r of None \<Rightarrow> True | Some h \<Rightarrow> h < cutoff)"

fun scan_stale :: "agent_row list \<Rightarrow> agent list \<Rightarrow> repo_error + agent list" where
  "scan_stale [] acc = Inr acc"
| "scan_stale (r # rs) acc = (case scan_agent r of
     Inl e \<Rightarrow> Inl e
   | Inr a \<Rightarrow> scan_stale rs (acc @ [a\<lparr>AgWebhookSecret := []\<rparr>]))"

definition ListStale :: "time \<Rightarrow> (world, repo_error + agent slice) state" where
  "ListStale dur = do {
     w \<leftarrow> State_Monad.get;
     rows \<leftarrow> query (\<lambda>_ d. filter (is_stale (now w - dur)) (agents d));
     State_Monad.return (case rows of
       None \<Rightarrow> Inl (DbError ''list stale agents'')
     | Some rs \<Rightarrow> (case scan_stale rs [] of Inl e \<Rightarrow> Inl e | Inr ags \<Rightarrow> Inr (built ags)))
   }"

definition GetSkills :: "string \<Rightarrow> (world, repo_error + string slice) state" where
  "GetSkills name = do {
     row \<leftarrow> query (\<lambda>_. find_agent name);
     State_Monad.return (case row of
       None \<Rightarrow> Inl (DbError ''get skills'')
     | Some None \<Rightarrow> Inl (AgentNotFound name)
     | Some (Some r) \<Rightarrow> (case unmarshal_strings (a_skills r) of
         None \<Rightarrow> Inl (BadJSON ''unmarshal skills'')
       | Some skills \<Rightarrow> Inr skills))
   }"

definition HasRequiredSkills :: "string \<Rightarrow> string list \<Rightarrow> (world, repo_error + bool) state" where
  "HasRequiredSkills agentName required = do {
     r \<leftarrow> GetSkills agentName;
     State_Monad.return (case r of
       Inl e \<Rightarrow> Inl e
     | Inr agentSkills \<Rightarrow> Inr (has_all_skills required (elems agentSkills)))
   }"

definition GetLastEventID :: "string \<Rightarrow> (world, repo_error + int option) state" where
  "GetLastEventID name = do {
     row \<leftarrow> query (\<lambda>_. find_agent name);
     State_Monad.return (case row of
       None \<Rightarrow> Inl (DbError ''get last event id'')
     | Some None \<Rightarrow> Inl (AgentNotFound name)
     | Some (Some r) \<Rightarrow> Inr (a_last_event_id r))
   }"

fun scan_matching :: "string list \<Rightarrow> agent_row list \<Rightarrow> agent list \<Rightarrow> repo_error + agent list" where
  "scan_matching required [] acc = Inr acc"
| "scan_matching required (r # rs) acc = (case scan_agent r of
     Inl e \<Rightarrow> Inl e
   | Inr a \<Rightarrow>
       if required \<noteq> [] \<and> \<not> has_all_skills required (elems (AgSkills a))
       then scan_matching required rs acc
       else scan_matching required rs (acc @ [a\<lparr>AgToken := a_token r\<rparr>]))"

definition FindMatchingAgents :: "string list \<Rightarrow> (world, repo_error + agent slice) state" where
  "FindMatchingAgents required = do {
     rows \<leftarrow> query (\<lambda>_. agents);
     State_Monad.return (case rows of
       None \<Rightarrow> Inl (DbError ''find matching agents'')
     | Some rs \<Rightarrow> (case scan_matching required rs [] of Inl e \<Rightarrow> Inl e | Inr ags \<Rightarrow> Inr (built ags)))
   }"

subsection \<open>Writes\<close>

lemma issues_UpsertAgent [steps_intros]: "issues u (UpsertAgent c s n a)"
  unfolding UpsertAgent_def by (intro steps_intros) simp

lemma issues_agent_writers [steps_intros]:
  "issues u (UpdateHeartbeat i)" "issues u (UpdateLastEventID i k)"
  "issues u (StoreTokenHash c s i t)"
  unfolding UpdateHeartbeat_def UpdateLastEventID_def StoreTokenHash_def
  by (intro steps_intros)+

lemma issues_agent_readers [steps_intros]:
  "issues u (GetByName i)" "issues u (getByTokenPrefix c t p)" "issues u (CheckToken c i t)"
  "issues u (ListStale dur)" "issues u (GetSkills i)" "issues u (HasRequiredSkills i ss)"
  "issues u (GetLastEventID i)" "issues u (FindMatchingAgents ss)"
  unfolding GetByName_def getByTokenPrefix_def CheckToken_def ListStale_def GetSkills_def
    HasRequiredSkills_def GetLastEventID_def FindMatchingAgents_def
  by (intro steps_intros)+

lemma issues_GetByToken [steps_intros]: "issues u (GetByToken c s t)"
  unfolding GetByToken_def by (intro steps_intros)

subsection \<open>What the readers compute\<close>

lemma find_agent_update:
  assumes "\<And>r. a_name (f r) = a_name r"
  shows "find_agent j (snd (update_agents P f d)) =
    map_option (\<lambda>r. if P r then f r else r) (find_agent j d)"
  using assms by (simp add: find_agent_def find_upd_where)

lemma count_agent:
  "wf_db d \<Longrightarrow> count_where (\<lambda>r. a_name r = i) (agents d) =
     (case find_agent i d of None \<Rightarrow> 0 | Some r \<Rightarrow> 1)"
  using count_where_key [of a_name "agents d" i "\<lambda>_. True"] by (simp add: find_agent_def wf_db_def)

lemma scan_matching_ok:
  assumes "\<And>r. r \<in> set rs \<Longrightarrow> unmarshal_strings (a_skills r) = Some (sk r)"
  shows "scan_matching required rs acc = Inr (acc @ map (\<lambda>r. (agent_columns r (sk r))\<lparr>AgToken := a_token r\<rparr>)
    (filter (\<lambda>r. set required \<subseteq> set (elems (sk r))) rs))"
  using assms
  by (induction rs arbitrary: acc) (auto simp: scan_agent_def agent_columns_def)

lemma scan_stale_ok:
  assumes "\<And>r. r \<in> set rs \<Longrightarrow> unmarshal_strings (a_skills r) = Some (sk r)"
  shows "scan_stale rs acc = Inr (acc @ map (\<lambda>r. (agent_columns r (sk r))\<lparr>AgWebhookSecret := []\<rparr>) rs)"
  using assms by (induction rs arbitrary: acc) (auto simp: scan_agent_def)

lemma scanMatchingAgent_sound:
  assumes "scanMatchingAgent c token rs = Inr (Some a)"
  shows "\<exists>r \<in> set rs. verifyToken c token (a_token r) = Inr True \<and> scan_agent r = Inr a"
  using assms
  by (induction rs) (auto split: sum.splits bool.splits)

end
