(* ===== verification/Urls.thy ===== *)
theory Urls
  imports Crypto
begin

text \<open>
  The parts of package \<^verbatim>\<open>net/url\<close> that the program uses: \<^verbatim>\<open>url.ParseQuery\<close> for the queries of the
  requests and, for \<^verbatim>\<open>ValidateWebhookURL\<close>, \<^verbatim>\<open>url.Parse\<close> down to the scheme
  and the host, with every reason to refuse a text, and \<^verbatim>\<open>Hostname\<close>. What it makes of a host in
  brackets, where its versions differ, is the parameter \<open>ip_literal\<close>.
\<close>

subsection \<open>Texts\<close>

definition in_range :: "nat \<Rightarrow> nat \<Rightarrow> char \<Rightarrow> bool" where
  "in_range lo hi c \<longleftrightarrow> lo \<le> (of_char c :: nat) \<and> (of_char c :: nat) \<le> hi"

definition is_letter :: "char \<Rightarrow> bool" where
  "is_letter c \<longleftrightarrow> in_range 97 122 c \<or> in_range 65 90 c"

definition text_before :: "char \<Rightarrow> string \<Rightarrow> string" where
  "text_before c s = takeWhile (\<lambda>d. d \<noteq> c) s"

definition text_after :: "char \<Rightarrow> string \<Rightarrow> string" where
  "text_after c s = drop (Suc (length (text_before c s))) s"

definition text_before_last :: "char \<Rightarrow> string \<Rightarrow> string" where
  "text_before_last c s = rev (text_after c (rev s))"

definition text_after_last :: "char \<Rightarrow> string \<Rightarrow> string" where
  "text_after_last c s = rev (text_before c (rev s))"

subsection \<open>Escapes\<close>

datatype url_part = PathPart | UserPart | HostPart | FragmentPart | QueryPart

text \<open>The characters that stand for themselves in a host.\<close>

definition host_escaped :: "char \<Rightarrow> bool" where
  "host_escaped c \<longleftrightarrow> \<not> (is_letter c \<or> is_digit c \<or> c \<in> set ''-_.~!$&()*+,;=:[]<>'' \<or> c = CHR 0x27 \<or> c = CHR 0x22)"

fun char_refused :: "url_part \<Rightarrow> char \<Rightarrow> bool" where
  "char_refused HostPart c \<longleftrightarrow> (of_char c :: nat) < 128 \<and> host_escaped c"
| "char_refused _ c \<longleftrightarrow> False"

text \<open>An escape by its two hexadecimal values: in a host only bytes from 0x80 on and the percent sign.\<close>

fun escape_refused :: "url_part \<Rightarrow> nat \<Rightarrow> nat \<Rightarrow> bool" where
  "escape_refused HostPart h l \<longleftrightarrow> h < 8 \<and> \<not> (h = 2 \<and> l = 5)"
| "escape_refused _ h l \<longleftrightarrow> False"

fun unescape :: "url_part \<Rightarrow> string \<Rightarrow> string option" where
  "unescape m [] = Some []"
| "unescape m (c # cs) =
    (if c = CHR ''%'' then (case cs of
       h # l # r \<Rightarrow> (case (hex_val h, hex_val l) of
           (Some a, Some b) \<Rightarrow> if escape_refused m a b then None
             else map_option ((#) (char_of (16 * a + b))) (unescape m r)
         | _ \<Rightarrow> None)
     | _ \<Rightarrow> None)
     else if char_refused m c then None
     else map_option ((#) c) (unescape m cs))"

subsection \<open>The parser\<close>

definition scheme_char :: "char \<Rightarrow> bool" where
  "scheme_char c \<longleftrightarrow> is_letter c \<or> is_digit c \<or> c \<in> set ''+-.''"

text \<open>Scheme and rest; none when the text starts with the colon.\<close>

definition get_scheme :: "string \<Rightarrow> (string \<times> string) option" where
  "get_scheme s = (let p = takeWhile scheme_char s; r = drop (length p) s in
     if p = [] then (if r \<noteq> [] \<and> hd r = CHR '':'' then None else Some ([], s))
     else if \<not> is_letter (hd p) then Some ([], s)
     else if r \<noteq> [] \<and> hd r = CHR '':'' then Some (p, tl r) else Some ([], s))"

definition valid_optional_port :: "string \<Rightarrow> bool" where
  "valid_optional_port p \<longleftrightarrow> p = [] \<or> hd p = CHR '':'' \<and> list_all is_digit (tl p)"

definition parse_host :: "extern \<Rightarrow> string \<Rightarrow> string option" where
  "parse_host x host =
    (if CHR ''['' \<in> set host then ip_literal x host
     else if CHR '':'' \<in> set host \<and> \<not> valid_optional_port (CHR '':'' # text_after_last (CHR '':'') host) then None
     else unescape HostPart host)"

definition valid_userinfo :: "string \<Rightarrow> bool" where
  "valid_userinfo s \<longleftrightarrow> list_all (\<lambda>c. is_letter c \<or> is_digit c \<or> c \<in> set ''-._:~!$&()*+,;=%@'' \<or> c = CHR 0x27) s"

definition userinfo_ok :: "string \<Rightarrow> bool" where
  "userinfo_ok s \<longleftrightarrow> valid_userinfo s \<and>
     (if CHR '':'' \<notin> set s then unescape UserPart s \<noteq> None
      else unescape UserPart (text_before (CHR '':'') s) \<noteq> None \<and> unescape UserPart (text_after (CHR '':'') s) \<noteq> None)"

definition parse_authority :: "extern \<Rightarrow> string \<Rightarrow> string option" where
  "parse_authority x authority =
    (if CHR ''@'' \<notin> set authority then parse_host x authority
     else (case parse_host x (text_after_last (CHR ''@'') authority) of
         None \<Rightarrow> None
       | Some host \<Rightarrow> if userinfo_ok (text_before_last (CHR ''@'') authority) then Some host else None))"

definition path_ok :: "string \<Rightarrow> bool" where
  "path_ok s \<longleftrightarrow> unescape PathPart s \<noteq> None"

text \<open>The text after the scheme, without the query: the host, which may be empty.\<close>

definition parse_rest :: "extern \<Rightarrow> string \<Rightarrow> string \<Rightarrow> string option" where
  "parse_rest x scheme rest =
    (if take 1 rest \<noteq> ''/'' \<and> scheme \<noteq> [] then Some []
     else if take 1 rest \<noteq> ''/'' \<and> CHR '':'' \<in> set (text_before (CHR ''/'') rest) then None
     else if (scheme \<noteq> [] \<or> take 3 rest \<noteq> ''///'') \<and> take 2 rest = ''//'' then
       (let authority = text_before (CHR ''/'') (drop 2 rest) in
        case parse_authority x authority of
          None \<Rightarrow> None
        | Some host \<Rightarrow> if path_ok (drop (2 + length authority) rest) then Some host else None)
     else if path_ok rest then Some [] else None)"

definition control_byte :: "char \<Rightarrow> bool" where
  "control_byte c \<longleftrightarrow> (of_char c :: nat) < 32 \<or> c = CHR 0x7F"

definition host_name :: "string \<Rightarrow> string" where
  "host_name hostport =
    (let port = CHR '':'' # text_after_last (CHR '':'') hostport;
         host = (if CHR '':'' \<in> set hostport \<and> valid_optional_port port then text_before_last (CHR '':'') hostport else hostport)
     in if take 1 host = ''['' \<and> last host = CHR '']'' then butlast (tl host) else host)"

definition parse_url :: "extern \<Rightarrow> string \<Rightarrow> (string \<times> string) option" where
  "parse_url x raw = (let u = text_before (CHR ''#'') raw; frag = text_after (CHR ''#'') raw in
     if list_ex control_byte u then None
     else (case get_scheme u of
         None \<Rightarrow> None
       | Some (scheme, rest) \<Rightarrow> (case parse_rest x scheme (text_before (CHR ''?'') rest) of
             None \<Rightarrow> None
           | Some host \<Rightarrow> if unescape FragmentPart frag = None then None
               else Some (scheme, host_name host))))"

subsection \<open>Queries\<close>

text \<open>
  \<^verbatim>\<open>url.ParseQuery\<close>, whose errors \<^verbatim>\<open>URL.Query\<close> ignores: a piece with a semicolon or with a bad
  escape is left out. A plus sign is a blank.
\<close>

fun split_on :: "char \<Rightarrow> string \<Rightarrow> string list" where
  "split_on c [] = [[]]"
| "split_on c (d # ds) = (if d = c then [] # split_on c ds
     else (case split_on c ds of [] \<Rightarrow> [[d]] | p # ps \<Rightarrow> (d # p) # ps))"

definition query_unescape :: "string \<Rightarrow> string option" where
  "query_unescape s = unescape QueryPart (map (\<lambda>c. if c = CHR ''+'' then CHR '' '' else c) s)"

definition query_pair :: "string \<Rightarrow> (string \<times> string) option" where
  "query_pair piece = (if piece = [] \<or> CHR '';'' \<in> set piece then None
     else (case (query_unescape (text_before (CHR ''='') piece), query_unescape (text_after (CHR ''='') piece)) of
       (Some k, Some v) \<Rightarrow> Some (k, v) | _ \<Rightarrow> None))"

definition query_values :: "string \<Rightarrow> string \<Rightarrow> string list" where
  "query_values raw k = map snd (filter (\<lambda>p. fst p = k) (List.map_filter query_pair (split_on (CHR ''&'') raw)))"

lemma query_values_example:
  "query_values ''a=1%2B1&b=x+y&a=&c;d=1&e=%zz&k'' ''a'' = [''1+1'', []]"
  "query_values ''a=1%2B1&b=x+y&a=&c;d=1&e=%zz&k'' ''b'' = [''x y'']"
  "query_values ''a=1%2B1&b=x+y&a=&c;d=1&e=%zz&k'' ''e'' = []"
  "query_values ''a=1%2B1&b=x+y&a=&c;d=1&e=%zz&k'' ''k'' = [[]]"
  by code_simp+

subsection \<open>Plain URLs\<close>

text \<open>Letters, digits, dots and hyphens are read as they are written; a slash ends the host.\<close>

definition plain_url_char :: "char \<Rightarrow> bool" where
  "plain_url_char c \<longleftrightarrow> is_letter c \<or> is_digit c \<or> c = CHR ''.'' \<or> c = CHR ''-''"

lemma plain_not: "plain_url_char c \<Longrightarrow> c \<noteq> CHR ''#'' \<and> c \<noteq> CHR ''?'' \<and> c \<noteq> CHR ''/'' \<and> c \<noteq> CHR '':'' \<and> c \<noteq> CHR ''@''
    \<and> c \<noteq> CHR ''['' \<and> c \<noteq> CHR ''%'' \<and> \<not> control_byte c \<and> \<not> char_refused m c"
  by (cases m) (auto simp: plain_url_char_def is_letter_def is_digit_def in_range_def control_byte_def host_escaped_def)

lemma not_plain [simp]: "\<not> plain_url_char (CHR ''#'')" "\<not> plain_url_char (CHR ''?'')" "\<not> plain_url_char (CHR ''/'')" "\<not> plain_url_char (CHR '':'')"
  "\<not> plain_url_char (CHR ''@'')" "\<not> plain_url_char (CHR ''['')"
  by (simp_all add: plain_url_char_def is_letter_def is_digit_def in_range_def)

lemma plain_free: "list_all plain_url_char h \<Longrightarrow> \<not> plain_url_char c \<Longrightarrow> c \<notin> set h"
  by (auto simp: list_all_iff)

lemma unescape_plain:
  assumes "list_all (\<lambda>c. plain_url_char c \<or> c = CHR ''/'' \<and> m \<noteq> HostPart) s"
  shows "unescape m s = Some s"
  using assms
proof (induction s)
  case (Cons c s)
  then have "c \<noteq> CHR ''%''" using plain_not by auto
  moreover have "\<not> char_refused m c" using Cons.prems plain_not [of c m] by (cases m) auto
  ultimately show ?case using Cons by simp
qed simp

lemma text_before_none:
  assumes "c \<notin> set s"
  shows "text_before c s = s" "text_after c s = []"
proof -
  have *: "takeWhile (\<lambda>d. d \<noteq> c) s = s" using assms by (auto simp: takeWhile_eq_all_conv)
  show "text_before c s = s" "text_after c s = []" by (simp_all add: text_before_def text_after_def *)
qed

lemma text_before_append: "c \<notin> set s \<Longrightarrow> t = [] \<or> hd t = c \<Longrightarrow> text_before c (s @ t) = s"
  by (cases t) (auto simp: text_before_def takeWhile_append takeWhile_eq_all_conv)

lemma host_name_plain:
  assumes "list_all plain_url_char h"
  shows "host_name h = h"
proof -
  have "CHR '':'' \<notin> set h" "CHR ''['' \<notin> set h" using plain_free [OF assms] by simp_all
  then have "take 1 h \<noteq> ''[''" by (cases h) auto
  with \<open>CHR '':'' \<notin> set h\<close> show ?thesis by (simp add: host_name_def Let_def)
qed

lemma parse_url_plain:
  assumes "list_all plain_url_char h" and "list_all (\<lambda>c. plain_url_char c \<or> c = CHR ''/'') p" and "p = [] \<or> hd p = CHR ''/''"
  shows "parse_url x (''https://'' @ h @ p) = Some (''https'', h)"
proof -
  let ?u = "''https://'' @ h @ p"
  have n: "c \<notin> set h" "c \<notin> set p" if "c \<in> {CHR ''#'', CHR ''?'', CHR '':'', CHR ''@'', CHR ''[''}" for c
  proof -
    have "\<not> plain_url_char c \<and> c \<noteq> CHR ''/''"
      using that by (elim insertE emptyE) simp_all
    with assms(1,2) show "c \<notin> set h" "c \<notin> set p" by (auto simp: list_all_iff)
  qed
  have s: "CHR ''/'' \<notin> set h" using assms(1) by (rule plain_free) simp
  have "\<not> control_byte c" if "plain_url_char c" for c using plain_not [OF that, of PathPart] by simp
  moreover have "\<not> control_byte (CHR ''/'')" by (simp add: control_byte_def)
  ultimately have "\<not> list_ex control_byte h" "\<not> list_ex control_byte p"
    using assms(1,2) unfolding list_all_iff list_ex_iff by blast+
  then have "\<not> list_ex control_byte ?u" by (simp add: control_byte_def)
  moreover have "text_before (CHR ''#'') ?u = ?u" "text_after (CHR ''#'') ?u = []"
    by (rule text_before_none, simp add: n)+
  moreover have "get_scheme ?u = Some (''https'', ''//'' @ h @ p)"
    by (simp add: get_scheme_def scheme_char_def is_letter_def in_range_def is_digit_def)
  moreover have "text_before (CHR ''?'') (''//'' @ h @ p) = ''//'' @ h @ p"
    by (rule text_before_none) (simp add: n)
  moreover have "parse_host x h = Some h"
    using assms(1) by (simp add: parse_host_def n unescape_plain list_all_iff)
  moreover have "unescape PathPart p = Some p" using assms(2) by (intro unescape_plain) (auto simp: list_all_iff)
  ultimately show ?thesis
    using assms(3) host_name_plain [OF assms(1)]
    by (simp add: parse_url_def parse_rest_def parse_authority_def text_before_append s n path_ok_def)
qed

text \<open>
  What is before an at sign is not the host; an escape in a host, a port that is no number and a
  colon in the first segment are refused.
\<close>

lemma parse_url_examples:
  "parse_url x ''https://acb.example@10.0.0.1:8443/hook?a=b#c'' = Some (''https'', ''10.0.0.1'')"
  "parse_url x ''https://h%41/'' = None" "parse_url x ''https://h:80x/'' = None"
  "parse_url x ''host:80/hook'' = Some (''host'', [])" "parse_url x ''1host:80'' = None"
  by code_simp+

end
