(* ===== verification/Validator.thy ===== *)
theory Validator
  imports Statements Urls
begin

text \<open>
  \<^verbatim>\<open>internal/dispatcher/validator.go\<close>: the checks a webhook URL passes before a request is
  sent to it, against requests forged to reach internal hosts. The DNS pin cache is the global
  \<open>dnsPinCache\<close>, two maps of the world; the URL is parsed by \<open>parse_url\<close> of \<open>Urls\<close> and the resolver is a parameter.
\<close>

datatype url_error = InvalidURL | BadScheme string | InvalidWebhookURL | DNSFailed | SSRF string net_ip

subsection \<open>The pin cache\<close>

definition NewDnsPinCache :: "(string \<Rightarrow> net_ip slice) \<times> (string \<Rightarrow> time option)" where
  "NewDnsPinCache = ((\<lambda>_. None), (\<lambda>_. None))"

definition pin_get :: "string \<Rightarrow> (world, net_ip slice) state" where
  "pin_get host = State (\<lambda>w. (case pin_ttls w host of
       Some expires \<Rightarrow> if now w < expires then pin_ips w host else None
     | None \<Rightarrow> None, w))"

definition pin_set :: "string \<Rightarrow> net_ip slice \<Rightarrow> time \<Rightarrow> (world, unit) state" where
  "pin_set host ips ttl = State (\<lambda>w. ((), w\<lparr>pin_ips := (pin_ips w)(host := ips),
     pin_ttls := (pin_ttls w)(host := Some (now w + ttl))\<rparr>))"

definition pin_ttl :: time where "pin_ttl = 5 * 60"

subsection \<open>The URL\<close>

definition allowHTTPWebhooks :: "extern \<Rightarrow> bool" where
  "allowHTTPWebhooks x \<longleftrightarrow> getenv x ''ACB_ALLOW_HTTP_WEBHOOKS'' = ''1''"

text \<open>\<^verbatim>\<open>strings.ToLower\<close> on a scheme, which is ASCII.\<close>

definition ascii_lower :: "string \<Rightarrow> string" where
  "ascii_lower s = map (\<lambda>c. let k = (of_char c :: nat) in
     if 65 \<le> k \<and> k \<le> 90 then char_of (k + 32) else c) s"

definition resolve_pinned :: "extern \<Rightarrow> string \<Rightarrow> (world, url_error + net_ip list) state" where
  "resolve_pinned x host = do {
     pinned \<leftarrow> pin_get host;
     case pinned of
       Some ips \<Rightarrow> State_Monad.return (Inr ips)
     | None \<Rightarrow> do {
         w \<leftarrow> State_Monad.get;
         case lookup_ip x (now w) host of
           None \<Rightarrow> State_Monad.return (Inl DNSFailed)
         | Some resolved \<Rightarrow> do {
             pin_set host (built resolved) pin_ttl;
             State_Monad.return (Inr resolved)
           }
       }
   }"

fun first_private :: "net_ip list \<Rightarrow> net_ip option" where
  "first_private [] = None"
| "first_private (ip # ips) = (if isPrivateIP ip then Some ip else first_private ips)"

definition ValidateWebhookURL :: "extern \<Rightarrow> string \<Rightarrow> (world, url_error + unit) state" where
  "ValidateWebhookURL x rawURL = (case parse_url x rawURL of
     None \<Rightarrow> State_Monad.return (Inl InvalidURL)
   | Some (raw_scheme, host) \<Rightarrow>
       (let scheme = ascii_lower raw_scheme in
        if \<not> (scheme = ''https'' \<or> (scheme = ''http'' \<and> allowHTTPWebhooks x))
        then State_Monad.return (Inl (BadScheme scheme))
        else if host = [] then State_Monad.return (Inl InvalidWebhookURL)
        else do {
          r \<leftarrow> resolve_pinned x host;
          State_Monad.return (case r of
            Inl e \<Rightarrow> Inl e
          | Inr ips \<Rightarrow> (case first_private ips of
              Some ip \<Rightarrow> Inl (SSRF host ip)
            | None \<Rightarrow> Inr ()))
        }))"

subsection \<open>The text of an error\<close>

text \<open>
  \<^verbatim>\<open>net.IP.String\<close>: dotted for IPv4, and for IPv6 the groups in hexadecimal with the first of
  the longest runs of two or more zero groups as two colons.
\<close>

definition hex_group :: "nat \<Rightarrow> string" where
  "hex_group n = (case dropWhile (\<lambda>d. d = 0) [n div 4096, n div 256 mod 16, n div 16 mod 16] of ds \<Rightarrow>
     map hex_digit ds @ [hex_digit (n mod 16)])"

fun separated :: "char \<Rightarrow> string list \<Rightarrow> string" where
  "separated c [] = []"
| "separated c [s] = s"
| "separated c (s # ss) = s @ c # separated c ss"

fun ip_groups :: "8 word list \<Rightarrow> nat list" where
  "ip_groups (a # b # bs) = (unat a * 256 + unat b) # ip_groups bs"
| "ip_groups _ = []"

text \<open>Start and length of the run; the groups before the index \<open>i\<close> have been looked at.\<close>

fun longest_zeros :: "nat \<Rightarrow> nat list \<Rightarrow> nat \<times> nat \<Rightarrow> nat \<times> nat" where
  "longest_zeros i [] (start, len) = (start, len)"
| "longest_zeros i (g # gs) (start, len) = (let l = length (takeWhile (\<lambda>x. x = 0) (g # gs)) in
     longest_zeros (Suc i) gs (if 2 \<le> l \<and> len < l then (i, l) else (start, len)))"

definition ip6_text :: "nat list \<Rightarrow> string" where
  "ip6_text gs = (case longest_zeros 0 gs (0, 0) of (start, len) \<Rightarrow>
     if len = 0 then separated (CHR '':'') (map hex_group gs)
     else separated (CHR '':'') (map hex_group (take start gs)) @ ''::''
       @ separated (CHR '':'') (map hex_group (drop (start + len) gs)))"

definition ip_text :: "net_ip \<Rightarrow> string" where
  "ip_text ip = (let bytes = elems ip in
     if bytes = [] then ''<nil>''
     else if length bytes \<noteq> 4 \<and> length bytes \<noteq> 16
     then CHR ''?'' # concat (map (\<lambda>b. [hex_digit (unat b div 16), hex_digit (unat b mod 16)]) bytes)
     else (case to4 bytes of
       Some p4 \<Rightarrow> separated (CHR ''.'') (map (\<lambda>b. dec_nat (unat b)) p4)
     | None \<Rightarrow> ip6_text (ip_groups bytes)))"

lemma ip_text_examples:
  "ip_text (Some (ipv4 169 254 0 10)) = ''169.254.0.10''"
  "ip_text (Some (ipv6 0 0 1)) = ''::1''" "ip_text (Some (ipv6 0xfe 0x80 0)) = ''fe80::''"
  "ip_text (Some [0x20, 1, 0x0d, 0xb8, 0, 0, 0, 0, 0, 1, 0, 0, 0, 0, 0, 0x1f]) = ''2001:db8::1:0:0:1f''"
  by (simp_all add: ip_text_def ip6_text_def ipv4_def ipv6_def to4_def v4_prefix_def hex_group_def hex_digit_def
      dec_nat.simps digit_def Let_def char_of_def bit_0 bit_1_iff)

text \<open>What a refused URL is answered with; the text of an error of the parser or the resolver is left out.\<close>

fun url_error_text :: "url_error \<Rightarrow> string" where
  "url_error_text InvalidURL = ''invalid URL''"
| "url_error_text (BadScheme s) = ''webhook URL must use https:// (got '' @ s
     @ ''); set ACB_ALLOW_HTTP_WEBHOOKS=1 for internal networks''"
| "url_error_text InvalidWebhookURL = ''invalid webhook URL''"
| "url_error_text DNSFailed = ''DNS resolution failed''"
| "url_error_text (SSRF host ip) = ''SSRF attempt blocked: '' @ host
     @ '' resolves to private/loopback IP '' @ ip_text ip"

subsection \<open>The HTTP client\<close>

text \<open>
  What the code sets of the client that posts webhooks: the time for a whole request, and no
  redirect is followed. The shorter time to connect is a function that nothing calls.
\<close>

record http_client =
  ClientTimeout :: time
  FollowsRedirects :: bool

definition NewSafeHTTPClient :: http_client where
  "NewSafeHTTPClient = \<lparr>ClientTimeout = 15, FollowsRedirects = False\<rparr>"

definition GetConnectTimeout :: time where
  "GetConnectTimeout = 5"

subsection \<open>What a valid URL is\<close>

lemma first_private_None: "first_private ips = None \<longleftrightarrow> (\<forall>ip \<in> set ips. \<not> isPrivateIP ip)"
  by (induction ips) auto

lemma run_pin_get [exec_simps]:
  "run_state (pin_get host) w = (case pin_ttls w host of
     Some expires \<Rightarrow> if now w < expires then pin_ips w host else None
   | None \<Rightarrow> None, w)"
  by (simp add: pin_get_def)

lemma run_pin_set [exec_simps]:
  "run_state (pin_set host ips ttl) w = ((), w\<lparr>pin_ips := (pin_ips w)(host := ips),
     pin_ttls := (pin_ttls w)(host := Some (now w + ttl))\<rparr>)"
  by (simp add: pin_set_def)

lemma issues_pins [steps_intros]: "issues u (pin_get host)" "issues u (pin_set host ips ttl)"
  by (simp_all add: issues_def exec_simps)

lemma issues_resolve_pinned [steps_intros]: "issues u (resolve_pinned x host)"
  unfolding resolve_pinned_def by (intro steps_intros)

lemma issues_ValidateWebhookURL [steps_intros]: "issues u (ValidateWebhookURL x url)"
  unfolding ValidateWebhookURL_def Let_def by (intro steps_intros)

text \<open>The resolution pins what it used, until the pin expires.\<close>

lemma resolve_pinned_Inr:
  assumes "run_state (resolve_pinned x host) w = (Inr ips, w')" and "ips \<noteq> []"
  shows "pin_ips w' host = Some ips \<and> (\<exists>e. pin_ttls w' host = Some e \<and> now w < e) \<and>
    db w' = db w \<and> now w' = now w"
  using assms
  by (auto simp: resolve_pinned_def exec_simps pin_ttl_def built_def split: option.splits if_splits)

lemma ValidateWebhookURL_Inr:
  assumes "run_state (ValidateWebhookURL x url) w = (Inr (), w')"
  shows "\<exists>sch host ips. parse_url x url = Some (sch, host) \<and> host \<noteq> [] \<and>
    (ascii_lower sch = ''https'' \<or> (ascii_lower sch = ''http'' \<and> allowHTTPWebhooks x)) \<and>
    run_state (resolve_pinned x host) w = (Inr ips, w') \<and> (\<forall>ip \<in> set ips. \<not> isPrivateIP ip)"
proof (cases "parse_url x url")
  case None
  with assms show ?thesis by (simp add: ValidateWebhookURL_def exec_simps)
next
  case (Some p)
  obtain sch host where p: "p = (sch, host)" by (cases p)
  obtain r w1 where r: "run_state (resolve_pinned x host) w = (r, w1)"
    by (cases "run_state (resolve_pinned x host) w")
  have ok: "ascii_lower sch = ''https'' \<or> (ascii_lower sch = ''http'' \<and> allowHTTPWebhooks x)"
    "host \<noteq> []"
    using assms Some p by (auto simp: ValidateWebhookURL_def exec_simps Let_def split: if_splits)
  with assms Some p r obtain ips where "r = Inr ips" "first_private ips = None" "w1 = w'"
    by (auto simp: ValidateWebhookURL_def exec_simps Let_def split: if_splits sum.splits option.splits)
  with ok Some p r show ?thesis by (auto simp: first_private_None)
qed

end
