(* ===== verification/Bus.thy ===== *)
theory Bus
  imports Statements "HOL-Library.AList"
begin

text \<open>
  The Redis side: \<^verbatim>\<open>internal/redis/events.go\<close> publishes the events of tasks on channels,
  and the dispatcher keeps its retry queues in Redis lists. A command to Redis fails like a
  statement does, by the next entry of \<open>faults\<close>.
\<close>

definition redis :: "(world \<Rightarrow> 'a \<times> world) \<Rightarrow> (world, 'a option) state" where
  "redis f = State (\<lambda>w. case faults w of
       [] \<Rightarrow> (case f w of (r, w') \<Rightarrow> (Some r, w'))
     | b # fs \<Rightarrow> if b then (None, w\<lparr>faults := fs\<rparr>)
         else (case f (w\<lparr>faults := fs\<rparr>) of (r, w') \<Rightarrow> (Some r, w')))"

lemma run_redis_ok [exec_simps]:
  "faults w = [] \<Longrightarrow> run_state (redis f) w = (Some (fst (f w)), snd (f w))"
  by (simp add: redis_def split: prod.split)

lemma issues_redis:
  assumes "\<And>w. db (snd (f w)) = db w"
  shows "issues u (redis f)"
proof -
  have "db (snd (run_state (redis f) w)) = db w" for w
    using assms [of "w\<lparr>faults := tl (faults w)\<rparr>"] assms [of w]
    by (cases "faults w") (simp_all add: redis_def case_prod_beta)
  then show ?thesis by (simp add: issues_def)
qed

subsection \<open>Lists\<close>

text \<open>A key whose list is empty does not exist.\<close>

definition rget :: "string \<Rightarrow> world \<Rightarrow> string list" where
  "rget k w = (case map_of (rlists w) k of None \<Rightarrow> [] | Some l \<Rightarrow> l)"

definition rput :: "string \<Rightarrow> string list \<Rightarrow> world \<Rightarrow> world" where
  "rput k l w = w\<lparr>rlists := (if l = [] then AList.delete k (rlists w) else AList.update k l (rlists w))\<rparr>"

text \<open>\<^verbatim>\<open>LTRIM key start stop\<close>, where a negative index counts from the end.\<close>

definition list_index :: "int \<Rightarrow> 'a list \<Rightarrow> int" where
  "list_index i l = (if i < 0 then max 0 (int (length l) + i) else i)"

definition trim_list :: "int \<Rightarrow> int \<Rightarrow> 'a list \<Rightarrow> 'a list" where
  "trim_list start stop l =
     (let a = list_index start l; b = (if stop < 0 then int (length l) + stop else stop) in
      if b < a \<or> int (length l) \<le> a then [] else take (nat (b - a + 1)) (drop (nat a) l))"

definition LTrim :: "string \<Rightarrow> int \<Rightarrow> int \<Rightarrow> (world, unit option) state" where
  "LTrim k start stop = redis (\<lambda>w. ((), rput k (trim_list start stop (rget k w)) w))"

definition RPush :: "string \<Rightarrow> string \<Rightarrow> (world, unit option) state" where
  "RPush k v = redis (\<lambda>w. ((), rput k (rget k w @ [v]) w))"

definition LPop :: "string \<Rightarrow> (world, string option option) state" where
  "LPop k = redis (\<lambda>w. case rget k w of [] \<Rightarrow> (None, w) | v # vs \<Rightarrow> (Some v, rput k vs w))"

definition Scan :: "string \<Rightarrow> (world, string list option) state" where
  "Scan pre = redis (\<lambda>w. (filter (\<lambda>k. take (length pre) k = pre) (map fst (rlists w)), w))"

lemma rget_rput [simp]: "rget k (rput k' l w) = (if k = k' then l else rget k w)"
  by (simp add: rget_def rput_def update_conv' delete_conv' split: option.split)

lemma rput_frame [simp]:
  "db (rput k l w) = db w" "now (rput k l w) = now w" "faults (rput k l w) = faults w"
  "jobs (rput k l w) = jobs w" "published (rput k l w) = published w" "posts (rput k l w) = posts w"
  "answers (rput k l w) = answers w"
  by (simp_all add: rput_def)

lemma rget_faults [simp]: "rget k (w\<lparr>faults := fs\<rparr>) = rget k w" "rget k (w\<lparr>db := d\<rparr>) = rget k w"
  by (simp_all add: rget_def)

lemma trim_last: "trim_list (- n) (- 1) l = drop (length l - nat n) l" if "0 < n"
  using that by (auto simp: trim_list_def list_index_def Let_def max_def nat_diff_distrib nat_add_distrib
      nat_int_add)

lemma issues_lists [steps_intros]:
  "issues u (LTrim k a b)" "issues u (RPush k v)" "issues u (LPop k)" "issues u (Scan p)"
  unfolding LTrim_def RPush_def LPop_def Scan_def
  by (auto intro!: issues_redis split: list.split)

subsection \<open>Publications\<close>

definition ev_new_task :: string where "ev_new_task = ''new_task''"
definition ev_claimed :: string where "ev_claimed = ''task_claimed''"
definition ev_started :: string where "ev_started = ''task_started''"
definition ev_blocked :: string where "ev_blocked = ''task_blocked''"
definition ev_unblock :: string where "ev_unblock = ''task_unblocked''"
definition ev_done :: string where "ev_done = ''task_completed''"
definition ev_failed :: string where "ev_failed = ''task_failed''"
definition ev_gate_answered :: string where "ev_gate_answered = ''gate_answered''"
definition ev_gate_approved :: string where "ev_gate_approved = ''gate_approved''"

lemmas event_defs = ev_new_task_def ev_claimed_def ev_started_def ev_blocked_def ev_unblock_def
  ev_done_def ev_failed_def ev_gate_answered_def ev_gate_approved_def

definition channel_prefix :: string where "channel_prefix = ''agent:''"
definition channel_pending :: string where "channel_pending = ''tasks:pending''"
definition channel_gates :: string where "channel_gates = ''tasks:gates''"

definition RouteChannels :: "string \<Rightarrow> string \<Rightarrow> string list" where
  "RouteChannels event ag =
    (if event = ev_new_task then
       [channel_pending] @ (if ag \<noteq> [] then [channel_prefix @ ag] else [])
     else if event = ev_claimed \<or> event = ev_started then
       (if ag \<noteq> [] then [channel_prefix @ ag] else [])
     else if event = ev_blocked \<or> event = ev_unblock \<or> event = ev_gate_answered \<or>
       event = ev_gate_approved then [channel_gates]
     else if event = ev_done \<or> event = ev_failed then
       (if ag \<noteq> [] then [channel_prefix @ ag] else [])
     else [])"

text \<open>The message, with the fields tagged \<^verbatim>\<open>omitempty\<close> left out when empty.\<close>

definition omit_empty :: "string \<Rightarrow> string \<Rightarrow> (string \<times> json) list" where
  "omit_empty k v = (if v = [] then [] else [(k, JStr v)])"

definition omit_empty_list :: "string \<Rightarrow> string list \<Rightarrow> (string \<times> json) list" where
  "omit_empty_list k vs = (if vs = [] then [] else [(k, JArr (map JStr vs))])"

definition event_json :: "string \<Rightarrow> string \<Rightarrow> string \<Rightarrow> string \<Rightarrow> string \<Rightarrow> string list \<Rightarrow> json" where
  "event_json event taskID ag gateID summary required =
     JObj ([(''event'', JStr event), (''task_id'', JStr taskID)] @ omit_empty ''agent'' ag
       @ omit_empty ''gate_id'' gateID @ omit_empty ''summary'' summary
       @ omit_empty_list ''required_skills'' required)"

definition publish :: "string \<Rightarrow> string \<Rightarrow> (world, unit option) state" where
  "publish channel data = redis (\<lambda>w. ((), w\<lparr>published := published w @ [(channel, data)]\<rparr>))"

fun publish_all :: "string list \<Rightarrow> string \<Rightarrow> (world, unit) state" where
  "publish_all [] data = State_Monad.return ()"
| "publish_all (c # cs) data = do {
     _ \<leftarrow> publish c data;
     publish_all cs data
   }"

text \<open>\<open>client\<close> says whether the publisher has a client; without one nothing is published.\<close>

definition PublishTaskEvent :: "bool \<Rightarrow> string \<Rightarrow> string \<Rightarrow> string \<Rightarrow> string \<Rightarrow> string \<Rightarrow> string slice \<Rightarrow>
    (world, unit) state" where
  "PublishTaskEvent client event taskID ag gateID summary required =
    (if \<not> client then State_Monad.return ()
     else publish_all (RouteChannels event ag)
       (json_text (event_json event taskID ag gateID summary (elems required))))"

lemma issues_publish [steps_intros]: "issues u (publish c d)"
  unfolding publish_def by (rule issues_redis) simp

lemma issues_publish_all [steps_intros]: "issues u (publish_all cs d)"
proof (induction cs)
  case Nil
  then show ?case by (simp add: steps_intros)
next
  case (Cons c cs)
  then show ?case unfolding publish_all.simps by (intro steps_intros)
qed

lemma issues_PublishTaskEvent [steps_intros]: "issues u (PublishTaskEvent b e t a g s r)"
  unfolding PublishTaskEvent_def by (intro steps_intros)

lemma publish_all_ok:
  "faults w = [] \<Longrightarrow> run_state (publish_all cs d) w =
     ((), w\<lparr>published := published w @ map (\<lambda>c. (c, d)) cs\<rparr>)"
  by (induction cs arbitrary: w) (simp_all add: exec_simps publish_def)

end
