(* ===== verification/Calendar.thy ===== *)
theory Calendar
  imports Times
begin

text \<open>
  The texts of clock readings: \<^verbatim>\<open>time.Now().UTC().Format(time.RFC3339)\<close>, as the dispatcher puts
  it into the notices it signs, by way of the Gregorian calendar, and its round trip through
  \<open>parseTime\<close>.
\<close>

subsection \<open>Clock readings in UTC\<close>

text \<open>
  The calendar of an instant, as package \<^verbatim>\<open>time\<close> finds it: whole periods of 400, 100, 4 and 1
  years are taken off the days since 0001-01-01, where the last century and the last year of a
  period may be a day longer, and then whole months.
\<close>

definition civil_year :: "int \<Rightarrow> int \<times> int" where
  "civil_year n = (let a = n div 146097; r = n mod 146097;
     b = min 3 (r div 36524); r1 = r - 36524 * b;
     c = r1 div 1461; r2 = r1 mod 1461;
     e = min 3 (r2 div 365)
   in (400 * a + 100 * b + 4 * c + e + 1, r2 - 365 * e))"

fun month_day :: "nat \<Rightarrow> nat list \<Rightarrow> nat \<Rightarrow> nat \<times> nat" where
  "month_day y [] k = (12, Suc k)"
| "month_day y (m # ms) k = (if k < days_in m y then (m, Suc k) else month_day y ms (k - days_in m y))"

definition utc_stamp :: "int \<Rightarrow> stamp" where
  "utc_stamp n = (case civil_year (n div 86400 + 719162) of (y, yday) \<Rightarrow>
     case month_day (nat y) [1..<13] (nat yday) of (m, d) \<Rightarrow> let s = nat (n mod 86400) in
       \<lparr>year = nat y, month = m, day = d, hour = s div 3600, minute = s div 60 mod 60, second = s mod 60,
        nanos = 0, zone = 0\<rparr>)"

text \<open>\<^verbatim>\<open>Format(time.RFC3339)\<close> of a reading in UTC, from the year 0 on.\<close>

definition year_text :: "nat \<Rightarrow> string" where
  "year_text y = (if y < 10000 then pad 4 y else dec_nat y)"

definition rfc3339 :: "int \<Rightarrow> string" where
  "rfc3339 n = (let t = utc_stamp n in
     year_text (year t) @ ''-'' @ pad 2 (month t) @ ''-'' @ pad 2 (day t) @ ''T'' @ clock_text t @ ''Z'')"

lemma month_day_sound:
  "m \<le> 13 \<Longrightarrow> k < (\<Sum>j\<leftarrow>[m..<13]. days_in j y) \<Longrightarrow> month_day y [m..<13] k = (m', d) \<Longrightarrow>
     m \<le> m' \<and> m' \<le> 12 \<and> 1 \<le> d \<and> d \<le> days_in m' y \<and> Suc k = (\<Sum>j\<leftarrow>[m..<m']. days_in j y) + d"
proof (induction m arbitrary: k rule: inc_induct)
  case (step m)
  have u: "[m..<13] = m # [Suc m..<13]" using step.hyps by (simp add: upt_rec)
  show ?case
  proof (cases "k < days_in m y")
    case True
    with step.prems u step.hyps show ?thesis by auto
  next
    case False
    with step.prems u have "k - days_in m y < (\<Sum>j\<leftarrow>[Suc m..<13]. days_in j y)"
      "month_day y [Suc m..<13] (k - days_in m y) = (m', d)" by auto
    from step.IH [OF this] False have *: "Suc m \<le> m'" "m' \<le> 12" "1 \<le> d" "d \<le> days_in m' y"
      "Suc (k - days_in m y) = (\<Sum>j\<leftarrow>[Suc m..<m']. days_in j y) + d" by auto
    moreover have "[m..<m'] = m # [Suc m..<m']" using *(1) by (simp add: upt_rec)
    ultimately show ?thesis using False by auto
  qed
qed simp

lemma year_days: "(\<Sum>j\<leftarrow>[1..<13]. days_in j y) = (if leap y then 366 else 365)"
  by (simp add: upt_rec days_in_def)

lemma civil_year_sound:
  assumes "civil_year n = (y, k)"
  shows "365 * (y - 1) + (y - 1) div 4 - (y - 1) div 100 + (y - 1) div 400 + k = n" "0 \<le> k"
    "k < 365 \<or> k = 365 \<and> y mod 4 = 0 \<and> (y mod 100 \<noteq> 0 \<or> y mod 400 = 0)"
    "0 \<le> n \<Longrightarrow> 1 \<le> y" "n < 3652059 \<Longrightarrow> y < 10000"
proof -
  define a r where "a = n div 146097" and "r = n mod 146097"
  define b where "b = min 3 (r div 36524)"
  define r1 where "r1 = r - 36524 * b"
  define c r2 where "c = r1 div 1461" and "r2 = r1 mod 1461"
  define e where "e = min 3 (r2 div 365)"
  have y: "y = 400 * a + 100 * b + 4 * c + e + 1" and k: "k = r2 - 365 * e"
    using assms by (simp_all add: civil_year_def Let_def a_def r_def b_def r1_def c_def r2_def e_def)
  have n: "n = 146097 * a + r" "0 \<le> r" "r < 146097" by (simp_all add: a_def r_def)
  have b: "0 \<le> b" "b \<le> 3" "0 \<le> r1" "r1 < 36524 \<or> b = 3 \<and> r1 = 36524"
    using n by (auto simp: b_def r1_def min_def) 
  have c: "r1 = 1461 * c + r2" "0 \<le> r2" "r2 < 1461" by (simp_all add: c_def r2_def)
  have c': "0 \<le> c" "c \<le> 24" "c = 24 \<Longrightarrow> r2 < 1460 \<or> b = 3 \<and> r2 = 1460" using c b by auto
  have e: "0 \<le> e" "e \<le> 3" "0 \<le> k" "k < 365 \<or> e = 3 \<and> r2 = 1460 \<and> k = 365"
    using c(2,3) by (auto simp: e_def k min_def)
  have d: "(y - 1) div 4 = 100 * a + 25 * b + c" "(y - 1) div 100 = 4 * a + b" "(y - 1) div 400 = a"
    using b c' e unfolding y by auto
  show "0 \<le> k" by (rule e)
  show "365 * (y - 1) + (y - 1) div 4 - (y - 1) div 100 + (y - 1) div 400 + k = n"
    unfolding d using n(1) c(1) by (simp add: y k r1_def)
  show "1 \<le> y" if "0 \<le> n" using that n b c' e by (auto simp: y)
  show "y < 10000" if "n < 3652059"
  proof (rule ccontr)
    assume "\<not> y < 10000"
    moreover have "a \<le> 24" using that n(1,2) by simp
    ultimately have "a = 24" "b = 3" "c = 24" "e = 3" using b(2) c'(2) e(2) by (auto simp: y)
    with that n(1) c(1) e(3) k show False by (simp add: r1_def)
  qed
  show "k < 365 \<or> k = 365 \<and> y mod 4 = 0 \<and> (y mod 100 \<noteq> 0 \<or> y mod 400 = 0)"
  proof (cases "k < 365")
    case False
    with e(4) have f: "e = 3" "r2 = 1460" "k = 365" by auto
    with c'(3) have "c \<noteq> 24 \<or> c = 24 \<and> b = 3" by auto
    moreover have "y mod 4 = 0" unfolding y f by (simp add: algebra_simps)
    moreover have "y mod 400 = 0" if "c = 24" "b = 3" using that unfolding y f by simp
    moreover have "y mod 100 \<noteq> 0" if "c \<noteq> 24"
    proof -
      have "y = (4 * c + 4) + 100 * (4 * a + b)" unfolding y f by simp
      then have "y mod 100 = (4 * c + 4) mod 100" by (simp only: mod_mult_self2)
      also have "\<dots> = 4 * c + 4" using that c' by (intro mod_pos_pos_trivial) auto
      finally have "y mod 100 = 4 * c + 4" .
      then show ?thesis using c'(1) by simp
    qed
    ultimately show ?thesis using f(3) by metis
  qed simp
qed

text \<open>The instants of the years 1 to 9999.\<close>

definition four_digit_years :: "int set" where
  "four_digit_years = {date_days 1 1 1 * 86400 ..< date_days 10000 1 1 * 86400}"

lemma utc_stamp_sound:
  assumes "n \<in> four_digit_years"
  shows "calendar (utc_stamp n)" "instant_of (utc_stamp n) = (n, 0)" "zone (utc_stamp n) = 0"
proof -
  obtain y k where c: "civil_year (n div 86400 + 719162) = (y, k)" by (cases "civil_year (n div 86400 + 719162)")
  note s = civil_year_sound [OF c]
  obtain m d where md: "month_day (nat y) [1..<13] (nat k) = (m, d)" by (cases "month_day (nat y) [1..<13] (nat k)")
  have "date_days 1 1 1 = - 719162" "date_days 10000 1 1 = 2932897"
    by (simp_all add: date_days_def)
  then have b: "0 \<le> n div 86400 + 719162" "n div 86400 + 719162 < 3652059"
    using assms by (auto simp: four_digit_years_def)
  have y: "1 \<le> y" "y < 10000" using s(4,5) b by auto
  have "nat y mod q = 0 \<longleftrightarrow> y mod int q = 0" for q
    using y by (cases y rule: int_cases2) (simp_all flip: of_nat_mod)
  from this [of 4] this [of 100] this [of 400]
  have "nat y mod 4 = 0 \<longleftrightarrow> y mod 4 = 0" "nat y mod 100 = 0 \<longleftrightarrow> y mod 100 = 0" "nat y mod 400 = 0 \<longleftrightarrow> y mod 400 = 0"
    by simp_all
  then have "leap (nat y) \<longleftrightarrow> y mod 4 = 0 \<and> (y mod 100 \<noteq> 0 \<or> y mod 400 = 0)" unfolding leap_def by (simp only:)
  with s(3) have "k < 365 \<or> k = 365 \<and> leap (nat y)" by (simp only:)
  then have l: "nat k < (\<Sum>j\<leftarrow>[1..<13]. days_in j (nat y))" using s(2) unfolding year_days by auto
  from month_day_sound [OF _ l md] have *: "1 \<le> m" "m \<le> 12" "1 \<le> d" "d \<le> days_in m (nat y)"
    "Suc (nat k) = (\<Sum>j\<leftarrow>[1..<m]. days_in j (nat y)) + d" by auto
  have t: "utc_stamp n = \<lparr>year = nat y, month = m, day = d, hour = nat (n mod 86400) div 3600,
      minute = nat (n mod 86400) div 60 mod 60, second = nat (n mod 86400) mod 60, nanos = 0, zone = 0\<rparr>"
    by (simp add: utc_stamp_def c md Let_def del: One_nat_def)
  show "zone (utc_stamp n) = 0" by (simp add: t)
  show "calendar (utc_stamp n)" using * y by (auto simp: t calendar_def)
  have "int (\<Sum>j\<leftarrow>[1..<m]. days_in j (nat y)) = (\<Sum>j\<leftarrow>[1..<m]. int (days_in j (nat y)))"
    by (induction m) auto
  with *(5) s(2) have "k + 1 = (\<Sum>j\<leftarrow>[1..<m]. int (days_in j (nat y))) + int d" by linarith
  with s(1) y have "date_days (nat y) m d = n div 86400"
    by (simp add: date_days_def Let_def)
  moreover have "s div 3600 * 3600 + s div 60 mod 60 * 60 + s mod 60 = s" for s :: nat
  proof -
    have "s div 3600 = s div 60 div 60" by (simp add: div_mult2_eq flip: mult_numeral_left)
    then show ?thesis using div_mult_mod_eq [of "s div 60" 60] div_mult_mod_eq [of s 60] by linarith
  qed
  from this [of "nat (n mod 86400)"] have "int (nat (n mod 86400) div 3600 * 3600 + nat (n mod 86400) div 60 mod 60 * 60 + nat (n mod 86400) mod 60) = n mod 86400"
    by simp
  ultimately show "instant_of (utc_stamp n) = (n, 0)"
    by (simp add: t instant_of_def)
qed

text \<open>
  The timestamp of a notice is the text of its second: the code's own reader of timestamps gives it
  back, so that two readings have the same text only when they are the same.
\<close>

lemma rfc3339_driver_text: "n \<in> four_digit_years \<Longrightarrow> rfc3339 n = driver_text (utc_stamp n)"
proof -
  assume n: "n \<in> four_digit_years"
  have "nanos (utc_stamp n) = 0" using utc_stamp_sound(2) [OF n] by (simp add: instant_of_def)
  with utc_stamp_sound(1,3) [OF n] show ?thesis
    by (simp add: rfc3339_def driver_text_def date_text_def year_text_def calendar_def zone_text_def frac_text_def Let_def)
qed

lemma rfc3339_read: "n \<in> four_digit_years \<Longrightarrow> parseTime (rfc3339 n) = (n, 0)"
  using utc_stamp_sound [of n] by (simp add: rfc3339_driver_text parseTime_driver_text)

lemma rfc3339_inj: "inj_on rfc3339 four_digit_years"
  by (rule inj_onI) (metis rfc3339_read fst_conv)

lemma rfc3339_example: "rfc3339 1772335799 = ''2026-03-01T03:29:59Z''"
  by (simp add: rfc3339_def utc_stamp_def civil_year_def days_in_def leap_def upt_rec year_text_def text_values)

end
