(* ===== verification/Dispatcher.thy ===== *)
theory Dispatcher
  imports TaskRepo AgentRepo Validator Bus Calendar
begin

text \<open>
  \<^verbatim>\<open>internal/dispatcher/dispatcher.go\<close>: webhooks to the agents, the retry queues, and the
  choice of the next task for a polling agent. A goroutine runs as one operation here; the
  semaphore, which only bounds how many run at a time, is left out. \<open>rdb\<close> says whether there
  is a Redis client.
\<close>

definition retry_queue_prefix :: string where "retry_queue_prefix = ''acb:retry:''"
definition maxRetries :: int where "maxRetries = 5"
definition maxRetryQueueSize :: int where "maxRetryQueueSize = 1000"

subsection \<open>The body of a webhook\<close>

definition slice_json :: "string slice \<Rightarrow> json" where
  "slice_json s = (case s of None \<Rightarrow> JNull | Some xs \<Rightarrow> JArr (map JStr xs))"

definition task_json :: "extern \<Rightarrow> task \<Rightarrow> json" where
  "task_json x t = JObj (
     [(''id'', JStr (ID t)), (''title'', JStr (Title t)), (''assignee'', JStr (Assignee t)),
      (''status'', JStr (Status t)), (''priority'', JNum (Priority t)),
      (''parents'', slice_json (Parents t))]
     @ omit_empty_list ''skills'' (elems (Skills t))
     @ omit_empty_list ''required_skills'' (elems (RequiredSkills t))
     @ omit_empty_list ''tags'' (elems (Tags t))
     @ [(''body_goal'', JStr (BodyGoal t)), (''body_context'', JStr (BodyContext t)),
        (''body_deliverable_format'', JStr (BodyDeliverableFmt t)),
        (''body_deliverable_path'', JStr (BodyDeliverablePath t)),
        (''created_at'', JStr (json_time x (CreatedAt t))),
        (''updated_at'', JStr (json_time x (UpdatedAt t))), (''summary'', JStr (Summary t)),
        (''artifacts'', (case Artifacts t of None \<Rightarrow> JNull | Some l \<Rightarrow> JArr (map artifact_json l)))]
     @ (case LastHeartbeat t of None \<Rightarrow> [] | Some h \<Rightarrow> [(''last_heartbeat'', JStr (json_time x h))])
     @ [(''max_retries'', JNum (MaxRetries t)), (''retry_count'', JNum (RetryCount t))])"

definition payload_json :: "extern \<Rightarrow> string \<Rightarrow> task \<Rightarrow> string \<Rightarrow> string \<Rightarrow> string \<Rightarrow> json" where
  "payload_json x action t timestamp old new = JObj (
     [(''action'', JStr action), (''task'', task_json x t), (''timestamp'', JStr timestamp)]
     @ omit_empty ''old_status'' old @ omit_empty ''new_status'' new)"

text \<open>
  The request both senders build: none when it cannot be created or the secret not decrypted.
\<close>

definition webhook_request :: "extern \<Rightarrow> agent \<Rightarrow> string \<Rightarrow> task \<Rightarrow> string \<Rightarrow> string \<Rightarrow> time \<Rightarrow>
    http_post option" where
  "webhook_request x ag action t old new n =
    (let timestamp = rfc3339 n; body = json_text (payload_json x action t timestamp old new);
         headers = [(''Content-Type'', ''application/json''), (''X-Webhook-Timestamp'', timestamp)] in
     if parse_url x (AgWebhookURL ag) = None then None
     else if AgWebhookSecret ag \<noteq> [] then
       (case DecryptWebhookSecret x (AgWebhookSecret ag) of
          Inl e \<Rightarrow> None
        | Inr secret \<Rightarrow> Some \<lparr>PostURL = AgWebhookURL ag,
            PostHeaders = headers @ [(''X-Webhook-Signature'', hmac_hex x secret (timestamp @ ''.'' @ body))],
            PostBody = body\<rparr>)
     else Some \<lparr>PostURL = AgWebhookURL ag, PostHeaders = headers, PostBody = body\<rparr>)"

definition http_do :: "http_post \<Rightarrow> (world, int option) state" where
  "http_do p = State (\<lambda>w. (case answers w of [] \<Rightarrow> None | a # _ \<Rightarrow> a,
     w\<lparr>posts := posts w @ [p], answers := tl (answers w)\<rparr>))"

definition sendStatusWebhook :: "extern \<Rightarrow> agent \<Rightarrow> task \<Rightarrow> string \<Rightarrow> string \<Rightarrow> string \<Rightarrow>
    (world, unit) state" where
  "sendStatusWebhook x ag t old new action = do {
     v \<leftarrow> ValidateWebhookURL x (AgWebhookURL ag);
     case v of
       Inl e \<Rightarrow> State_Monad.return ()
     | Inr _ \<Rightarrow> do {
         w \<leftarrow> State_Monad.get;
         case webhook_request x ag action t old new (now w) of
           None \<Rightarrow> State_Monad.return ()
         | Some p \<Rightarrow> do {
             _ \<leftarrow> http_do p;
             State_Monad.return ()
           }
       }
   }"

subsection \<open>The retry queue\<close>

record retry_entry =
  RTask :: string
  RAgent :: string
  RAttempt :: int

definition entry_json :: "retry_entry \<Rightarrow> json" where
  "entry_json e = JObj [(''task_id'', JStr (RTask e)), (''agent_name'', JStr (RAgent e)),
     (''attempt'', JNum (RAttempt e))]"

text \<open>Only \<open>enqueueRetry\<close> writes entries, with these keys in this case.\<close>

definition parse_entry :: "string \<Rightarrow> retry_entry option" where
  "parse_entry data = (case json_parse data of
     Some (JObj fs) \<Rightarrow>
       (case (field_string (map_of fs ''task_id''), field_string (map_of fs ''agent_name''),
              field_int (map_of fs ''attempt'')) of
          (Some t, Some a, Some n) \<Rightarrow> Some \<lparr>RTask = t, RAgent = a, RAttempt = n\<rparr>
        | _ \<Rightarrow> None)
   | Some JNull \<Rightarrow> Some \<lparr>RTask = [], RAgent = [], RAttempt = 0\<rparr>
   | _ \<Rightarrow> None)"

definition enqueueRetry :: "bool \<Rightarrow> string \<Rightarrow> string \<Rightarrow> int \<Rightarrow> (world, unit) state" where
  "enqueueRetry rdb agentName taskID attempt = (if \<not> rdb then State_Monad.return () else
     (let data = json_text (entry_json \<lparr>RTask = taskID, RAgent = agentName, RAttempt = attempt + 1\<rparr>);
          key = retry_queue_prefix @ agentName in do {
        _ \<leftarrow> LTrim key (- (maxRetryQueueSize - 1)) (- 1);
        _ \<leftarrow> RPush key data;
        State_Monad.return ()
      }))"

definition sendWebhook :: "extern \<Rightarrow> bool \<Rightarrow> agent \<Rightarrow> task \<Rightarrow> int \<Rightarrow> (world, unit) state" where
  "sendWebhook x rdb ag t attempt = do {
     v \<leftarrow> ValidateWebhookURL x (AgWebhookURL ag);
     case v of
       Inl e \<Rightarrow> State_Monad.return ()
     | Inr _ \<Rightarrow> do {
         w \<leftarrow> State_Monad.get;
         case webhook_request x ag ''new_task'' t [] [] (now w) of
           None \<Rightarrow> State_Monad.return ()
         | Some p \<Rightarrow> do {
             resp \<leftarrow> http_do p;
             case resp of
               None \<Rightarrow> enqueueRetry rdb (AgName ag) (ID t) attempt
             | Some code \<Rightarrow> if 300 \<le> code then enqueueRetry rdb (AgName ag) (ID t) attempt
                 else State_Monad.return ()
           }
       }
   }"

text \<open>\<^verbatim>\<open>1 << uint(attempt)\<close>, a 64-bit shift whose count reads a negative number as a huge one.\<close>

definition shift_one :: "int \<Rightarrow> int" where
  "shift_one a = (if a < 0 then 0 else sint (push_bit (nat a) (1 :: 64 word)))"

definition backoff :: "int \<Rightarrow> time" where
  "backoff attempt = (let s = shift_one attempt in if 30 < s then 30 else s)"

definition sleep :: "time \<Rightarrow> (world, unit) state" where
  "sleep n = State (\<lambda>w. ((), w\<lparr>now := now w + n\<rparr>))"

definition retryEntry :: "extern \<Rightarrow> bool \<Rightarrow> string \<Rightarrow> (world, unit) state" where
  "retryEntry x rdb data = (case parse_entry data of
     None \<Rightarrow> State_Monad.return ()
   | Some entry \<Rightarrow>
       if maxRetries \<le> RAttempt entry then State_Monad.return ()
       else do {
         sleep (backoff (RAttempt entry));
         r \<leftarrow> GetByID (RTask entry);
         case r of
           Inl e \<Rightarrow> State_Monad.return ()
         | Inr None \<Rightarrow> State_Monad.return ()
         | Inr (Some t) \<Rightarrow>
             if Status t \<noteq> st_pending \<and> Status t \<noteq> st_claimed then State_Monad.return ()
             else do {
               a \<leftarrow> GetByName (RAgent entry);
               case a of
                 Inl e \<Rightarrow> State_Monad.return ()
               | Inr None \<Rightarrow> State_Monad.return ()
               | Inr (Some ag) \<Rightarrow>
                   if AgWebhookURL ag = [] then State_Monad.return ()
                   else sendWebhook x rdb ag t (RAttempt entry)
             }
       })"

text \<open>The goroutine of one queue: pop and retry until the pop fails; \<open>drain_weight\<close> bounds it.\<close>

fun drain :: "nat \<Rightarrow> extern \<Rightarrow> bool \<Rightarrow> string \<Rightarrow> (world, unit) state" where
  "drain 0 x rdb key = State_Monad.return ()"
| "drain (Suc n) x rdb key = do {
     r \<leftarrow> LPop key;
     case r of
       None \<Rightarrow> State_Monad.return ()
     | Some None \<Rightarrow> State_Monad.return ()
     | Some (Some data) \<Rightarrow> do {
         retryEntry x rdb data;
         drain n x rdb key
       }
   }"

fun go_all :: "job list \<Rightarrow> (world, unit) state" where
  "go_all [] = State_Monad.return ()"
| "go_all (j # js) = do { go j; go_all js }"

definition processAllRetryQueues :: "(world, unit) state" where
  "processAllRetryQueues = do {
     r \<leftarrow> Scan retry_queue_prefix;
     case r of
       None \<Rightarrow> State_Monad.return ()
     | Some keys \<Rightarrow> go_all (map DrainQueue keys)
   }"

subsection \<open>Dispatch\<close>

fun parents_done :: "string list \<Rightarrow> (world, bool) state" where
  "parents_done [] = State_Monad.return True"
| "parents_done (parentID # rest) = do {
     r \<leftarrow> GetByID parentID;
     case r of
       Inl e \<Rightarrow> State_Monad.return False
     | Inr None \<Rightarrow> State_Monad.return False
     | Inr (Some p) \<Rightarrow> if Status p \<noteq> st_completed then State_Monad.return False
         else parents_done rest
   }"

definition DispatchNewTask :: "task option \<Rightarrow> (world, repo_error + unit) state" where
  "DispatchNewTask tp = (case tp of
     None \<Rightarrow> State_Monad.return (Inl NilDeref)
   | Some t \<Rightarrow> do {
       done \<leftarrow> parents_done (elems (Parents t));
       if \<not> done then State_Monad.return (Inr ()) else do {
         r \<leftarrow> FindMatchingAgents (elems (RequiredSkills t));
         case r of
           Inl e \<Rightarrow> State_Monad.return (Inr ())
         | Inr ags \<Rightarrow> do {
             go_all (map (\<lambda>ag. SendWebhook ag t 0)
               (filter (\<lambda>ag. AgWebhookURL ag \<noteq> []) (elems ags)));
             State_Monad.return (Inr ())
           }
       }
     })"

definition NotifyStatusChange :: "task \<Rightarrow> string \<Rightarrow> string \<Rightarrow> string \<Rightarrow> (world, unit) state" where
  "NotifyStatusChange t old new action =
    (if Assignee t = [] then State_Monad.return () else do {
       r \<leftarrow> GetByName (Assignee t);
       case r of
         Inl e \<Rightarrow> State_Monad.return ()
       | Inr None \<Rightarrow> State_Monad.return ()
       | Inr (Some ag) \<Rightarrow> if AgWebhookURL ag = [] then State_Monad.return ()
           else go (SendStatus ag t old new action)
     })"

subsection \<open>The next task for an agent\<close>

fun filter_matching :: "agent \<Rightarrow> task list \<Rightarrow> (world, task list) state" where
  "filter_matching ag [] = State_Monad.return []"
| "filter_matching ag (t # ts) = do {
     ok \<leftarrow> (if elems (Parents t) = [] then State_Monad.return True else do {
         r \<leftarrow> AreParentsCompleted (elems (Parents t));
         State_Monad.return (case r of Inl e \<Rightarrow> False | Inr done \<Rightarrow> done)
       });
     rest \<leftarrow> filter_matching ag ts;
     State_Monad.return (if ok \<and> (elems (RequiredSkills t) = [] \<or>
         has_all_skills (elems (RequiredSkills t)) (elems (AgSkills ag))) then t # rest else rest)
   }"

fun best_task :: "task \<Rightarrow> task list \<Rightarrow> task" where
  "best_task best [] = best"
| "best_task best (t # ts) = (if Priority t < Priority best then best_task t ts else best_task best ts)"

definition FindNextForAgent :: "string \<Rightarrow> (world, repo_error + task option) state" where
  "FindNextForAgent agentName = do {
     a \<leftarrow> GetByName agentName;
     case a of
       Inl e \<Rightarrow> State_Monad.return (Inl (DbError ''get agent''))
     | Inr None \<Rightarrow> State_Monad.return (Inr None)
     | Inr (Some ag) \<Rightarrow> do {
         ts \<leftarrow> List st_pending [] [];
         case ts of
           Inl e \<Rightarrow> State_Monad.return (Inl (DbError ''list pending tasks''))
         | Inr pend \<Rightarrow>
             if elems pend = [] then State_Monad.return (Inr None)
             else do {
               matching \<leftarrow> filter_matching ag (elems pend);
               State_Monad.return (case matching of
                 [] \<Rightarrow> Inr None
               | m # ms \<Rightarrow> Inr (Some (best_task m ms)))
             }
       }
   }"

subsection \<open>Writes\<close>

lemma issues_http_do [steps_intros]: "issues u (http_do p)"
  by (simp add: issues_def http_do_def)

lemma issues_sleep [steps_intros]: "issues u (sleep n)"
  by (simp add: issues_def sleep_def)

lemma issues_sendStatusWebhook [steps_intros]: "issues u (sendStatusWebhook x ag t old new action)"
  unfolding sendStatusWebhook_def by (intro steps_intros)

lemma issues_enqueueRetry [steps_intros]: "issues u (enqueueRetry rdb ag i n)"
  unfolding enqueueRetry_def Let_def by (intro steps_intros)

lemma issues_sendWebhook [steps_intros]: "issues u (sendWebhook x rdb ag t n)"
  unfolding sendWebhook_def by (intro steps_intros)

lemma issues_retryEntry [steps_intros]: "issues u (retryEntry x rdb data)"
  unfolding retryEntry_def by (intro steps_intros)

lemma issues_drain [steps_intros]: "issues u (drain n x rdb key)"
proof (induction n)
  case 0
  then show ?case by (simp add: steps_intros)
next
  case (Suc n)
  then show ?case unfolding drain.simps by (intro steps_intros)
qed

lemma issues_go_all [steps_intros]: "issues u (go_all js)"
proof (induction js)
  case Nil
  then show ?case by (simp add: steps_intros)
next
  case (Cons j js)
  then show ?case unfolding go_all.simps by (intro steps_intros)
qed

lemma issues_processAllRetryQueues [steps_intros]: "issues u processAllRetryQueues"
  unfolding processAllRetryQueues_def by (intro steps_intros)

lemma issues_parents_done [steps_intros]: "issues u (parents_done ps)"
proof (induction ps)
  case Nil
  then show ?case by (simp add: steps_intros)
next
  case (Cons p ps)
  then show ?case unfolding parents_done.simps by (intro steps_intros)
qed

lemma issues_DispatchNewTask [steps_intros]: "issues u (DispatchNewTask t)"
  unfolding DispatchNewTask_def by (intro steps_intros)

lemma issues_NotifyStatusChange [steps_intros]: "issues u (NotifyStatusChange t old new action)"
  unfolding NotifyStatusChange_def by (intro steps_intros)

lemma issues_filter_matching [steps_intros]: "issues u (filter_matching ag ts)"
proof (induction ts)
  case Nil
  then show ?case by (simp add: steps_intros)
next
  case (Cons t ts)
  then show ?case unfolding filter_matching.simps by (intro steps_intros)
qed

lemma issues_FindNextForAgent [steps_intros]: "issues u (FindNextForAgent name)"
  unfolding FindNextForAgent_def by (intro steps_intros)

subsection \<open>Retries\<close>

lemma parse_entry_json [simp]: "parse_entry (json_text (entry_json e)) = Some e"
  by (simp add: parse_entry_def json_parse_text entry_json_def del: json_text.simps)

lemma shift_one_values:
  "shift_one 0 = 1" "shift_one 1 = 2" "shift_one 2 = 4" "shift_one 3 = 8" "shift_one 4 = 16"
  by code_simp+

text \<open>The attempts that are retried are 1 to 4, so the cap of 30 seconds is never reached.\<close>

lemma backoff_values:
  assumes "1 \<le> a" and "a < maxRetries"
  shows "backoff a = 2 ^ nat a" "backoff a \<le> 16"
proof -
  from assms have "a = 1 \<or> a = 2 \<or> a = 3 \<or> a = 4" by (auto simp: maxRetries_def)
  then show "backoff a = 2 ^ nat a" "backoff a \<le> 16"
    by (auto simp: backoff_def shift_one_values Let_def)
qed

end
