(* ===== verification/Config.thy ===== *)
theory Config
  imports Crypto
begin

text \<open>
  \<^verbatim>\<open>internal/config/config.go\<close>: the configuration read from the environment and the
  catalogs of skills and tags. A nil receiver is the configuration that is not there.
\<close>

subsection \<open>The parts of package strconv and package strings it uses\<close>

definition decimal :: "string \<Rightarrow> int option" where
  "decimal s = (if s \<noteq> [] \<and> list_all is_digit s then Some (int (undec s)) else None)"

text \<open>\<^verbatim>\<open>strconv.Atoi\<close> on a 64-bit machine, and \<^verbatim>\<open>ParseInt(s, 10, 64)\<close>, which agrees with it.\<close>

definition atoi :: "string \<Rightarrow> int option" where
  "atoi s = (let v = (case s of
       [] \<Rightarrow> None
     | c # cs \<Rightarrow> if c = CHR ''-'' then map_option uminus (decimal cs)
         else if c = CHR ''+'' then decimal cs else decimal s)
   in case v of None \<Rightarrow> None | Some i \<Rightarrow> if - (2 ^ 63) \<le> i \<and> i < 2 ^ 63 then Some i else None)"

fun split_comma :: "string \<Rightarrow> string list" where
  "split_comma [] = [[]]"
| "split_comma (c # cs) = (if c = CHR '','' then [] # split_comma cs
     else (case split_comma cs of [] \<Rightarrow> [[c]] | p # ps \<Rightarrow> (c # p) # ps))"

text \<open>The UTF-8 encodings of the characters \<^verbatim>\<open>unicode.IsSpace\<close> accepts.\<close>

definition spaces :: "string list" where
  "spaces = [[CHR 0x09], [CHR 0x0A], [CHR 0x0B], [CHR 0x0C], [CHR 0x0D], [CHR '' ''],
     [CHR 0xC2, CHR 0x85], [CHR 0xC2, CHR 0xA0], [CHR 0xE1, CHR 0x9A, CHR 0x80],
     [CHR 0xE2, CHR 0x80, CHR 0x80], [CHR 0xE2, CHR 0x80, CHR 0x81], [CHR 0xE2, CHR 0x80, CHR 0x82],
     [CHR 0xE2, CHR 0x80, CHR 0x83], [CHR 0xE2, CHR 0x80, CHR 0x84], [CHR 0xE2, CHR 0x80, CHR 0x85],
     [CHR 0xE2, CHR 0x80, CHR 0x86], [CHR 0xE2, CHR 0x80, CHR 0x87], [CHR 0xE2, CHR 0x80, CHR 0x88],
     [CHR 0xE2, CHR 0x80, CHR 0x89], [CHR 0xE2, CHR 0x80, CHR 0x8A], [CHR 0xE2, CHR 0x80, CHR 0xA8],
     [CHR 0xE2, CHR 0x80, CHR 0xA9], [CHR 0xE2, CHR 0x80, CHR 0xAF], [CHR 0xE2, CHR 0x81, CHR 0x9F],
     [CHR 0xE3, CHR 0x80, CHR 0x80]]"

definition starts_with :: "string \<Rightarrow> string \<Rightarrow> bool" where
  "starts_with p s \<longleftrightarrow> take (length p) s = p"

text \<open>Drop what the list of encodings matches, at most \<open>n\<close> times; \<open>length s\<close> is always enough.\<close>

fun skip_encodings :: "nat \<Rightarrow> string list \<Rightarrow> string \<Rightarrow> string" where
  "skip_encodings 0 ps s = s"
| "skip_encodings (Suc n) ps s = (case find (\<lambda>p. starts_with p s) ps of
     None \<Rightarrow> s | Some p \<Rightarrow> skip_encodings n ps (drop (length p) s))"

definition trim_space :: "string \<Rightarrow> string" where
  "trim_space s = (let l = skip_encodings (length s) spaces s
     in rev (skip_encodings (length l) (map rev spaces) (rev l)))"

subsection \<open>The environment\<close>

definition getEnv :: "extern \<Rightarrow> string \<Rightarrow> string \<Rightarrow> string" where
  "getEnv x key fallback = (if getenv x key \<noteq> [] then getenv x key else fallback)"

definition getEnvInt :: "extern \<Rightarrow> string \<Rightarrow> int \<Rightarrow> int" where
  "getEnvInt x key fallback = (let v = getenv x key in
     if v \<noteq> [] then (case atoi v of Some i \<Rightarrow> i | None \<Rightarrow> fallback) else fallback)"

definition getEnvList :: "extern \<Rightarrow> string \<Rightarrow> string \<Rightarrow> string slice" where
  "getEnvList x key fallback = (let v = getenv x key; v = (if v = [] then fallback else v) in
     if v = [] then None
     else Some (filter (\<lambda>p. p \<noteq> []) (map trim_space (split_comma v))))"

record config =
  Port :: int
  PGHost :: string
  PGPort :: int
  PGUser :: string
  PGPassword :: string
  PGDatabase :: string
  RedisAddr :: string
  RedisPass :: string
  RustFSEndpoint :: string
  RustFSBucket :: string
  RustFSRegion :: string
  RustFSAccessKey :: string
  RustFSSecretKey :: string
  LogLevel :: string
  ArtifactTTLDays :: int
  MaxUploadSizeMB :: int
  PendingTimeoutMin :: int
  PendingTimeoutCheckSec :: int
  TaskTimeoutMin :: int
  TaskTimeoutCheckSec :: int
  AgentStaleMin :: int
  AgentStaleCheckSec :: int
  AllowedSkills :: "string slice"
  AllowedTags :: "string slice"

definition default_skills :: string where
  "default_skills = ''coding,review,testing,architecture,devops,security,infra,debugging,documentation,osint,hacking,forensics,go,python,orchestration,dispatch,management''"

definition Load :: "extern \<Rightarrow> config" where
  "Load x = \<lparr>Port = getEnvInt x ''ACB_PORT'' 8090, PGHost = getEnv x ''ACB_PG_HOST'' ''localhost'',
     PGPort = getEnvInt x ''ACB_PG_PORT'' 5433, PGUser = getEnv x ''ACB_PG_USER'' ''acb'',
     PGPassword = getEnv x ''ACB_PG_PASSWORD'' [], PGDatabase = getEnv x ''ACB_PG_DATABASE'' ''acb'',
     RedisAddr = getEnv x ''ACB_REDIS_ADDR'' ''localhost:6379'',
     RedisPass = getEnv x ''ACB_REDIS_PASS'' [],
     RustFSEndpoint = getEnv x ''ACB_RUSTFS_ENDPOINT'' ''localhost:8085'',
     RustFSBucket = getEnv x ''ACB_RUSTFS_BUCKET'' ''acb-artifacts'',
     RustFSRegion = getEnv x ''ACB_RUSTFS_REGION'' (getEnv x ''RUSTFS_REGION'' ''us-east-1''),
     RustFSAccessKey = getEnv x ''RUSTFS_ACCESS_KEY_ID'' [],
     RustFSSecretKey = getEnv x ''RUSTFS_SECRET_ACCESS_KEY'' [],
     LogLevel = getEnv x ''ACB_LOG_LEVEL'' ''info'',
     ArtifactTTLDays = getEnvInt x ''ACB_ARTIFACT_TTL_DAYS'' 30,
     MaxUploadSizeMB = getEnvInt x ''ACB_MAX_UPLOAD_SIZE_MB'' 32,
     PendingTimeoutMin = getEnvInt x ''ACB_PENDING_TIMEOUT_MIN'' 15,
     PendingTimeoutCheckSec = getEnvInt x ''ACB_PENDING_TIMEOUT_CHECK_SEC'' 60,
     TaskTimeoutMin = getEnvInt x ''ACB_TASK_TIMEOUT_MIN'' 30,
     TaskTimeoutCheckSec = getEnvInt x ''ACB_TASK_TIMEOUT_CHECK_SEC'' 60,
     AgentStaleMin = getEnvInt x ''ACB_AGENT_STALE_MIN'' 10,
     AgentStaleCheckSec = getEnvInt x ''ACB_AGENT_STALE_CHECK_SEC'' 60,
     AllowedSkills = getEnvList x ''ACB_ALLOWED_SKILLS'' default_skills,
     AllowedTags = getEnvList x ''ACB_ALLOWED_TAGS'' []\<rparr>"

subsection \<open>The catalogs\<close>

definition IsValidSkill :: "config option \<Rightarrow> string \<Rightarrow> bool" where
  "IsValidSkill c skill = (case c of
     None \<Rightarrow> True
   | Some cfg \<Rightarrow> if elems (AllowedSkills cfg) = [] then True
       else has_skill skill (elems (AllowedSkills cfg)))"

definition ValidateSkills :: "config option \<Rightarrow> string list \<Rightarrow> string list" where
  "ValidateSkills c skills = filter (\<lambda>s. \<not> IsValidSkill c s) skills"

definition IsValidTag :: "config option \<Rightarrow> string \<Rightarrow> bool" where
  "IsValidTag c tag = (case c of
     None \<Rightarrow> True
   | Some cfg \<Rightarrow> if elems (AllowedTags cfg) = [] then True
       else has_skill tag (elems (AllowedTags cfg)))"

definition ValidateTags :: "config option \<Rightarrow> string list \<Rightarrow> string list" where
  "ValidateTags c tags = filter (\<lambda>t. \<not> IsValidTag c t) tags"

lemma ValidateSkills_nil:
  "ValidateSkills (Some cfg) ss = [] \<longleftrightarrow>
     elems (AllowedSkills cfg) = [] \<or> set ss \<subseteq> set (elems (AllowedSkills cfg))"
  by (auto simp: ValidateSkills_def IsValidSkill_def filter_empty_conv)

lemma ValidateTags_nil:
  "ValidateTags (Some cfg) ts = [] \<longleftrightarrow>
     elems (AllowedTags cfg) = [] \<or> set ts \<subseteq> set (elems (AllowedTags cfg))"
  by (auto simp: ValidateTags_def IsValidTag_def filter_empty_conv)

subsection \<open>Printing and reading numbers\<close>

lemma decimal_dec_nat: "decimal (dec_nat n) = Some (int n)"
  using dec_nat_digits [of n] by (simp add: decimal_def list_all_iff)

lemma atoi_dec_int:
  assumes "- (2 ^ 63) \<le> i" and "i < 2 ^ 63"
  shows "atoi (dec_int i) = Some i"
proof (cases "i < 0")
  case True
  with assms show ?thesis by (simp add: atoi_def dec_int_def decimal_dec_nat)
next
  case False
  obtain c cs where d: "dec_nat (nat i) = c # cs" by (meson dec_nat_nonempty neq_Nil_conv)
  then have "is_digit c" using dec_nat_digits [of "nat i"] by simp
  then have "c \<noteq> CHR ''-''" "c \<noteq> CHR ''+''" by (auto simp: is_digit_def)
  with False assms d decimal_dec_nat [of "nat i"] show ?thesis
    by (simp add: atoi_def dec_int_def)
qed

lemma atoi_bounds: "atoi s = Some i \<Longrightarrow> - (2 ^ 63) \<le> i \<and> i < 2 ^ 63"
  by (auto simp: atoi_def Let_def split: option.splits if_splits)

end
