(* ===== verification/Http.thy ===== *)
theory Http
  imports Dispatcher GateRepo Config
begin

text \<open>
  \<^verbatim>\<open>internal/api/response.go\<close> and \<^verbatim>\<open>middleware.go\<close>: the responses of the handlers. The
  body is the value handed to \<^verbatim>\<open>WriteJSON\<close>. A panic in a handler is the 500 response that
  \<open>PanicRecovery\<close> writes; every response leaves with the JSON content type.
\<close>

datatype body =
    ErrorBody string string
  | ConflictBody string string string
  | TaskBody "task option"
  | TasksBody "task list"
  | EventsBody "task_event list"
  | GatesBody "gate list"
  | GraphBody task_graph
  | TextBody "(string \<times> string) list"
  | AgentBody agent
  | CursorBody "int option"
  | ArtifactBody artifact
  | ArtifactsBody "artifact list"
  | DataBody string int string
  | DashboardBody task_counts "(string \<times> task list) list" int int
  | HealthBody string "(string \<times> string) list"
  | NoBody

record response =
  RStatus :: int
  RBody :: body

definition WriteJSON :: "int \<Rightarrow> body \<Rightarrow> response" where
  "WriteJSON status data = \<lparr>RStatus = status, RBody = data\<rparr>"

definition WriteError :: "int \<Rightarrow> string \<Rightarrow> string \<Rightarrow> response" where
  "WriteError status code message = WriteJSON status (ErrorBody code message)"

definition WriteErrorSafe :: "int \<Rightarrow> string \<Rightarrow> response" where
  "WriteErrorSafe status code = WriteError status code ''internal server error''"

definition WriteConflict :: "string \<Rightarrow> string \<Rightarrow> string \<Rightarrow> response" where
  "WriteConflict code message current = WriteJSON 409 (ConflictBody code message current)"

definition PanicRecovery :: response where
  "PanicRecovery = WriteError 500 ''internal_error'' ''unexpected error''"

text \<open>
  What the handlers of the transitions answer to an error of the repository: a conflict with
  the current status, or 409 for any other error.
\<close>

definition transition_error :: "string \<Rightarrow> repo_error \<Rightarrow> response" where
  "transition_error code e = (case e of
     ConflictError current msg \<Rightarrow> WriteConflict code msg current
   | NilDeref \<Rightarrow> PanicRecovery
   | _ \<Rightarrow> WriteErrorSafe 409 code)"

definition reply :: "response \<Rightarrow> (world, response) state" where
  "reply r = State_Monad.return r"

definition ok_statuses :: "int set" where "ok_statuses = {200, 201, 204}"

lemma issues_reply [steps_intros]: "issues u (reply r)"
  by (simp add: reply_def steps_intros)

lemma run_reply [exec_simps]: "run_state (reply r) w = (r, w)"
  by (simp add: reply_def exec_simps)

lemma response_simps [simp]:
  "RStatus (WriteJSON s b) = s" "RBody (WriteJSON s b) = b"
  "RStatus (WriteError s c m) = s" "RStatus (WriteErrorSafe s c) = s"
  "RStatus (WriteConflict c m k) = 409" "RStatus PanicRecovery = 500"
  by (simp_all add: WriteJSON_def WriteError_def WriteErrorSafe_def WriteConflict_def PanicRecovery_def)

lemma transition_error_status: "RStatus (transition_error code e) \<in> {409, 500}"
  by (simp add: transition_error_def split: repo_error.split)

text \<open>
  The first lines of most handlers: the task is read, 500 when that fails and 404 when there
  is none.
\<close>

definition with_task :: "string \<Rightarrow> string \<Rightarrow> (task \<Rightarrow> (world, response) state) \<Rightarrow>
    (world, response) state" where
  "with_task code i k = do {
     r \<leftarrow> GetByID i;
     case r of
       Inl e \<Rightarrow> reply (WriteErrorSafe 500 code)
     | Inr None \<Rightarrow> reply (WriteError 404 ''not_found'' ''task not found'')
     | Inr (Some t) \<Rightarrow> k t
   }"

lemma issues_with_task [steps_intros]: "(\<And>t. issues u (k t)) \<Longrightarrow> issues u (with_task code i k)"
  unfolding with_task_def by (intro steps_intros)

end
