(* ===== verification/TaskHandler.thy ===== *)
theory TaskHandler
  imports Http
begin

text \<open>
  \<^verbatim>\<open>internal/api/task_handler.go\<close>: the handlers of the tasks and gates. A request body is
  an argument as decoded into the handler's input struct, none when decoding fails; path and
  query parameters are arguments too. A pointer that is dereferenced without a check
  (\<open>with_ptr\<close>) panics when nil.
\<close>

record handler =
  HasDispatcher :: bool
  Cfg :: "config option"

definition with_ptr :: "'a option \<Rightarrow> ('a \<Rightarrow> (world, response) state) \<Rightarrow> (world, response) state" where
  "with_ptr p k = (case p of None \<Rightarrow> reply PanicRecovery | Some t \<Rightarrow> k t)"

definition publish_event :: "string \<Rightarrow> string \<Rightarrow> string \<Rightarrow> string \<Rightarrow> string \<Rightarrow> string slice \<Rightarrow>
    (world, unit) state" where
  "publish_event event i ag gateID summary skills = go (Publish event i ag gateID summary skills)"

definition go_dispatch :: "handler \<Rightarrow> job \<Rightarrow> (world, unit) state" where
  "go_dispatch h j = (if HasDispatcher h then go j else State_Monad.return ())"

subsection \<open>Tasks\<close>

record create_input =
  InID :: string
  InTitle :: string
  InAssignee :: string
  InPriority :: int
  InParents :: "string slice"
  InSkills :: "string slice"
  InRequiredSkills :: "string slice"
  InTags :: "string slice"
  InBodyGoal :: string
  InBodyContext :: string
  InBodyDeliverableFmt :: string
  InBodyDeliverablePath :: string
  InMaxRetries :: int

definition task_of_input :: "create_input \<Rightarrow> task" where
  "task_of_input i = zero_task\<lparr>ID := InID i, Title := InTitle i, Assignee := InAssignee i,
     Priority := InPriority i, Parents := InParents i, Skills := InSkills i,
     RequiredSkills := InRequiredSkills i, Tags := InTags i, BodyGoal := InBodyGoal i,
     BodyContext := InBodyContext i, BodyDeliverableFmt := InBodyDeliverableFmt i,
     BodyDeliverablePath := InBodyDeliverablePath i, MaxRetries := InMaxRetries i\<rparr>"

text \<open>The catalog checks, in their order: the code of the first that fails.\<close>

definition invalid_catalog :: "config option \<Rightarrow> create_input \<Rightarrow> (string \<times> string) option" where
  "invalid_catalog c i =
    (if elems (InRequiredSkills i) \<noteq> [] \<and> ValidateSkills c (elems (InRequiredSkills i)) \<noteq> []
     then Some (''invalid_required_skills'', ''one or more required skills are not in the allowed catalog'')
     else if elems (InSkills i) \<noteq> [] \<and> ValidateSkills c (elems (InSkills i)) \<noteq> []
     then Some (''invalid_skills'', ''one or more skills are not in the allowed catalog'')
     else if elems (InTags i) \<noteq> [] \<and> c \<noteq> None \<and> ValidateTags c (elems (InTags i)) \<noteq> []
     then Some (''invalid_tags'', ''one or more tags are not in the allowed catalog'')
     else None)"

text \<open>\<open>uuid\<close> is the fresh identifier for a task created without one.\<close>

definition CreateTask_handler :: "handler \<Rightarrow> string \<Rightarrow> create_input option \<Rightarrow> (world, response) state" where
  "CreateTask_handler h uuid body = (case body of
     None \<Rightarrow> reply (WriteError 400 ''invalid_json'' ''invalid request body'')
   | Some i0 \<Rightarrow>
       if InTitle i0 = [] then reply (WriteError 400 ''missing_title'' ''title is required'')
       else (let i = (if InID i0 = [] then i0\<lparr>InID := uuid\<rparr> else i0) in
         case invalid_catalog (Cfg h) i of
           Some (code, msg) \<Rightarrow> reply (WriteError 400 code msg)
         | None \<Rightarrow> do {
             let t = task_of_input i;
             r \<leftarrow> Create t;
             case r of
               Inl e \<Rightarrow> reply (WriteErrorSafe 500 ''create_failed'')
             | Inr _ \<Rightarrow> do {
                 g \<leftarrow> GetByID (ID t);
                 case g of
                   Inl e \<Rightarrow> reply (WriteErrorSafe 500 ''get_task_failed'')
                 | Inr created \<Rightarrow> do {
                     publish_event ev_new_task (ID t) (Assignee t) [] [] (RequiredSkills t);
                     go_dispatch h (Dispatch created);
                     reply (WriteJSON 201 (TaskBody created))
                   }
               }
           }))"

definition ListTasks :: "string \<Rightarrow> string \<Rightarrow> string list \<Rightarrow> (world, response) state" where
  "ListTasks status assignee required = do {
     r \<leftarrow> List status assignee required;
     reply (case r of
       Inl e \<Rightarrow> WriteErrorSafe 500 ''list_failed''
     | Inr ts \<Rightarrow> WriteJSON 200 (TasksBody (elems ts)))
   }"

definition GetTask :: "string \<Rightarrow> (world, response) state" where
  "GetTask i = with_task ''get_failed'' i (\<lambda>t. reply (WriteJSON 200 (TaskBody (Some t))))"

subsection \<open>Claim and start\<close>

text \<open>The guard of a claim: the parents, then the skills of the assignee.\<close>

definition check_parents :: "string \<Rightarrow> task \<Rightarrow> (world, response) state \<Rightarrow> (world, response) state" where
  "check_parents i t k = (if elems (Parents t) = [] then k else do {
     r \<leftarrow> CheckParentsCompleted i;
     case r of
       Inl e \<Rightarrow> reply (WriteErrorSafe 500 ''check_parents_failed'')
     | Inr allDone \<Rightarrow> if \<not> allDone
         then reply (WriteError 403 ''parents_incomplete'' ''parent tasks must be completed before claiming'')
         else k
   })"

definition check_skills :: "string \<Rightarrow> task \<Rightarrow> (world, response) state \<Rightarrow> (world, response) state" where
  "check_skills assignee t k = (if elems (RequiredSkills t) = [] then k else do {
     r \<leftarrow> GetByName assignee;
     case r of
       Inl e \<Rightarrow> reply (WriteErrorSafe 500 ''get_agent_failed'')
     | Inr None \<Rightarrow> reply (WriteError 404 ''agent_not_found'' ''agent not found'')
     | Inr (Some ag) \<Rightarrow>
         if \<not> has_all_skills (elems (RequiredSkills t)) (elems (AgSkills ag))
         then reply (WriteError 403 ''missing_skills'' ''agent lacks required skills'')
         else k
   })"

definition ClaimTask_handler :: "handler \<Rightarrow> string \<Rightarrow> string option \<Rightarrow> (world, response) state" where
  "ClaimTask_handler h i body = (case body of
     None \<Rightarrow> reply (WriteError 400 ''invalid_json'' ''invalid request body'')
   | Some assignee \<Rightarrow>
       if assignee = [] then reply (WriteError 400 ''missing_assignee'' ''assignee is required'')
       else with_task ''get_failed'' i (\<lambda>t.
         check_parents i t (check_skills assignee t (do {
           r \<leftarrow> ClaimTask i assignee;
           case r of
             Inl e \<Rightarrow> reply (transition_error ''claim_failed'' e)
           | Inr tp \<Rightarrow> with_ptr tp (\<lambda>t'. do {
               publish_event ev_claimed i assignee [] [] (RequiredSkills t');
               go_dispatch h (Notify t' (Status t) st_claimed ev_claimed);
               reply (WriteJSON 200 (TaskBody (Some t')))
             })
         }))))"

definition StartTask_handler :: "handler \<Rightarrow> string \<Rightarrow> (world, response) state" where
  "StartTask_handler h i = with_task ''get_failed'' i (\<lambda>t. do {
     r \<leftarrow> StartTask i;
     case r of
       Inl e \<Rightarrow> reply (transition_error ''start_failed'' e)
     | Inr tp \<Rightarrow> with_ptr tp (\<lambda>t'. do {
         publish_event ev_started i (Assignee t') [] [] (RequiredSkills t');
         go_dispatch h (Notify t' (Status t) st_in_progress ev_started);
         reply (WriteJSON 200 (TaskBody (Some t')))
       })
   })"

subsection \<open>Block and unblock\<close>

definition BlockTask_handler :: "handler \<Rightarrow> string \<Rightarrow> (string \<times> string) option \<Rightarrow> (world, response) state" where
  "BlockTask_handler h i body = (case body of
     None \<Rightarrow> reply (WriteError 400 ''invalid_json'' ''invalid request body'')
   | Some (gateID, question) \<Rightarrow>
       if gateID = [] \<or> question = []
       then reply (WriteError 400 ''missing_fields'' ''gate_id and question are required'')
       else with_task ''get_task_failed'' i (\<lambda>t. do {
         r \<leftarrow> BlockTask i;
         case r of
           Inl e \<Rightarrow> reply (transition_error ''block_failed'' e)
         | Inr _ \<Rightarrow> do {
             g \<leftarrow> GetByID i;
             case g of
               Inl e \<Rightarrow> reply (WriteErrorSafe 500 ''get_task_failed'')
             | Inr tp \<Rightarrow> do {
                 c \<leftarrow> CreateGate \<lparr>GateID = gateID, GateTask = i, GateQuestion = question,
                   GateAsk = [], GateStatus = st_pending, GateAnswer = [], GateCreatedAt = 0,
                   GateAnsweredAt = None\<rparr>;
                 case c of
                   Inl e \<Rightarrow> reply (WriteErrorSafe 500 ''gate_create_failed'')
                 | Inr _ \<Rightarrow> with_ptr tp (\<lambda>t'. do {
                     publish_event ev_blocked i (Assignee t') gateID [] (RequiredSkills t');
                     go_dispatch h (Notify t' (Status t) st_blocked ev_blocked);
                     reply (WriteJSON 200 (TaskBody (Some t')))
                   })
               }
           }
       }))"

definition UnblockTask :: "handler \<Rightarrow> string \<Rightarrow> string option \<Rightarrow> (world, response) state" where
  "UnblockTask h i body = (case body of
     None \<Rightarrow> reply (WriteError 400 ''invalid_json'' ''invalid request body'')
   | Some gateID \<Rightarrow>
       if gateID = [] then reply (WriteError 400 ''missing_gate_id'' ''gate_id is required'')
       else with_task ''get_task_failed'' i (\<lambda>t. do {
         r \<leftarrow> ResolveGate gateID;
         case r of
           Inl e \<Rightarrow> reply (WriteErrorSafe 409 ''resolve_failed'')
         | Inr _ \<Rightarrow> do {
             s \<leftarrow> UpdateStatus i st_in_progress;
             case s of
               Inl e \<Rightarrow> reply (WriteErrorSafe 500 ''update_failed'')
             | Inr _ \<Rightarrow> do {
                 g \<leftarrow> GetByID i;
                 case g of
                   Inl e \<Rightarrow> reply (WriteErrorSafe 500 ''get_task_failed'')
                 | Inr tp \<Rightarrow> with_ptr tp (\<lambda>t'. do {
                     publish_event ev_unblock i (Assignee t') gateID [] None;
                     go_dispatch h (Notify t' (Status t) st_in_progress ev_unblock);
                     reply (WriteJSON 200 (TaskBody (Some t')))
                   })
               }
           }
       }))"

subsection \<open>Gates\<close>

definition with_gate :: "string \<Rightarrow> string \<Rightarrow> (gate \<Rightarrow> (world, response) state) \<Rightarrow> (world, response) state" where
  "with_gate i gateID k = do {
     r \<leftarrow> GetGateByID gateID;
     case r of
       Inl e \<Rightarrow> reply (WriteErrorSafe 500 ''get_gate_failed'')
     | Inr None \<Rightarrow> reply (WriteError 404 ''gate_not_found'' ''gate not found'')
     | Inr (Some g) \<Rightarrow>
         if GateTask g \<noteq> i
         then reply (WriteError 400 ''gate_mismatch'' ''gate does not belong to this task'')
         else k g
   }"

definition AnswerGate_handler :: "string \<Rightarrow> string \<Rightarrow> string option \<Rightarrow> (world, response) state" where
  "AnswerGate_handler i gateID body = (case body of
     None \<Rightarrow> reply (WriteError 400 ''invalid_json'' ''invalid request body'')
   | Some answer \<Rightarrow>
       if answer = [] then reply (WriteError 400 ''missing_answer'' ''answer is required'')
       else with_gate i gateID (\<lambda>g.
         if GateStatus g \<noteq> st_pending
         then reply (WriteError 409 ''invalid_gate_status'' ''gate is not in pending status'')
         else do {
           r \<leftarrow> AskGate gateID answer;
           case r of
             Inl e \<Rightarrow> reply (WriteErrorSafe 409 ''ask_gate_failed'')
           | Inr _ \<Rightarrow> do {
               publish_event ev_gate_answered i [] gateID answer None;
               reply (WriteJSON 200 (TextBody [(''gate_id'', gateID), (''status'', st_asked)]))
             }
         }))"

definition ApproveGate :: "string \<Rightarrow> string \<Rightarrow> string option \<Rightarrow> (world, response) state" where
  "ApproveGate i gateID body = (case body of
     None \<Rightarrow> reply (WriteError 400 ''invalid_json'' ''invalid request body'')
   | Some answer \<Rightarrow>
       if answer = [] then reply (WriteError 400 ''missing_answer'' ''answer is required'')
       else with_gate i gateID (\<lambda>g.
         if GateStatus g \<noteq> st_asked
         then reply (WriteError 409 ''invalid_gate_status''
           (''gate is not in asked status, current: '' @ GateStatus g))
         else do {
           r \<leftarrow> AnswerGate gateID answer;
           case r of
             Inl e \<Rightarrow> reply (WriteErrorSafe 409 ''approve_failed'')
           | Inr _ \<Rightarrow> do {
               publish_event ev_gate_approved i [] gateID answer None;
               reply (WriteJSON 200 (TextBody [(''gate_id'', gateID), (''status'', st_answered)]))
             }
         }))"

definition ListTaskGates :: "string \<Rightarrow> (world, response) state" where
  "ListTaskGates i = with_task ''get_task_failed'' i (\<lambda>t. do {
     r \<leftarrow> GetByTaskID i;
     reply (case r of
       Inl e \<Rightarrow> WriteErrorSafe 500 ''list_gates_failed''
     | Inr gs \<Rightarrow> WriteJSON 200 (GatesBody (elems gs)))
   })"

subsection \<open>Complete and fail\<close>

definition CompleteTask_handler :: "handler \<Rightarrow> string \<Rightarrow> string option \<Rightarrow> (world, response) state" where
  "CompleteTask_handler h i body = (case body of
     None \<Rightarrow> reply (WriteError 400 ''invalid_json'' ''invalid request body'')
   | Some summary \<Rightarrow> with_task ''get_task_failed'' i (\<lambda>t. do {
       r \<leftarrow> CompleteTask i summary;
       case r of
         Inl e \<Rightarrow> reply (transition_error ''complete_failed'' e)
       | Inr tp \<Rightarrow> with_ptr tp (\<lambda>t'. do {
           publish_event ev_done i (Assignee t') [] summary (RequiredSkills t');
           go_dispatch h (Notify t' (Status t) st_completed ev_done);
           reply (WriteJSON 200 (TaskBody (Some t')))
         })
     }))"

definition FailTask_handler :: "handler \<Rightarrow> string \<Rightarrow> string option \<Rightarrow> (world, response) state" where
  "FailTask_handler h i body = (case body of
     None \<Rightarrow> reply (WriteError 400 ''invalid_json'' ''invalid request body'')
   | Some reason \<Rightarrow> with_task ''get_task_failed'' i (\<lambda>t. do {
       r \<leftarrow> FailTask i reason;
       case r of
         Inl e \<Rightarrow> reply (transition_error ''fail_failed'' e)
       | Inr res \<Rightarrow> with_ptr (FTask res) (\<lambda>t'. do {
           publish_event ev_failed i (Assignee t') [] reason (RequiredSkills t');
           (if DidRetry res then do {
              go_dispatch h (Notify t' (Status t) st_pending ''task_retried'');
              go_dispatch h (Dispatch (Some t'));
              publish_event ev_new_task i [] [] [] (RequiredSkills t')
            } else go_dispatch h (Notify t' (Status t) st_failed ev_failed));
           reply (WriteJSON 200 (TaskBody (Some t')))
         })
     }))"

definition TaskHeartbeat :: "string \<Rightarrow> (world, response) state" where
  "TaskHeartbeat i = with_task ''get_failed'' i (\<lambda>t.
     if Status t \<noteq> st_in_progress \<and> Status t \<noteq> st_claimed
     then reply (WriteError 409 ''invalid_status'' ''heartbeat only allowed for claimed or in_progress tasks'')
     else do {
       r \<leftarrow> UpdateTaskHeartbeat i;
       reply (case r of
         Inl e \<Rightarrow> WriteErrorSafe 500 ''heartbeat_failed''
       | Inr _ \<Rightarrow> WriteJSON 200 (TextBody [(''status'', ''ok'')]))
     })"

subsection \<open>Graph, events and dispatch\<close>

definition TaskGraph :: "string \<Rightarrow> (world, response) state" where
  "TaskGraph i = do {
     r \<leftarrow> GetDependencyGraph i;
     reply (case r of
       Inl e \<Rightarrow> WriteErrorSafe 500 ''graph_failed''
     | Inr None \<Rightarrow> WriteError 404 ''not_found'' ''task not found''
     | Inr (Some g) \<Rightarrow> WriteJSON 200 (GraphBody g))
   }"

definition ListTaskEvents_handler :: "string \<Rightarrow> (world, response) state" where
  "ListTaskEvents_handler i = do {
     r \<leftarrow> ListTaskEvents i;
     reply (case r of
       Inl e \<Rightarrow> WriteErrorSafe 500 ''list_events_failed''
     | Inr es \<Rightarrow> WriteJSON 200 (EventsBody (elems es)))
   }"

definition DispatchNext :: "string \<Rightarrow> (world, response) state" where
  "DispatchNext agentName =
    (if agentName = [] then reply (WriteError 400 ''missing_agent'' ''agent query parameter is required'')
     else do {
       r \<leftarrow> FindNextForAgent agentName;
       reply (case r of
         Inl e \<Rightarrow> WriteErrorSafe 500 ''dispatch_failed''
       | Inr None \<Rightarrow> WriteJSON 204 NoBody
       | Inr (Some t) \<Rightarrow> WriteJSON 200 (TaskBody (Some t)))
     })"

definition events_limit :: "string \<Rightarrow> int" where
  "events_limit l = (if l \<noteq> [] then (case atoi l of
       Some n \<Rightarrow> if 0 < n \<and> n \<le> 200 then n else 50
     | None \<Rightarrow> 50) else 50)"

text \<open>
  \<open>after\<close> holds the values of the query parameter \<^verbatim>\<open>after_id\<close>; \<open>parse_ts\<close> is the
  server's reading of a timestamp.
\<close>

definition ListGlobalEvents :: "(string \<Rightarrow> time option) \<Rightarrow> string \<Rightarrow> string \<Rightarrow> string \<Rightarrow> string list \<Rightarrow>
    (world, response) state" where
  "ListGlobalEvents parse_ts since ag limit after =
    (let useID = (case after of a # _ \<Rightarrow> a \<noteq> [] | [] \<Rightarrow> False);
         parsed = (if useID then atoi (hd after) else Some 0) in
     case parsed of
       None \<Rightarrow> reply (WriteError 400 ''invalid_after_id'' ''after_id must be a non-negative integer'')
     | Some afterID \<Rightarrow>
         if useID \<and> afterID < 0
         then reply (WriteError 400 ''invalid_after_id'' ''after_id must be a non-negative integer'')
         else if \<not> useID \<and> since = []
         then reply (WriteError 400 ''missing_since_or_after_id'' ''since (ISO8601) or after_id (int) is required'')
         else do {
           r \<leftarrow> ListTaskEventsSince (parse_ts since) ag (events_limit limit) afterID useID;
           reply (case r of
             Inl e \<Rightarrow> WriteErrorSafe 500 ''list_events_failed''
           | Inr es \<Rightarrow> WriteJSON 200 (EventsBody (elems es)))
         })"

subsection \<open>Writes\<close>

lemma issues_with_ptr [steps_intros]: "(\<And>t. issues u (k t)) \<Longrightarrow> issues u (with_ptr p k)"
  unfolding with_ptr_def by (intro steps_intros)

lemma issues_spawns [steps_intros]:
  "issues u (publish_event e i a g s k)" "issues u (go_dispatch h j)"
  unfolding publish_event_def go_dispatch_def by (intro steps_intros)+

lemma issues_guards [steps_intros]:
  "issues u k \<Longrightarrow> issues u (check_parents i t k)" "issues u k \<Longrightarrow> issues u (check_skills a t k)"
  unfolding check_parents_def check_skills_def by (intro steps_intros; assumption)+

lemma issues_with_gate [steps_intros]: "(\<And>g. issues u (k g)) \<Longrightarrow> issues u (with_gate i g k)"
  unfolding with_gate_def by (intro steps_intros)

lemma task_of_input_sel [simp]:
  "Status (task_of_input i) = []" "RetryCount (task_of_input i) = 0" "ID (task_of_input i) = InID i"
  "MaxRetries (task_of_input i) = InMaxRetries i" "Parents (task_of_input i) = InParents i"
  by (simp_all add: task_of_input_def zero_task_def)

lemma issues_CreateTask_handler [steps_intros]: "issues u (CreateTask_handler h uid b)"
  unfolding CreateTask_handler_def Let_def by (intro steps_intros) simp_all

lemma issues_ClaimTask_handler [steps_intros]: "issues u (ClaimTask_handler h i b)"
  unfolding ClaimTask_handler_def by (intro steps_intros) simp

lemma issues_StartTask_handler [steps_intros]: "issues u (StartTask_handler h i)"
  unfolding StartTask_handler_def by (intro steps_intros)

lemma issues_BlockTask_handler [steps_intros]: "issues u (BlockTask_handler h i b)"
  unfolding BlockTask_handler_def by (intro steps_intros) simp

lemma issues_UnblockTask [steps_intros]: "issues True (UnblockTask h i b)"
  unfolding UnblockTask_def by (intro steps_intros)

lemma issues_CompleteTask_handler [steps_intros]: "issues u (CompleteTask_handler h i b)"
  unfolding CompleteTask_handler_def by (intro steps_intros)

lemma issues_FailTask_handler [steps_intros]: "issues u (FailTask_handler h i b)"
  unfolding FailTask_handler_def by (intro steps_intros)

lemma issues_gate_handlers [steps_intros]:
  "issues u (AnswerGate_handler i g b)" "issues u (ApproveGate i g b)" "issues u (ListTaskGates i)"
  unfolding AnswerGate_handler_def ApproveGate_def ListTaskGates_def by (intro steps_intros)+

lemma issues_task_readers [steps_intros]:
  "issues u (ListTasks s a q)" "issues u (GetTask i)" "issues u (TaskHeartbeat i)"
  "issues u (TaskGraph i)" "issues u (ListTaskEvents_handler i)" "issues u (DispatchNext ag)"
  "issues u (ListGlobalEvents p since ag l af)"
  unfolding ListTasks_def GetTask_def TaskHeartbeat_def TaskGraph_def ListTaskEvents_handler_def
    DispatchNext_def ListGlobalEvents_def Let_def
  by (intro steps_intros)+

end
