(* ===== verification/AgentHandler.thy ===== *)
theory AgentHandler
  imports Http
begin

text \<open>
  \<^verbatim>\<open>internal/api/agent_handler.go\<close>, \<^verbatim>\<open>auth.go\<close> and \<^verbatim>\<open>limiter.go\<close>: registration,
  heartbeats and event cursors of agents, the bearer authentication in front of every handler
  and the rate limiter. The token bucket of one client is a parameter (its state \<open>'l\<close>, the
  fresh bucket and what \<open>Allow\<close> does to one at a time); a handler gets the limiter's answers
  for its request as \<open>allow\<close>, none when there is no limiter. \<open>agentName\<close> and \<open>authToken\<close> are
  the headers \<^verbatim>\<open>X-Agent-Name\<close> and \<^verbatim>\<open>X-Auth-Token\<close>, empty when missing.
\<close>

subsection \<open>The rate limiter\<close>

record 'l rate_limiter =
  clients :: "string \<Rightarrow> 'l option"

definition NewRateLimiter :: "'l rate_limiter" where
  "NewRateLimiter = \<lparr>clients = (\<lambda>_. None)\<rparr>"

definition Allow :: "'l \<Rightarrow> (time \<Rightarrow> 'l \<Rightarrow> bool \<times> 'l) \<Rightarrow> 'l rate_limiter \<Rightarrow> string \<Rightarrow> time \<Rightarrow>
    bool \<times> 'l rate_limiter" where
  "Allow fresh bucket rl name n =
    (let limiter = (case clients rl name of None \<Rightarrow> fresh | Some l \<Rightarrow> l) in
     case bucket n limiter of (ok, l') \<Rightarrow> (ok, rl\<lparr>clients := (clients rl)(name \<mapsto> l')\<rparr>))"

definition refused :: "(string \<Rightarrow> bool) option \<Rightarrow> string \<Rightarrow> bool" where
  "refused allow name \<longleftrightarrow> (case allow of None \<Rightarrow> False | Some f \<Rightarrow> \<not> f name)"

text \<open>A sequence of requests to the limiter, each at its time.\<close>

fun allow_all :: "'l \<Rightarrow> (time \<Rightarrow> 'l \<Rightarrow> bool \<times> 'l) \<Rightarrow> 'l rate_limiter \<Rightarrow> (string \<times> time) list \<Rightarrow>
    (string \<times> bool) list" where
  "allow_all fresh bucket rl [] = []"
| "allow_all fresh bucket rl ((name, n) # rs) = (case Allow fresh bucket rl name n of
     (ok, rl') \<Rightarrow> (name, ok) # allow_all fresh bucket rl' rs)"

subsection \<open>Authentication\<close>

text \<open>
  \<open>init\<close>: the administrator's token is 32 random bytes in hexadecimal, or the one of the
  environment; without randomness the program ends (none).
\<close>

definition hex_encode :: "string \<Rightarrow> string" where
  "hex_encode bytes = concat (map (\<lambda>c. [hex_digit (of_char c div 16), hex_digit (of_char c mod 16)]) bytes)"

definition init_admin_token :: "extern \<Rightarrow> string option \<Rightarrow> string option" where
  "init_admin_token x rnd = (case rnd of
     None \<Rightarrow> None
   | Some randomToken \<Rightarrow> (let legacyToken = getenv x ''ACB_ADMIN_TOKEN'' in
       Some (if legacyToken \<noteq> [] then legacyToken else hex_encode randomToken)))"

lemma init_admin_token_nonempty:
  "init_admin_token x rnd = Some t \<Longrightarrow> rnd \<noteq> Some [] \<Longrightarrow> t \<noteq> []"
  by (auto simp: init_admin_token_def hex_encode_def Let_def split: option.splits if_splits)

text \<open>\<open>Pass None\<close> serves the request with its headers as they came, \<open>Pass (Some n)\<close> with the
  header \<^verbatim>\<open>X-Agent-Name\<close> set to \<open>n\<close>.\<close>

datatype auth_result = Pass "string option" | Reject response

definition bearer :: string where "bearer = ''Bearer ''"

definition AuthMiddleware :: "extern \<Rightarrow> string option \<Rightarrow> string \<Rightarrow> string \<Rightarrow> string \<Rightarrow>
    (world, auth_result) state" where
  "AuthMiddleware x salt adminToken path auth =
    (if path = ''/health'' \<or> path = ''/health/'' then State_Monad.return (Pass None)
     else if auth = [] \<or> take (length bearer) auth \<noteq> bearer
     then State_Monad.return (Reject (WriteError 401 ''unauthorized'' ''missing or invalid authorization header''))
     else (let token = drop (length bearer) auth in
       if adminToken \<noteq> [] \<and> token = adminToken then State_Monad.return (Pass (Some ''admin''))
       else do {
         r \<leftarrow> GetByToken x salt token;
         State_Monad.return (case r of
           Inr (Some ag) \<Rightarrow> Pass (Some (AgName ag))
         | _ \<Rightarrow> Reject (WriteError 401 ''unauthorized'' ''invalid token''))
       }))"

subsection \<open>Handlers\<close>

definition GetAgentCursor :: "string \<Rightarrow> (world, response) state" where
  "GetAgentCursor agentName =
    (if agentName = [] then reply (WriteError 401 ''unauthorized'' ''X-Agent-Name header is missing'')
     else do {
       r \<leftarrow> GetLastEventID agentName;
       reply (case r of
         Inl e \<Rightarrow> WriteError 404 ''agent_not_found'' ''agent not found''
       | Inr lastID \<Rightarrow> WriteJSON 200 (CursorBody lastID))
     })"

definition UpdateAgentCursor :: "string \<Rightarrow> int option \<Rightarrow> (world, response) state" where
  "UpdateAgentCursor agentName body =
    (if agentName = [] then reply (WriteError 401 ''unauthorized'' ''X-Agent-Name header is missing'')
     else (case body of
       None \<Rightarrow> reply (WriteError 400 ''invalid_json'' ''invalid request body'')
     | Some cursor \<Rightarrow>
         if cursor \<le> 0 then reply (WriteError 400 ''missing_cursor'' ''cursor must be a positive integer'')
         else do {
           r \<leftarrow> UpdateLastEventID agentName cursor;
           reply (case r of
             Inl (AgentNotFound _) \<Rightarrow> WriteError 404 ''agent_not_found'' ''agent not found''
           | Inl e \<Rightarrow> WriteErrorSafe 500 ''update_cursor_failed''
           | Inr _ \<Rightarrow> WriteJSON 200 (TextBody [(''status'', ''ok'')]))
         }))"

definition Heartbeat :: "(string \<Rightarrow> bool) option \<Rightarrow> string \<Rightarrow> string option \<Rightarrow> (world, response) state" where
  "Heartbeat allow agentName body = (case body of
     None \<Rightarrow> reply (WriteError 400 ''invalid_json'' ''invalid request body'')
   | Some input \<Rightarrow> (let name = (if input = [] then agentName else input) in
       if name = [] then reply (WriteError 400 ''missing_name'' ''agent name is required'')
       else if refused allow name then reply (WriteError 429 ''rate_limited'' ''too many heartbeats'')
       else do {
         r \<leftarrow> UpdateHeartbeat name;
         reply (case r of
           Inl e \<Rightarrow> WriteErrorSafe 404 ''agent_not_found''
         | Inr _ \<Rightarrow> WriteJSON 200 (TextBody [(''status'', ''ok'')]))
       }))"

definition GetAgent :: "string \<Rightarrow> (world, response) state" where
  "GetAgent name = do {
     r \<leftarrow> GetByName name;
     reply (case r of
       Inl e \<Rightarrow> WriteErrorSafe 500 ''get_failed''
     | Inr None \<Rightarrow> WriteError 404 ''not_found'' ''agent not found''
     | Inr (Some ag) \<Rightarrow> WriteJSON 200 (AgentBody (ag\<lparr>AgToken := [], AgWebhookSecret := []\<rparr>)))
   }"

record register_input =
  RegName :: string
  RegPort :: int
  RegToken :: string
  RegSkills :: "string slice"
  RegWebhookURL :: string
  RegWebhookSecret :: string

definition validate_optional_url :: "extern \<Rightarrow> string \<Rightarrow> (world, url_error + unit) state" where
  "validate_optional_url x url = (if url \<noteq> [] then ValidateWebhookURL x url
     else State_Monad.return (Inr ()))"

definition agent_of_input :: "register_input \<Rightarrow> string \<Rightarrow> string \<Rightarrow> agent" where
  "agent_of_input i name token = \<lparr>AgName = name, AgPort = RegPort i, AgToken = token,
     AgLastHeartbeat = None, AgSkills = RegSkills i, AgWebhookURL = RegWebhookURL i,
     AgWebhookSecret = RegWebhookSecret i\<rparr>"

definition RegisterAgent :: "extern \<Rightarrow> config option \<Rightarrow> string option \<Rightarrow> string option \<Rightarrow>
    (string \<Rightarrow> bool) option \<Rightarrow> string \<Rightarrow> string \<Rightarrow> register_input option \<Rightarrow> (world, response) state" where
  "RegisterAgent x cfg salt nonce allow agentName authToken body =
    (if refused allow ''register'' then reply (WriteError 429 ''rate_limited'' ''too many registration requests'')
     else (case body of
       None \<Rightarrow> reply (WriteError 400 ''invalid_json'' ''invalid request body'')
     | Some i \<Rightarrow> (let name = (if RegName i = [] then agentName else RegName i) in
         if name = [] then reply (WriteError 400 ''missing_name'' ''agent name is required'')
         else if agentName = [] then reply (WriteError 401 ''unauthorized'' ''X-Agent-Name header is missing'')
         else if agentName \<noteq> ''admin'' \<and> agentName \<noteq> name
         then reply (WriteError 403 ''forbidden'' ''agent can only register itself'')
         else if elems (RegSkills i) \<noteq> [] \<and> ValidateSkills cfg (elems (RegSkills i)) \<noteq> []
         then reply (WriteError 400 ''invalid_skills'' ''one or more skills are not in the allowed catalog'')
         else (let token = (if RegToken i = [] then authToken else RegToken i) in do {
           v \<leftarrow> validate_optional_url x (RegWebhookURL i);
           case v of
             Inl e \<Rightarrow> reply (WriteError 400 ''invalid_webhook_url'' (url_error_text e))
           | Inr _ \<Rightarrow> do {
               r \<leftarrow> UpsertAgent x salt nonce (agent_of_input i name token);
               reply (case r of
                 Inl e \<Rightarrow> WriteErrorSafe 500 ''upsert_failed''
               | Inr _ \<Rightarrow> WriteJSON 200 (AgentBody ((agent_of_input i name token)
                   \<lparr>AgToken := [], AgWebhookSecret := []\<rparr>)))
             }
         }))))"

subsection \<open>Writes\<close>

lemma issues_AuthMiddleware [steps_intros]: "issues u (AuthMiddleware x s adm p a)"
  unfolding AuthMiddleware_def Let_def by (intro steps_intros)

lemma issues_agent_handlers [steps_intros]:
  "issues u (GetAgentCursor a)" "issues u (UpdateAgentCursor a c)" "issues u (Heartbeat l a b)"
  "issues u (GetAgent a)" "issues u (validate_optional_url x url)"
  unfolding GetAgentCursor_def UpdateAgentCursor_def Heartbeat_def GetAgent_def
    validate_optional_url_def Let_def
  by (intro steps_intros)+

lemma issues_RegisterAgent [steps_intros]: "issues u (RegisterAgent x c s n l a t b)"
  unfolding RegisterAgent_def Let_def by (intro steps_intros)

subsection \<open>Who gets in\<close>

text \<open>The token an \<^verbatim>\<open>Authorization\<close> header presents is the administrator's, or that of an agent.\<close>

definition presents_token :: "extern \<Rightarrow> string \<Rightarrow> database \<Rightarrow> string \<Rightarrow> string \<Rightarrow> bool" where
  "presents_token x adm d auth name \<longleftrightarrow> take (length bearer) auth = bearer \<and>
     ((adm \<noteq> [] \<and> drop (length bearer) auth = adm \<and> name = ''admin'') \<or>
      list_ex (\<lambda>a. a_name a = name \<and> verifyToken x (drop (length bearer) auth) (a_token a) = Inr True) (agents d))"

lemma scanMatchingAgent_verified:
  assumes "scanMatchingAgent x t rs = Inr (Some ag)"
  shows "list_ex (\<lambda>r. a_name r = AgName ag \<and> verifyToken x t (a_token r) = Inr True) rs"
  using scanMatchingAgent_sound [OF assms]
  by (fastforce simp: list_ex_iff scan_agent_def agent_columns_def split: option.splits)

lemma GetByToken_verified:
  assumes "run_state (GetByToken x salt t) w = (r, w1)"
  shows "db w1 = db w \<and> (\<forall>ag. r = Inr (Some ag) \<longrightarrow>
    list_ex (\<lambda>a. a_name a = AgName ag \<and> verifyToken x t (a_token a) = Inr True) (agents (db w)))"
proof (cases "\<exists>p. \<not> length t < 8 \<and> (\<exists>h. hashToken x salt t = Inr (h, p))")
  case False
  with assms show ?thesis by (auto simp: GetByToken_def run_state_return split: if_splits sum.splits)
next
  case True
  then obtain p where p: "run_state (getByTokenPrefix x t p) w = (r, w1)"
    using assms by (auto simp: GetByToken_def)
  obtain q w2 where q: "run_state (query (\<lambda>_ d. filter (\<lambda>r. a_token_prefix r = p) (agents d))) w = (q, w2)"
    by (cases "run_state (query (\<lambda>_ d. filter (\<lambda>r. a_token_prefix r = p) (agents d))) w")
  from query_cases [OF q] p q show ?thesis
    by (auto simp: getByTokenPrefix_def run_state_bind run_state_return list_ex_iff
      dest!: scanMatchingAgent_verified split: option.splits)
qed

lemma AuthMiddleware_cases:
  assumes "run_state (AuthMiddleware x salt adm path auth) w = (a, w')"
  shows "db w' = db w \<and>
    (\<forall>n. a = Pass n \<longrightarrow> (case n of
       None \<Rightarrow> path = ''/health'' \<or> path = ''/health/''
     | Some name \<Rightarrow> presents_token x adm (db w) auth name))"
proof -
  obtain r w1 where g: "run_state (GetByToken x salt (drop (length bearer) auth)) w = (r, w1)"
    by (cases "run_state (GetByToken x salt (drop (length bearer) auth)) w")
  from GetByToken_verified [OF g] g assms show ?thesis
    unfolding AuthMiddleware_def presents_token_def
    by (auto simp: Let_def run_state_bind run_state_return split: if_splits sum.splits option.splits)
qed

lemma AuthMiddleware_401:
  assumes "run_state (AuthMiddleware x salt adm path auth) w = (Reject resp, w')"
  shows "RStatus resp = 401"
  using assms by (cases "run_state (GetByToken x salt (drop (length bearer) auth)) w")
    (auto simp: AuthMiddleware_def Let_def run_state_bind run_state_return split: if_splits sum.splits option.splits)

subsection \<open>Clients do not share buckets\<close>

fun bucket_answers :: "'l \<Rightarrow> (time \<Rightarrow> 'l \<Rightarrow> bool \<times> 'l) \<Rightarrow> time list \<Rightarrow> bool list" where
  "bucket_answers l bucket [] = []"
| "bucket_answers l bucket (n # ns) = (case bucket n l of (ok, l') \<Rightarrow> ok # bucket_answers l' bucket ns)"

lemma allow_all_client:
  "map snd (filter (\<lambda>p. fst p = name) (allow_all fresh bucket rl rs)) =
     bucket_answers (case clients rl name of None \<Rightarrow> fresh | Some l \<Rightarrow> l) bucket
       (map snd (filter (\<lambda>p. fst p = name) rs))"
proof (induction rs arbitrary: rl)
  case (Cons r rs)
  obtain c n where r: "r = (c, n)" by (cases r)
  obtain ok l' where b: "bucket n (case clients rl c of None \<Rightarrow> fresh | Some l \<Rightarrow> l) = (ok, l')"
    by (cases "bucket n (case clients rl c of None \<Rightarrow> fresh | Some l \<Rightarrow> l)")
  show ?case using Cons.IH b by (cases "c = name") (simp_all add: r Allow_def Let_def)
qed simp

end
