(* ===== verification/ObjectStore.thy ===== *)
theory ObjectStore
  imports Prelude
begin

text \<open>
  \<^verbatim>\<open>internal/rustfs/client.go\<close> and \<^verbatim>\<open>minio_store.go\<close>: the client of the object store and
  its one implementation of the interface \<open>ObjectStore\<close>, on the minio library. The library is a
  parameter: its state \<open>'s\<close> and one function per method the code calls, with the error code of
  a failed request. The locale at the end says what a store keeps, and holds of the minio
  store on a client that keeps objects by bucket and key.
\<close>

subsection \<open>The interface\<close>

datatype store_error = NotFound | StoreError

record 's object_store =
  os_upload :: "string \<Rightarrow> string \<Rightarrow> string \<Rightarrow> 's \<Rightarrow> (store_error + unit) \<times> 's"
  os_download :: "string \<Rightarrow> 's \<Rightarrow> store_error + string \<times> string \<times> int"
  os_delete :: "string \<Rightarrow> 's \<Rightarrow> (store_error + unit) \<times> 's"
  os_exists :: "string \<Rightarrow> 's \<Rightarrow> store_error + bool"
  os_bucket_exists :: "'s \<Rightarrow> store_error + bool"
  os_make_bucket :: "'s \<Rightarrow> (store_error + unit) \<times> 's"
  os_list :: "string \<Rightarrow> 's \<Rightarrow> store_error + string list"

subsection \<open>The minio store\<close>

text \<open>
  An object that \<^verbatim>\<open>GetObject\<close> gives: what \<^verbatim>\<open>Stat\<close> and the reader give later. A listing is
  the sequence of its channel, each entry an error or a key.
\<close>

record minio_object =
  ob_stat :: "string + string \<times> int"
  ob_data :: string

record 's minio_client =
  mc_put :: "string \<Rightarrow> string \<Rightarrow> string \<Rightarrow> string \<Rightarrow> 's \<Rightarrow> (string + unit) \<times> 's"
  mc_get :: "string \<Rightarrow> string \<Rightarrow> 's \<Rightarrow> string + minio_object"
  mc_stat :: "string \<Rightarrow> string \<Rightarrow> 's \<Rightarrow> string + string \<times> int"
  mc_remove :: "string \<Rightarrow> string \<Rightarrow> 's \<Rightarrow> (string + unit) \<times> 's"
  mc_bucket_exists :: "string \<Rightarrow> 's \<Rightarrow> string + bool"
  mc_make_bucket :: "string \<Rightarrow> 's \<Rightarrow> (string + unit) \<times> 's"
  mc_list :: "string \<Rightarrow> string \<Rightarrow> bool \<Rightarrow> 's \<Rightarrow> (string + string) list"

record 's minioStore =
  msClient :: "'s minio_client"
  msBucket :: string

text \<open>\<^verbatim>\<open>minio.New\<close>: endpoint, region, access key, secret key and whether to use TLS.\<close>

type_synonym 's minio_new = "string \<Rightarrow> string \<Rightarrow> string \<Rightarrow> string \<Rightarrow> bool \<Rightarrow> 's minio_client option"

definition newMinioStore :: "'s minio_new \<Rightarrow> string \<Rightarrow> string \<Rightarrow> string \<Rightarrow> string \<Rightarrow> string \<Rightarrow> 's minioStore option" where
  "newMinioStore mnew endpoint region accessKey secretKey bucket =
    (case mnew endpoint region accessKey secretKey False of
       None \<Rightarrow> None
     | Some client \<Rightarrow> Some \<lparr>msClient = client, msBucket = bucket\<rparr>)"

definition no_such_key :: string where "no_such_key = ''NoSuchKey''"

definition ms_done :: "(string + unit) \<times> 's \<Rightarrow> (store_error + unit) \<times> 's" where
  "ms_done r = (case r of (Inl e, s) \<Rightarrow> (Inl StoreError, s) | (Inr _, s) \<Rightarrow> (Inr (), s))"

definition ms_Upload :: "'s minioStore \<Rightarrow> string \<Rightarrow> string \<Rightarrow> string \<Rightarrow> 's \<Rightarrow> (store_error + unit) \<times> 's" where
  "ms_Upload m key data contentType s = ms_done (mc_put (msClient m) (msBucket m) key data contentType s)"

definition ms_Download :: "'s minioStore \<Rightarrow> string \<Rightarrow> 's \<Rightarrow> store_error + string \<times> string \<times> int" where
  "ms_Download m key s = (case mc_get (msClient m) (msBucket m) key s of
     Inl e \<Rightarrow> Inl StoreError
   | Inr obj \<Rightarrow> (case ob_stat obj of
       Inl code \<Rightarrow> if code = no_such_key then Inl NotFound else Inl StoreError
     | Inr (contentType, n) \<Rightarrow> Inr (ob_data obj, contentType, n)))"

definition ms_Delete :: "'s minioStore \<Rightarrow> string \<Rightarrow> 's \<Rightarrow> (store_error + unit) \<times> 's" where
  "ms_Delete m key s = ms_done (mc_remove (msClient m) (msBucket m) key s)"

definition ms_Exists :: "'s minioStore \<Rightarrow> string \<Rightarrow> 's \<Rightarrow> store_error + bool" where
  "ms_Exists m key s = (case mc_stat (msClient m) (msBucket m) key s of
     Inl code \<Rightarrow> if code = no_such_key then Inr False else Inl StoreError
   | Inr _ \<Rightarrow> Inr True)"

definition ms_BucketExists :: "'s minioStore \<Rightarrow> 's \<Rightarrow> store_error + bool" where
  "ms_BucketExists m s = (case mc_bucket_exists (msClient m) (msBucket m) s of
     Inl e \<Rightarrow> Inl StoreError | Inr b \<Rightarrow> Inr b)"

definition ms_MakeBucket :: "'s minioStore \<Rightarrow> 's \<Rightarrow> (store_error + unit) \<times> 's" where
  "ms_MakeBucket m s = ms_done (mc_make_bucket (msClient m) (msBucket m) s)"

fun collect_keys :: "(string + string) list \<Rightarrow> string list \<Rightarrow> store_error + string list" where
  "collect_keys [] keys = Inr keys"
| "collect_keys (Inl e # objects) keys = Inl StoreError"
| "collect_keys (Inr k # objects) keys = collect_keys objects (keys @ [k])"

definition ms_ListObjects :: "'s minioStore \<Rightarrow> string \<Rightarrow> 's \<Rightarrow> store_error + string list" where
  "ms_ListObjects m pre s = collect_keys (mc_list (msClient m) (msBucket m) pre True s) []"

text \<open>The methods that make \<open>*minioStore\<close> an \<open>ObjectStore\<close>.\<close>

definition minio_ops :: "'s minioStore \<Rightarrow> 's object_store" where
  "minio_ops m = \<lparr>os_upload = ms_Upload m, os_download = ms_Download m, os_delete = ms_Delete m,
     os_exists = ms_Exists m, os_bucket_exists = ms_BucketExists m, os_make_bucket = ms_MakeBucket m,
     os_list = ms_ListObjects m\<rparr>"

subsection \<open>The client\<close>

text \<open>The store is nil in a client that is not enabled.\<close>

record 's rustfs_client =
  RStore :: "'s object_store option"
  RBucket :: string
  REnabled :: bool

definition NewClientWithStore :: "'s object_store \<Rightarrow> string \<Rightarrow> 's rustfs_client" where
  "NewClientWithStore store bucket = \<lparr>RStore = Some store, RBucket = bucket, REnabled = True\<rparr>"

definition disabled_client :: "'s rustfs_client" where
  "disabled_client = \<lparr>RStore = None, RBucket = [], REnabled = False\<rparr>"

definition NewClient :: "'s minio_new \<Rightarrow> string \<Rightarrow> string \<Rightarrow> string \<Rightarrow> string \<Rightarrow> string \<Rightarrow> 's rustfs_client" where
  "NewClient mnew endpoint region accessKey secretKey bucket =
    (if endpoint = [] \<or> accessKey = [] \<or> secretKey = [] then disabled_client
     else (case newMinioStore mnew endpoint region accessKey secretKey bucket of
       None \<Rightarrow> disabled_client
     | Some store \<Rightarrow> \<lparr>RStore = Some (minio_ops store), RBucket = bucket, REnabled = True\<rparr>))"

definition enabledOp :: "'s rustfs_client \<Rightarrow> 's object_store option" where
  "enabledOp c = (if \<not> REnabled c then None else RStore c)"

definition Upload :: "'s rustfs_client \<Rightarrow> string \<Rightarrow> string \<Rightarrow> string \<Rightarrow> 's \<Rightarrow> (store_error + unit) \<times> 's" where
  "Upload c key data contentType s = (case enabledOp c of
     None \<Rightarrow> (Inr (), s) | Some st \<Rightarrow> os_upload st key data contentType s)"

definition Download :: "'s rustfs_client \<Rightarrow> string \<Rightarrow> 's \<Rightarrow> store_error + string \<times> string \<times> int" where
  "Download c key s = (case enabledOp c of
     None \<Rightarrow> Inl NotFound | Some st \<Rightarrow> os_download st key s)"

definition Delete :: "'s rustfs_client \<Rightarrow> string \<Rightarrow> 's \<Rightarrow> (store_error + unit) \<times> 's" where
  "Delete c key s = (case enabledOp c of None \<Rightarrow> (Inr (), s) | Some st \<Rightarrow> os_delete st key s)"

definition Exists :: "'s rustfs_client \<Rightarrow> string \<Rightarrow> 's \<Rightarrow> store_error + bool" where
  "Exists c key s = (case enabledOp c of None \<Rightarrow> Inr False | Some st \<Rightarrow> os_exists st key s)"

definition EnsureBucket :: "'s rustfs_client \<Rightarrow> 's \<Rightarrow> (store_error + unit) \<times> 's" where
  "EnsureBucket c s = (case enabledOp c of
     None \<Rightarrow> (Inr (), s)
   | Some st \<Rightarrow> (case os_bucket_exists st s of
       Inl e \<Rightarrow> (Inl e, s)
     | Inr b \<Rightarrow> if \<not> b then os_make_bucket st s else (Inr (), s)))"

definition Enabled :: "'s rustfs_client \<Rightarrow> bool" where
  "Enabled c = REnabled c"

definition ListObjects :: "'s rustfs_client \<Rightarrow> string \<Rightarrow> 's \<Rightarrow> store_error + string list" where
  "ListObjects c pre s = (case enabledOp c of None \<Rightarrow> Inl StoreError | Some st \<Rightarrow> os_list st pre s)"

lemma enabledOp_new [simp]: "enabledOp (NewClientWithStore st b) = Some st" "enabledOp disabled_client = None"
  by (simp_all add: enabledOp_def NewClientWithStore_def disabled_client_def)

fun delete_all :: "'s rustfs_client \<Rightarrow> string list \<Rightarrow> 's \<Rightarrow> (store_error + unit) \<times> 's" where
  "delete_all c [] s = (Inr (), s)"
| "delete_all c (k # ks) s = (case Delete c k s of
     (Inl e, s') \<Rightarrow> (Inl e, s')
   | (Inr _, s') \<Rightarrow> delete_all c ks s')"

subsection \<open>What a store keeps\<close>

text \<open>
  The contract the handlers rely on: \<open>holds\<close> reads the data and content type kept under a key,
  and a request the store serves acts on it; any request may fail instead.
\<close>

locale object_storage =
  fixes st :: "'s object_store" and holds :: "'s \<Rightarrow> string \<Rightarrow> (string \<times> string) option"
  assumes upload: "os_upload st k d c s = (Inr (), s') \<Longrightarrow> holds s' = (holds s)(k \<mapsto> (d, c))"
    and download: "os_download st k s \<in> {Inl StoreError,
      case holds s k of None \<Rightarrow> Inl NotFound | Some (d, c) \<Rightarrow> Inr (d, c, int (length d))}"
    and delete: "os_delete st k s = (Inr (), s') \<Longrightarrow> holds s' = (holds s)(k := None)"
    and exists: "os_exists st k s = Inr e \<Longrightarrow> e \<longleftrightarrow> holds s k \<noteq> None"
    and listing: "os_list st p s = Inr ks \<Longrightarrow> set ks = {k. holds s k \<noteq> None \<and> take (length p) k = p}"
begin

lemma upload_download:
  assumes "enabledOp c = Some st" and "Upload c k d ct s = (Inr (), s')"
  shows "Download c k s' \<in> {Inl StoreError, Inr (d, ct, int (length d))}"
  using assms upload [of k d ct s s'] download [of k s'] by (simp add: Upload_def Download_def)

lemma delete_gone:
  assumes "enabledOp c = Some st" and "Delete c k s = (Inr (), s')"
  shows "holds s' = (holds s)(k := None)" "Download c k s' \<in> {Inl StoreError, Inl NotFound}"
  using assms delete [of k s s'] download [of k s'] by (simp_all add: Delete_def Download_def)

lemma delete_all_gone:
  assumes "enabledOp c = Some st"
  shows "delete_all c ks s = (Inr (), s') \<Longrightarrow> holds s' = (\<lambda>k. if k \<in> set ks then None else holds s k)"
proof (induction ks arbitrary: s)
  case (Cons k ks)
  then obtain s1 where 1: "Delete c k s = (Inr (), s1)" and 2: "delete_all c ks s1 = (Inr (), s')"
    by (auto split: prod.splits sum.splits)
  show ?case unfolding Cons.IH [OF 2] delete_gone(1) [OF assms 1] by auto
qed simp

lemma list_and_delete:
  assumes "enabledOp c = Some st" and "ListObjects c p s = Inr ks" and "delete_all c ks s = (Inr (), s')"
  shows "holds s' = (\<lambda>k. if take (length p) k = p then None else holds s k)"
proof
  fix k
  from listing [of p s ks] assms(1,2) have "k \<in> set ks \<longleftrightarrow> holds s k \<noteq> None \<and> take (length p) k = p"
    by (simp add: ListObjects_def)
  with delete_all_gone [OF assms(1,3)] show "holds s' k = (if take (length p) k = p then None else holds s k)"
    by (cases "holds s k") auto
qed

end

text \<open>
  A minio client that keeps objects by bucket and key, with the codes the documentation of the
  service gives; the minio store over it keeps its contract.
\<close>

type_synonym objects = "((string \<times> string) \<times> string \<times> string) list"

definition object_at :: "string \<Rightarrow> string \<Rightarrow> objects \<Rightarrow> string + minio_object" where
  "object_at b k s = Inr (case map_of s (b, k) of
     None \<Rightarrow> \<lparr>ob_stat = Inl no_such_key, ob_data = []\<rparr>
   | Some (d, c) \<Rightarrow> \<lparr>ob_stat = Inr (c, int (length d)), ob_data = d\<rparr>)"

definition memory_client :: "objects minio_client" where
  "memory_client = \<lparr>mc_put = (\<lambda>b k d c s. (Inr (), ((b, k), d, c) # s)), mc_get = object_at,
     mc_stat = (\<lambda>b k s. case map_of s (b, k) of None \<Rightarrow> Inl no_such_key | Some (d, c) \<Rightarrow> Inr (c, int (length d))),
     mc_remove = (\<lambda>b k s. (Inr (), filter (\<lambda>p. fst p \<noteq> (b, k)) s)), mc_bucket_exists = (\<lambda>b s. Inr True),
     mc_make_bucket = (\<lambda>b s. (Inr (), s)),
     mc_list = (\<lambda>b p r s. map (\<lambda>e. Inr (snd (fst e))) (filter (\<lambda>e. fst (fst e) = b \<and> take (length p) (snd (fst e)) = p) s))\<rparr>"

lemma collect_keys_Inr: "collect_keys (map (\<lambda>x. Inr (f x)) xs) acc = Inr (acc @ map f xs)"
  by (induction xs arbitrary: acc) simp_all

lemma map_of_filter_key: "map_of (filter (\<lambda>p. fst p \<noteq> k) s) = (map_of s)(k := None)"
  by (induction s) auto

interpretation minio: object_storage "minio_ops \<lparr>msClient = memory_client, msBucket = b\<rparr>"
  "\<lambda>s k. map_of s (b, k)" for b
proof unfold_locales
  fix p :: string and s :: objects and ks
  assume "os_list (minio_ops \<lparr>msClient = memory_client, msBucket = b\<rparr>) p s = Inr ks"
  then have "ks = map (\<lambda>e. snd (fst e)) (filter (\<lambda>e. fst (fst e) = b \<and> take (length p) (snd (fst e)) = p) s)"
    by (simp add: minio_ops_def ms_ListObjects_def memory_client_def collect_keys_Inr)
  then show "set ks = {k. map_of s (b, k) \<noteq> None \<and> take (length p) k = p}"
    by (force simp: image_iff map_of_eq_None_iff)
qed (auto simp: minio_ops_def ms_Upload_def ms_Download_def ms_Delete_def ms_Exists_def ms_done_def
    memory_client_def object_at_def fun_eq_iff map_of_filter_key split: option.splits)

end
