(* ===== verification/ArtifactHandler.thy ===== *)
theory ArtifactHandler
  imports Http ObjectStore
begin

text \<open>
  \<^verbatim>\<open>internal/api/artifact_handler.go\<close>: the handlers of artifacts. A handler runs on the world
  and the state of the object store together.
\<close>

subsection \<open>Running on the world and the store\<close>

definition on_db :: "(world, 'a) state \<Rightarrow> (world \<times> 's, 'a) state" where
  "on_db m = State (\<lambda>(w, s). case run_state m w of (r, w') \<Rightarrow> (r, (w', s)))"

definition on_store :: "('s \<Rightarrow> 'a \<times> 's) \<Rightarrow> (world \<times> 's, 'a) state" where
  "on_store f = State (\<lambda>(w, s). case f s of (r, s') \<Rightarrow> (r, (w, s')))"

definition ask_store :: "('s \<Rightarrow> 'a) \<Rightarrow> (world \<times> 's, 'a) state" where
  "ask_store f = on_store (\<lambda>s. (f s, s))"

lemma run_on_db [exec_simps]:
  "run_state (on_db m) (w, s) = (case run_state m w of (r, w') \<Rightarrow> (r, (w', s)))"
  by (simp add: on_db_def)

lemma run_on_store [exec_simps]:
  "run_state (on_store f) (w, s) = (case f s of (r, s') \<Rightarrow> (r, (w, s')))"
  by (simp add: on_store_def)

lemma run_ask_store [exec_simps]: "run_state (ask_store f) (w, s) = (f s, (w, s))"
  by (simp add: ask_store_def exec_simps)

definition with_task_row :: "string \<Rightarrow> (task \<Rightarrow> (world \<times> 's, response) state) \<Rightarrow>
    (world \<times> 's, response) state" where
  "with_task_row i k = do {
     r \<leftarrow> on_db (GetByID i);
     case r of
       Inl e \<Rightarrow> State_Monad.return (WriteErrorSafe 500 ''get_failed'')
     | Inr None \<Rightarrow> State_Monad.return (WriteError 404 ''not_found'' ''task not found'')
     | Inr (Some t) \<Rightarrow> k t
   }"

subsection \<open>Handlers\<close>

text \<open>
  What \<open>ParseMultipartForm\<close>, \<open>FormFile\<close> and the read of the first 512 bytes give: an error of
  one of the three, or the file with its name and the content type detected from its head.
\<close>

datatype form = BadForm | NoFile | ReadError | File (file_name: string) (file_data: string) (file_type: string)

definition artifact_key :: "string \<Rightarrow> string \<Rightarrow> string \<Rightarrow> string" where
  "artifact_key taskID uuid filename = taskID @ ''/'' @ uuid @ ''-'' @ filename"

definition UploadArtifact :: "'s rustfs_client \<Rightarrow> string \<Rightarrow> string \<Rightarrow> form \<Rightarrow> (world \<times> 's, response) state" where
  "UploadArtifact c uuid taskID f = with_task_row taskID (\<lambda>t. case f of
     BadForm \<Rightarrow> State_Monad.return (WriteError 400 ''invalid_form'' ''failed to parse multipart form'')
   | NoFile \<Rightarrow> State_Monad.return (WriteError 400 ''missing_file'' ''file field is required'')
   | ReadError \<Rightarrow> State_Monad.return (WriteError 400 ''read_error'' ''failed to read file'')
   | File filename data contentType \<Rightarrow>
       if data = [] then State_Monad.return (WriteError 400 ''empty_file'' ''file is empty'')
       else (let key = artifact_key taskID uuid filename; n = int (length data) in do {
         u \<leftarrow> on_store (Upload c key data contentType);
         case u of
           Inl e \<Rightarrow> State_Monad.return (WriteErrorSafe 500 ''upload_failed'')
         | Inr _ \<Rightarrow> (let a = \<lparr>Key = key, Bucket = RBucket c, Size = n, ContentType = contentType\<rparr> in do {
             r \<leftarrow> on_db (AddArtifact taskID a);
             State_Monad.return (case r of
               Inl e \<Rightarrow> WriteErrorSafe 500 ''add_artifact_failed''
             | Inr _ \<Rightarrow> WriteJSON 201 (ArtifactBody a))
           })
       }))"

definition ListArtifacts :: "string \<Rightarrow> (world \<times> 's, response) state" where
  "ListArtifacts taskID = with_task_row taskID (\<lambda>t. do {
     r \<leftarrow> on_db (GetArtifacts taskID);
     State_Monad.return (case r of
       Inl e \<Rightarrow> WriteErrorSafe 500 ''list_failed''
     | Inr l \<Rightarrow> WriteJSON 200 (ArtifactsBody (elems l)))
   })"

definition DownloadArtifact :: "'s rustfs_client \<Rightarrow> string \<Rightarrow> string \<Rightarrow> (world \<times> 's, response) state" where
  "DownloadArtifact c taskID key =
    (if key = [] then State_Monad.return (WriteError 400 ''missing_key'' ''key query parameter is required'')
     else with_task_row taskID (\<lambda>t. do {
       d \<leftarrow> ask_store (Download c key);
       State_Monad.return (case d of
         Inl NotFound \<Rightarrow> WriteError 404 ''not_found'' ''artifact not found''
       | Inl StoreError \<Rightarrow> WriteErrorSafe 500 ''download_failed''
       | Inr (data, contentType, n) \<Rightarrow> WriteJSON 200 (DataBody contentType n data))
     }))"

text \<open>\<open>key\<close> is none when the query has no parameter of that name.\<close>

definition DispatchListOrDownload :: "'s rustfs_client \<Rightarrow> string \<Rightarrow> string option \<Rightarrow>
    (world \<times> 's, response) state" where
  "DispatchListOrDownload c taskID key = (case key of
     Some k \<Rightarrow> DownloadArtifact c taskID k | None \<Rightarrow> ListArtifacts taskID)"

definition DeleteArtifact :: "'s rustfs_client \<Rightarrow> string \<Rightarrow> string \<Rightarrow> (world \<times> 's, response) state" where
  "DeleteArtifact c taskID key =
    (if key = [] then State_Monad.return (WriteError 400 ''missing_key'' ''key query parameter is required'')
     else with_task_row taskID (\<lambda>t. do {
       x \<leftarrow> ask_store (Exists c key);
       case x of
         Inl e \<Rightarrow> State_Monad.return (WriteErrorSafe 500 ''check_failed'')
       | Inr ex \<Rightarrow>
           if \<not> ex then State_Monad.return (WriteError 404 ''not_found'' ''artifact not found'')
           else do {
             d \<leftarrow> on_store (Delete c key);
             case d of
               Inl e \<Rightarrow> State_Monad.return (WriteErrorSafe 500 ''delete_failed'')
             | Inr _ \<Rightarrow> do {
                 r \<leftarrow> on_db (RemoveArtifact taskID key);
                 State_Monad.return (case r of
                   Inl e \<Rightarrow> WriteErrorSafe 500 ''remove_artifact_failed''
                 | Inr _ \<Rightarrow> WriteJSON 204 NoBody)
               }
           }
     }))"

definition CleanupArtifacts :: "'s rustfs_client \<Rightarrow> string \<Rightarrow> (world \<times> 's, response) state" where
  "CleanupArtifacts c taskID = with_task_row taskID (\<lambda>t.
     if \<not> Enabled c then State_Monad.return (WriteError 503 ''rustfs_disabled'' ''RustFS storage not configured'')
     else do {
       l \<leftarrow> ask_store (ListObjects c (taskID @ ''/''));
       case l of
         Inl e \<Rightarrow> State_Monad.return (WriteErrorSafe 500 ''list_failed'')
       | Inr objects \<Rightarrow> do {
           d \<leftarrow> on_store (delete_all c objects);
           case d of
             Inl e \<Rightarrow> State_Monad.return (WriteErrorSafe 500 ''delete_failed'')
           | Inr _ \<Rightarrow> do {
               r \<leftarrow> on_db (SetArtifactsJSON taskID ''[]'');
               State_Monad.return (case r of
                 Inl e \<Rightarrow> WriteErrorSafe 500 ''clear_artifacts_failed''
               | Inr _ \<Rightarrow> WriteJSON 200 NoBody)
             }
         }
     })"

subsection \<open>Writes\<close>

text \<open>What a handler on the world and the store does to the database.\<close>

definition issues_store :: "bool \<Rightarrow> (world \<times> 's, 'a) state \<Rightarrow> bool" where
  "issues_store u m \<longleftrightarrow> (\<forall>w s. wf_db (db w) \<longrightarrow>
     (db_write u)\<^sup>*\<^sup>* (db w) (db (fst (snd (run_state m (w, s))))))"

lemma issues_on_db [steps_intros]: "issues u m \<Longrightarrow> issues_store u (on_db m)"
  by (simp add: issues_store_def issues_def exec_simps split: prod.split) (metis snd_conv)

lemma issues_on_store [steps_intros]: "issues_store u (on_store f)" "issues_store u (ask_store g)"
  by (simp_all add: issues_store_def exec_simps split: prod.split)

lemma issues_store_return [steps_intros]: "issues_store u (State_Monad.return x)"
  by (simp add: issues_store_def exec_simps)

lemma issues_store_bind [steps_intros]:
  assumes "issues_store u m" and "\<And>x. issues_store u (f x)"
  shows "issues_store u (State_Monad.bind m f)"
  unfolding issues_store_def
proof (intro allI impI)
  fix w :: world and s
  assume wf: "wf_db (db w)"
  obtain x w' s' where m: "run_state m (w, s) = (x, (w', s'))" by (metis prod.exhaust)
  have 1: "(db_write u)\<^sup>*\<^sup>* (db w) (db w')" using assms(1) [unfolded issues_store_def, rule_format, OF wf, of s] m by simp
  then have "wf_db (db w')" using wf by (rule db_writes_wf)
  then have "(db_write u)\<^sup>*\<^sup>* (db w') (db (fst (snd (run_state (f x) (w', s')))))"
    using assms(2) by (auto simp: issues_store_def)
  with 1 show "(db_write u)\<^sup>*\<^sup>* (db w) (db (fst (snd (run_state (State_Monad.bind m f) (w, s)))))"
    by (simp add: exec_simps m)
qed

lemma issues_store_cases [steps_intros]:
  "issues_store u m \<Longrightarrow> issues_store u m' \<Longrightarrow> issues_store u (if b then m else m')"
  "issues_store u m \<Longrightarrow> (\<And>x. issues_store u (f x)) \<Longrightarrow>
     issues_store u (case z of None \<Rightarrow> m | Some x \<Rightarrow> f x)"
  "(\<And>e. issues_store u (g e)) \<Longrightarrow> (\<And>x. issues_store u (h x)) \<Longrightarrow>
     issues_store u (case y of Inl e \<Rightarrow> g e | Inr x \<Rightarrow> h x)"
  by (cases z; cases y; simp)+

lemma issues_store_form [steps_intros]:
  "issues_store u a \<Longrightarrow> issues_store u b \<Longrightarrow> issues_store u c \<Longrightarrow> (\<And>n d t. issues_store u (k n d t)) \<Longrightarrow>
     issues_store u (case f of BadForm \<Rightarrow> a | NoFile \<Rightarrow> b | ReadError \<Rightarrow> c | File n d t \<Rightarrow> k n d t)"
  by (cases f) simp_all

lemma issues_with_task_row [steps_intros]:
  "(\<And>t. issues_store u (k t)) \<Longrightarrow> issues_store u (with_task_row i k)"
  unfolding with_task_row_def by (intro steps_intros)

lemma issues_UploadArtifact: "issues_store u (UploadArtifact c uid i f)"
  unfolding UploadArtifact_def Let_def by (intro steps_intros)

lemma issues_ListArtifacts [steps_intros]: "issues_store u (ListArtifacts i)"
  unfolding ListArtifacts_def by (intro steps_intros)

lemma issues_DownloadArtifact [steps_intros]: "issues_store u (DownloadArtifact c i k)"
  unfolding DownloadArtifact_def by (intro steps_intros)

lemma issues_DispatchListOrDownload: "issues_store u (DispatchListOrDownload c i k)"
  unfolding DispatchListOrDownload_def by (intro steps_intros)

lemma issues_DeleteArtifact: "issues_store u (DeleteArtifact c i k)"
  unfolding DeleteArtifact_def by (intro steps_intros)

lemma issues_CleanupArtifacts: "issues_store u (CleanupArtifacts c i)"
proof -
  have "issues u (SetArtifactsJSON i ''[]'')" for i
    using issues_SetArtifactsJSON [of u i "Some []"] by (simp add: marshal_artifacts_empty)
  then show ?thesis unfolding CleanupArtifacts_def by (intro steps_intros)
qed

end
