(* ===== verification/Dashboard.thy ===== *)
theory Dashboard
  imports ArtifactHandler "HOL-Library.AList"
begin

text \<open>
  \<^verbatim>\<open>internal/api/dashboard_handler.go\<close> and \<^verbatim>\<open>health.go\<close>: the overview of the tasks and
  the health of the services the program talks to.
\<close>

subsection \<open>Tasks by status\<close>

definition status_group :: "string \<Rightarrow> (string \<times> task list) list \<Rightarrow> task list" where
  "status_group s m = (case map_of m s of None \<Rightarrow> [] | Some ts \<Rightarrow> ts)"

fun group_loop :: "task list \<Rightarrow> (string \<times> task list) list \<Rightarrow> (string \<times> task list) list" where
  "group_loop [] m = m"
| "group_loop (t # ts) m = (let s = (if Status t = [] then st_pending else Status t) in
     group_loop ts (AList.update s (status_group s m @ [t]) m))"

definition groupTasksByStatus :: "task list \<Rightarrow> (string \<times> task list) list" where
  "groupTasksByStatus ts = group_loop ts (map (\<lambda>s. (s, [])) task_statuses)"

lemma group_loop_group:
  "status_group s (group_loop ts m) = status_group s m @
     filter (\<lambda>t. (if Status t = [] then st_pending else Status t) = s) ts"
  by (induction ts arbitrary: m) (auto simp: Let_def status_group_def update_conv')

lemma group_empty: "status_group s (map (\<lambda>s. (s, [])) ss) = []"
  by (induction ss) (auto simp: status_group_def)

lemma groupTasksByStatus_group:
  "status_group s (groupTasksByStatus ts) =
     filter (\<lambda>t. (if Status t = [] then st_pending else Status t) = s) ts"
  by (simp add: groupTasksByStatus_def group_loop_group group_empty)

lemma group_loop_keys: "map_of m s \<noteq> None \<Longrightarrow> map_of (group_loop ts m) s \<noteq> None"
  by (induction ts arbitrary: m) (simp_all add: Let_def update_conv')

lemma groupTasksByStatus_keys: "s \<in> set task_statuses \<Longrightarrow> map_of (groupTasksByStatus ts) s \<noteq> None"
  unfolding groupTasksByStatus_def 
  by (rule group_loop_keys) (simp add: map_of_eq_None_iff image_comp)

definition count_stale :: "int \<Rightarrow> bool \<Rightarrow> (world, int) state" where
  "count_stale staleAgentMin hasRepo = (if 0 < staleAgentMin \<and> hasRepo then do {
       r \<leftarrow> ListStale (minutes staleAgentMin);
       State_Monad.return (case r of Inl e \<Rightarrow> 0 | Inr ags \<Rightarrow> int (length (elems ags)))
     } else State_Monad.return 0)"

definition Dashboard :: "int \<Rightarrow> bool \<Rightarrow> (world, response) state" where
  "Dashboard staleAgentMin hasRepo = do {
     c \<leftarrow> GetTaskCounts;
     case c of
       Inl e \<Rightarrow> reply (WriteErrorSafe 500 ''counts_failed'')
     | Inr counts \<Rightarrow> do {
         l \<leftarrow> List [] [] [];
         case l of
           Inl e \<Rightarrow> reply (WriteErrorSafe 500 ''list_failed'')
         | Inr ts \<Rightarrow> do {
             staleCount \<leftarrow> count_stale staleAgentMin hasRepo;
             reply (WriteJSON 200 (DashboardBody counts (groupTasksByStatus (elems ts)) staleCount
               (CTotal counts)))
           }
       }
   }"

lemma issues_Dashboard [steps_intros]: "issues u (Dashboard m b)"
  unfolding Dashboard_def count_stale_def by (intro steps_intros)

subsection \<open>Health\<close>

text \<open>
  The answer to the pings of the database and Redis (none when the handler has no such
  connection) and the client of the object store, which may be nil.
\<close>

definition component_status :: "bool option \<Rightarrow> string" where
  "component_status ping = (case ping of
     None \<Rightarrow> ''disabled'' | Some ok \<Rightarrow> if ok then ''ok'' else ''error'')"

definition storage_ping :: "'s rustfs_client option \<Rightarrow> 's \<Rightarrow> bool option \<times> 's" where
  "storage_ping rc s = (case rc of
     None \<Rightarrow> (None, s)
   | Some c \<Rightarrow> if Enabled c then (case EnsureBucket c s of
         (Inl e, s') \<Rightarrow> (Some False, s') | (Inr _, s') \<Rightarrow> (Some True, s'))
       else (None, s))"

definition Check :: "bool option \<Rightarrow> bool option \<Rightarrow> 's rustfs_client option \<Rightarrow> 's \<Rightarrow> response \<times> 's" where
  "Check database rdb rc s = (case storage_ping rc s of (storage, s') \<Rightarrow>
     (WriteJSON 200 (HealthBody
        (if database = Some False \<or> rdb = Some False \<or> storage = Some False then ''degraded'' else ''ok'')
        [(''database'', component_status database), (''redis'', component_status rdb),
         (''storage'', component_status storage)]), s'))"

end
