(* ===== verification/TimeoutService.thy ===== *)
theory TimeoutService
  imports TaskRepo AgentRepo
begin

text \<open>
  \<^verbatim>\<open>internal/timeout/timeout.go\<close>: the background service that fails tasks left pending or
  without a heartbeat and releases the tasks of agents that went silent. The loop of \<open>run\<close> is
  a list of what its \<^verbatim>\<open>select\<close> receives, ticks and at last the stop.
\<close>

record timeout_service =
  pendingTimeoutMin :: int
  taskTimeoutMin :: int
  agentStaleMin :: int
  hasAgentRepo :: bool
  checkInterval :: time

definition NewTimeoutService :: "bool \<Rightarrow> int \<Rightarrow> int \<Rightarrow> int \<Rightarrow> time \<Rightarrow> timeout_service" where
  "NewTimeoutService agentRepo pend task stale interval = \<lparr>pendingTimeoutMin = pend, taskTimeoutMin = task,
     agentStaleMin = stale, hasAgentRepo = agentRepo, checkInterval = interval\<rparr>"

definition timeout_enabled :: "timeout_service \<Rightarrow> bool" where
  "timeout_enabled s \<longleftrightarrow> \<not> (pendingTimeoutMin s \<le> 0 \<and> taskTimeoutMin s \<le> 0 \<and> agentStaleMin s \<le> 0)"

fun release_all :: "agent list \<Rightarrow> (world, unit) state" where
  "release_all [] = State_Monad.return ()"
| "release_all (a # rest) = do {
     _ \<leftarrow> ReleaseAgentTasks (AgName a);
     release_all rest
   }"

definition check_pending :: "timeout_service \<Rightarrow> (world, unit) state" where
  "check_pending s = (if 0 < pendingTimeoutMin s then do {
       _ \<leftarrow> ExpirePendingTasks (pendingTimeoutMin s);
       State_Monad.return ()
     } else State_Monad.return ())"

definition check_stale_tasks :: "timeout_service \<Rightarrow> (world, unit) state" where
  "check_stale_tasks s = (if 0 < taskTimeoutMin s then do {
       _ \<leftarrow> ExpireStaleInProgressTasks (taskTimeoutMin s);
       State_Monad.return ()
     } else State_Monad.return ())"

definition check_stale_agents :: "timeout_service \<Rightarrow> (world, unit) state" where
  "check_stale_agents s = (if 0 < agentStaleMin s \<and> hasAgentRepo s then do {
       r \<leftarrow> ListStale (minutes (agentStaleMin s));
       case r of
         Inl e \<Rightarrow> State_Monad.return ()
       | Inr staleAgents \<Rightarrow> release_all (elems staleAgents)
     } else State_Monad.return ())"

definition check :: "timeout_service \<Rightarrow> (world, unit) state" where
  "check s = do { check_pending s; check_stale_tasks s; check_stale_agents s }"

fun ticks :: "timeout_service \<Rightarrow> nat \<Rightarrow> (world, unit) state" where
  "ticks s 0 = State_Monad.return ()"
| "ticks s (Suc n) = do { check s; ticks s n }"

text \<open>
  \<open>run\<close> checks at once, then makes a ticker, which panics for an interval that is not positive
  (none), and checks on each of the \<open>n\<close> ticks before the stop. A panic in a goroutine ends the
  program.
\<close>

definition run_service :: "timeout_service \<Rightarrow> nat \<Rightarrow> (world, unit option) state" where
  "run_service s n = do {
     check s;
     if checkInterval s \<le> 0 then State_Monad.return None
     else do { ticks s n; State_Monad.return (Some ()) }
   }"

definition Start :: "timeout_service \<Rightarrow> nat \<Rightarrow> (world, unit option) state" where
  "Start s n = (if \<not> timeout_enabled s then State_Monad.return (Some ()) else run_service s n)"

subsection \<open>Stopping\<close>

text \<open>
  \<open>Stop\<close> closes the stop channel; the flag says whether it is closed already, and closing it
  again is a panic, the value none.
\<close>

definition Stop :: "bool \<Rightarrow> bool option" where
  "Stop closed = (if closed then None else Some True)"

subsection \<open>Writes\<close>

lemma issues_release_all [steps_intros]: "issues u (release_all ags)"
proof (induction ags)
  case Nil
  then show ?case by (simp add: steps_intros)
next
  case (Cons a ags)
  then show ?case unfolding release_all.simps by (intro steps_intros)
qed

lemma issues_check [steps_intros]: "issues u (check s)"
  unfolding check_def check_pending_def check_stale_tasks_def check_stale_agents_def
  by (intro steps_intros)

lemma issues_ticks [steps_intros]: "issues u (ticks s n)"
proof (induction n)
  case 0
  then show ?case by (simp add: steps_intros)
next
  case (Suc n)
  then show ?case unfolding ticks.simps by (intro steps_intros)
qed

lemma issues_Start [steps_intros]: "issues u (Start s n)"
  unfolding Start_def run_service_def by (intro steps_intros)

end
