(* ===== verification/System.thy ===== *)
theory System
  imports TaskHandler AgentHandler Dashboard TimeoutService
begin

text \<open>
  The running program: the routes of \<^verbatim>\<open>internal/api/router.go\<close>, the background services and
  the goroutines as the operations of a state machine on the world and the object store. An
  operation runs to its end before the next one starts; between two of them the clock moves,
  faults are scheduled and any started goroutine may be picked. Every operation is a sequence
  of the writes of \<open>db_write\<close>, so the relations of the last section hold of every run.
\<close>

record 's program =
  Ext :: extern
  Hnd :: handler
  Timeouts :: timeout_service
  Store :: "'s rustfs_client"
  Rdb :: bool
  AdminToken :: string

datatype op =
    OpCreate string "create_input option" | OpList string string "string list" | OpGet string
  | OpClaim string "string option" | OpStart string | OpBlock string "(string \<times> string) option"
  | OpUnblock string "string option" | OpComplete string "string option" | OpFail string "string option"
  | OpTaskHeartbeat string | OpTaskEvents string | OpGraph string
  | OpAnswer string string "string option" | OpApprove string string "string option" | OpGates string
  | OpDispatch string | OpEvents "string \<Rightarrow> time option" string string string "string list"
  | OpDashboard int | OpHealth "bool option" "bool option"
  | OpUpload string string form | OpListOrDownload string "string option" | OpDelete string string
  | OpCleanup string
  | OpRegister "string option" "string option" "(string \<Rightarrow> bool) option" string string "register_input option"
  | OpHeartbeat "(string \<Rightarrow> bool) option" string "string option" | OpGetAgent string
  | OpGetCursor string | OpSetCursor string "int option"
  | OpAuth "string option" string string
  | OpTimeouts | OpRetryQueues | OpJob nat nat
  | OpClock time | OpFaults "bool list" | OpAnswers "int option list"

subsection \<open>Goroutines\<close>

text \<open>Any goroutine can be next; a drain is given \<open>fuel\<close> pops.\<close>

fun run_job :: "'s program \<Rightarrow> nat \<Rightarrow> job \<Rightarrow> (world, unit) state" where
  "run_job y fuel (Publish e t a g s k) = PublishTaskEvent (Rdb y) e t a g s k"
| "run_job y fuel (Notify t old new action) = NotifyStatusChange t old new action"
| "run_job y fuel (Dispatch tp) = do { _ \<leftarrow> DispatchNewTask tp; State_Monad.return () }"
| "run_job y fuel (SendWebhook ag t n) = sendWebhook (Ext y) (Rdb y) ag t n"
| "run_job y fuel (SendStatus ag t old new action) = sendStatusWebhook (Ext y) ag t old new action"
| "run_job y fuel (DrainQueue k) = drain fuel (Ext y) (Rdb y) k"

definition take_job :: "nat \<Rightarrow> (world, job option) state" where
  "take_job k = State (\<lambda>w. if k < length (jobs w)
     then (Some (jobs w ! k), w\<lparr>jobs := take k (jobs w) @ drop (Suc k) (jobs w)\<rparr>) else (None, w))"

definition job_op :: "'s program \<Rightarrow> nat \<Rightarrow> nat \<Rightarrow> (world, unit) state" where
  "job_op y k fuel = do {
     j \<leftarrow> take_job k;
     case j of None \<Rightarrow> State_Monad.return () | Some g \<Rightarrow> run_job y fuel g
   }"

definition set_clock :: "time \<Rightarrow> (world, unit) state" where
  "set_clock n = State (\<lambda>w. ((), w\<lparr>now := max (now w) n\<rparr>))"

definition set_faults :: "bool list \<Rightarrow> (world, unit) state" where
  "set_faults fs = State (\<lambda>w. ((), w\<lparr>faults := fs\<rparr>))"

definition set_answers :: "int option list \<Rightarrow> (world, unit) state" where
  "set_answers as = State (\<lambda>w. ((), w\<lparr>answers := as\<rparr>))"

subsection \<open>The operations\<close>

definition quiet :: "(world, 'a) state \<Rightarrow> (world \<times> 's, response option) state" where
  "quiet m = do { _ \<leftarrow> on_db m; State_Monad.return None }"

definition answer :: "(world, response) state \<Rightarrow> (world \<times> 's, response option) state" where
  "answer m = do { r \<leftarrow> on_db m; State_Monad.return (Some r) }"

definition answer_store :: "(world \<times> 's, response) state \<Rightarrow> (world \<times> 's, response option) state" where
  "answer_store m = do { r \<leftarrow> m; State_Monad.return (Some r) }"

fun run_op :: "'s program \<Rightarrow> op \<Rightarrow> (world \<times> 's, response option) state" where
  "run_op y (OpCreate uuid b) = answer (CreateTask_handler (Hnd y) uuid b)"
| "run_op y (OpList s a q) = answer (ListTasks s a q)"
| "run_op y (OpGet i) = answer (GetTask i)"
| "run_op y (OpClaim i b) = answer (ClaimTask_handler (Hnd y) i b)"
| "run_op y (OpStart i) = answer (StartTask_handler (Hnd y) i)"
| "run_op y (OpBlock i b) = answer (BlockTask_handler (Hnd y) i b)"
| "run_op y (OpUnblock i b) = answer (UnblockTask (Hnd y) i b)"
| "run_op y (OpComplete i b) = answer (CompleteTask_handler (Hnd y) i b)"
| "run_op y (OpFail i b) = answer (FailTask_handler (Hnd y) i b)"
| "run_op y (OpTaskHeartbeat i) = answer (TaskHeartbeat i)"
| "run_op y (OpTaskEvents i) = answer (ListTaskEvents_handler i)"
| "run_op y (OpGraph i) = answer (TaskGraph i)"
| "run_op y (OpAnswer i g b) = answer (AnswerGate_handler i g b)"
| "run_op y (OpApprove i g b) = answer (ApproveGate i g b)"
| "run_op y (OpGates i) = answer (ListTaskGates i)"
| "run_op y (OpDispatch ag) = answer (DispatchNext ag)"
| "run_op y (OpEvents p since ag l af) = answer (ListGlobalEvents p since ag l af)"
| "run_op y (OpDashboard m) = answer (Dashboard m True)"
| "run_op y (OpHealth database rdb) = answer_store (on_store (Check database rdb (Some (Store y))))"
| "run_op y (OpUpload uuid i f) = answer_store (UploadArtifact (Store y) uuid i f)"
| "run_op y (OpListOrDownload i k) = answer_store (DispatchListOrDownload (Store y) i k)"
| "run_op y (OpDelete i k) = answer_store (DeleteArtifact (Store y) i k)"
| "run_op y (OpCleanup i) = answer_store (CleanupArtifacts (Store y) i)"
| "run_op y (OpRegister salt nonce allow a t b) =
     answer (RegisterAgent (Ext y) (Cfg (Hnd y)) salt nonce allow a t b)"
| "run_op y (OpHeartbeat allow a b) = answer (Heartbeat allow a b)"
| "run_op y (OpGetAgent a) = answer (GetAgent a)"
| "run_op y (OpGetCursor a) = answer (GetAgentCursor a)"
| "run_op y (OpSetCursor a c) = answer (UpdateAgentCursor a c)"
| "run_op y (OpAuth salt path auth) = quiet (AuthMiddleware (Ext y) salt (AdminToken y) path auth)"
| "run_op y OpTimeouts = quiet (check (Timeouts y))"
| "run_op y OpRetryQueues = quiet processAllRetryQueues"
| "run_op y (OpJob k fuel) = quiet (job_op y k fuel)"
| "run_op y (OpClock n) = quiet (set_clock n)"
| "run_op y (OpFaults fs) = quiet (set_faults fs)"
| "run_op y (OpAnswers as) = quiet (set_answers as)"

fun is_unblock :: "op \<Rightarrow> bool" where
  "is_unblock (OpUnblock i b) = True"
| "is_unblock _ = False"

definition step_op :: "'s program \<Rightarrow> op \<Rightarrow> world \<times> 's \<Rightarrow> world \<times> 's" where
  "step_op y p c = snd (run_state (run_op y p) c)"

text \<open>The databases a run goes through, with \<open>u\<close> telling whether unblocking is among its steps.\<close>

inductive runs :: "'s program \<Rightarrow> bool \<Rightarrow> world \<times> 's \<Rightarrow> world \<times> 's \<Rightarrow> bool" for y u c where
  runs_refl: "runs y u c c"
| runs_step: "runs y u c c' \<Longrightarrow> is_unblock p \<longrightarrow> u \<Longrightarrow> runs y u c (step_op y p c')"

inductive_cases runs_cases: "runs y u c c'"

subsection \<open>Every operation is a sequence of writes\<close>

lemma issues_run_job [steps_intros]: "issues u (run_job y fuel j)"
  by (cases j) (simp_all add: issues_PublishTaskEvent issues_NotifyStatusChange issues_bind
      issues_DispatchNewTask issues_return issues_sendWebhook issues_sendStatusWebhook issues_drain)

lemma issues_environment [steps_intros]:
  "issues u (take_job k)" "issues u (set_clock n)" "issues u (set_faults fs)" "issues u (set_answers as)"
  by (simp_all add: issues_def take_job_def set_clock_def set_faults_def set_answers_def)

lemma issues_job_op [steps_intros]: "issues u (job_op y k fuel)"
  unfolding job_op_def by (intro steps_intros)

lemma issues_answer:
  "issues u m \<Longrightarrow> issues_store u (answer m)" "issues u m' \<Longrightarrow> issues_store u (quiet m')"
  "issues_store u n \<Longrightarrow> issues_store u (answer_store n)"
  unfolding answer_def quiet_def answer_store_def by (intro steps_intros; assumption)+

lemma issues_run_op: "is_unblock p \<longrightarrow> u \<Longrightarrow> issues_store u (run_op y p)"
proof (cases p)
  case (OpUnblock i b)
  assume "is_unblock p \<longrightarrow> u"
  with OpUnblock have u: "u = True" by simp
  show ?thesis unfolding u OpUnblock run_op.simps by (intro issues_answer steps_intros)
qed (simp_all only: run_op.simps; intro issues_answer steps_intros issues_UploadArtifact
      issues_DispatchListOrDownload issues_DeleteArtifact issues_CleanupArtifacts)+

lemma step_op_writes:
  assumes "is_unblock p \<longrightarrow> u" and "wf_db (db (fst c))"
  shows "(db_write u)\<^sup>*\<^sup>* (db (fst c)) (db (fst (step_op y p c)))"
  using issues_run_op [OF assms(1), of y] assms(2) unfolding issues_store_def step_op_def
  by (metis prod.collapse)

lemma runs_writes: "runs y u c c' \<Longrightarrow> wf_db (db (fst c)) \<Longrightarrow> (db_write u)\<^sup>*\<^sup>* (db (fst c)) (db (fst c'))"
proof (induction rule: runs.induct)
  case (runs_step c' p)
  then have "wf_db (db (fst c'))" using db_writes_wf by blast
  with runs_step step_op_writes show ?case by (metis rtranclp_trans)
qed simp

end
