(* ===== verification/Lifecycle.thy ===== *)
theory Lifecycle
  imports System
begin

text \<open>
  The abstract specification of a task and of a gate: the state machines \<open>row_step\<close> and
  \<open>gate_step\<close> of one row. The writes of the program refine them: a write changes a row by one
  of their steps or not at all, and no row disappears. What the steps keep is then kept by
  every run: the locales \<open>row_relation\<close> and \<open>row_invariant\<close> and their interpretations.
\<close>

subsection \<open>The life of a task\<close>

text \<open>The flag is the one of \<open>db_write\<close>: only unblocking takes the unguarded step.\<close>

inductive row_step :: "bool \<Rightarrow> task_row \<Rightarrow> task_row \<Rightarrow> bool" for u where
  unblock: "u \<Longrightarrow> row_step u r (set_status st_in_progress n r)"
| claim: "t_status r = st_pending \<Longrightarrow> a \<noteq> [] \<Longrightarrow>
     row_step u r ((set_status st_claimed n r)\<lparr>t_assignee := a\<rparr>)"
| start: "t_status r = st_claimed \<Longrightarrow> row_step u r (set_status st_in_progress n r)"
| block: "t_status r = st_in_progress \<or> t_status r = st_claimed \<Longrightarrow>
     row_step u r (set_status st_blocked n r)"
| complete: "t_status r = st_in_progress \<Longrightarrow>
     row_step u r ((set_status st_completed n r)\<lparr>t_summary := s\<rparr>)"
| fail: "t_status r = st_in_progress \<or> t_status r = st_pending \<Longrightarrow>
     row_step u r ((set_status st_failed n r)\<lparr>t_summary := s\<rparr>)"
| retry: "t_status r = st_failed \<Longrightarrow> 0 < t_max_retries r \<Longrightarrow> t_retry_count r < t_max_retries r \<Longrightarrow>
     row_step u r ((set_status st_pending n r)\<lparr>t_retry_count := t_retry_count r + 1, t_assignee := []\<rparr>)"
| release: "t_status r = st_claimed \<or> t_status r = st_in_progress \<Longrightarrow>
     row_step u r ((set_status st_pending n r)\<lparr>t_assignee := []\<rparr>)"
| heartbeat: "row_step u r (r\<lparr>t_last_heartbeat := Some n, t_updated_at := n\<rparr>)"
| artifacts: "row_step u r (r\<lparr>t_artifacts_json := marshal_artifacts xs\<rparr>)"

inductive_simps row_step_simps: "row_step u r r'"

definition fresh_row :: "task_row \<Rightarrow> bool" where
  "fresh_row r \<longleftrightarrow> (\<exists>t n. r = task_row_of t n \<and> Status t = st_pending \<and> RetryCount t = 0)"

lemma find_task_cong: "tasks d' = tasks d \<Longrightarrow> find_task j d' = find_task j d"
  by (simp add: find_task_def)

lemma write_frames:
  "tasks (snd (sql_insert_gate g n d)) = tasks d" "tasks (snd (sql_ask_gate s i n d)) = tasks d"
  "tasks (snd (sql_answer_gate s i n d)) = tasks d" "tasks (snd (sql_resolve_gate i n d)) = tasks d"
  "tasks (snd (sql_upsert_agent a n d)) = tasks d" "tasks (snd (sql_agent_heartbeat ts i n d)) = tasks d"
  "tasks (snd (sql_set_cursor c i n d)) = tasks d" "tasks (snd (sql_store_token h p i n d)) = tasks d"
  "tasks (snd (sql_insert_event t e b x n d)) = tasks d"
  by (simp_all add: gate_stmt_defs agent_stmt_defs sql_insert_event_def)

lemmas find_frames = write_frames [THEN find_task_cong]

lemma update_row:
  assumes "find_task j d = Some r" and "\<And>r. t_id (f r) = t_id r"
    and "P r \<Longrightarrow> row_step u r (f r)"
  shows "\<exists>r'. find_task j (snd (update_tasks P f d)) = Some r' \<and> (r' = r \<or> row_step u r r')"
  using assms by (auto simp: find_task_update)

lemmas plain_updates = sql_claim_def sql_start_def sql_block_def sql_complete_def sql_fail_def
  sql_expire_pending_def sql_task_heartbeat_def sql_expire_stale_def sql_set_artifacts_def

theorem write_row:
  assumes "db_write u d d'" and "find_task j d = Some r"
  shows "\<exists>r'. find_task j d' = Some r' \<and> (r' = r \<or> row_step u r r')"
  using assms(1)
proof cases
  case (insert_task t n)
  with assms(2) show ?thesis
    by (auto simp: sql_insert_task_def find_task_def find_append)
next
  case (unblock i n)
  with assms(2) show ?thesis
    unfolding sql_update_status_def by (auto intro!: update_row row_step.unblock)
next
  case (retry i row n)
  have "row_step u r ((set_status st_pending n r)
      \<lparr>t_retry_count := t_retry_count r + 1, t_assignee := []\<rparr>)" if "t_id r = i"
    using retry assms(2) that find_task_Some [OF assms(2)] by (intro row_step.retry) auto
  with retry assms(2) show ?thesis
    unfolding sql_retry_def by (auto intro!: update_row)
next
  case (release i row n)
  have "row_step u r ((set_status st_pending n r)\<lparr>t_assignee := []\<rparr>)" if "t_id r = i"
    using release assms(2) that find_task_Some [OF assms(2)] by (intro row_step.release) auto
  with release assms(2) show ?thesis
    unfolding sql_release_def by (auto intro!: update_row)
qed (use assms(2) in \<open>auto simp: find_frames plain_updates intro!: update_row intro: row_step.intros\<close>)

lemma find_task_update_None:
  assumes "\<And>r. t_id (f r) = t_id r" and "find_task j d = None"
  shows "find_task j (snd (update_tasks P f d)) = None"
  using assms by (simp add: find_task_update)

theorem write_fresh:
  assumes "db_write u d d'" and "find_task j d = None" and "find_task j d' = Some r"
  shows "fresh_row r"
  using assms(1)
proof cases
  case (insert_task t n)
  with assms(2,3) show ?thesis
    by (auto simp: sql_insert_task_def find_task_def find_append fresh_row_def split: if_splits)
next
  case (unblock i n)
  with assms(2,3) show ?thesis
    by (auto simp: sql_update_status_def find_task_update_None split: if_splits)
next
  case (retry i row n)
  with assms(2,3) show ?thesis
    by (auto simp: sql_retry_def find_task_update_None split: if_splits)
qed (use assms(2,3) in \<open>simp_all add: find_frames sql_claim_def sql_start_def sql_block_def
      sql_complete_def sql_fail_def sql_expire_pending_def sql_task_heartbeat_def
      sql_expire_stale_def sql_set_artifacts_def sql_release_def find_task_update_None\<close>)

subsection \<open>What rows keep\<close>

locale row_relation =
  fixes u :: bool and Q :: "task_row \<Rightarrow> task_row \<Rightarrow> bool"
  assumes row_refl: "Q r r"
    and row_trans: "Q r1 r2 \<Longrightarrow> Q r2 r3 \<Longrightarrow> Q r1 r3"
    and row_keeps: "t_status r \<in> set task_statuses \<Longrightarrow> row_step u r r' \<Longrightarrow> Q r r'"
begin

definition kept :: "database \<Rightarrow> database \<Rightarrow> bool" where
  "kept d d' \<longleftrightarrow> (\<forall>j r. find_task j d = Some r \<longrightarrow> (\<exists>r'. find_task j d' = Some r' \<and> Q r r'))"

lemma kept_refl: "kept d d"
  using row_refl by (auto simp: kept_def)

lemma kept_trans: "kept d1 d2 \<Longrightarrow> kept d2 d3 \<Longrightarrow> kept d1 d3"
  unfolding kept_def using row_trans by blast

lemma kept_write: "wf_db d \<Longrightarrow> db_write u d d' \<Longrightarrow> kept d d'"
  unfolding kept_def using write_row row_keeps row_refl find_task_status by blast

end

sublocale row_relation \<subseteq> write_closed u kept
  by unfold_locales (blast intro: kept_refl kept_trans kept_write)+

context row_relation
begin

lemma along_run:
  "runs y u c c' \<Longrightarrow> wf_db (db (fst c)) \<Longrightarrow> find_task j (db (fst c)) = Some r \<Longrightarrow>
     \<exists>r'. find_task j (db (fst c')) = Some r' \<and> Q r r'"
  using writes [OF runs_writes [of y u c c']] by (simp add: kept_def)

end

locale row_invariant =
  fixes u :: bool and I :: "task_row \<Rightarrow> bool"
  assumes fresh: "fresh_row r \<Longrightarrow> I r"
    and step: "t_status r \<in> set task_statuses \<Longrightarrow> row_step u r r' \<Longrightarrow> I r \<Longrightarrow> I r'"
begin

definition all_rows :: "database \<Rightarrow> bool" where
  "all_rows d \<longleftrightarrow> (\<forall>j r. find_task j d = Some r \<longrightarrow> I r)"

lemma all_rows_write: "wf_db d \<Longrightarrow> db_write u d d' \<Longrightarrow> all_rows d \<Longrightarrow> all_rows d'"
  unfolding all_rows_def
proof (intro allI impI)
  fix j r'
  assume wf: "wf_db d" and w: "db_write u d d'" and all: "\<forall>j r. find_task j d = Some r \<longrightarrow> I r"
    and r': "find_task j d' = Some r'"
  show "I r'"
  proof (cases "find_task j d")
    case None
    from write_fresh [OF w None r'] show ?thesis by (rule fresh)
  next
    case (Some r)
    with write_row [OF w Some] r' all step find_task_status [OF wf Some] show ?thesis by auto
  qed
qed

end

sublocale row_invariant \<subseteq> write_closed u "\<lambda>d d'. all_rows d \<longrightarrow> all_rows d'"
  by unfold_locales (blast intro: all_rows_write)+

context row_invariant
begin

lemma along_run:
  "runs y u c c' \<Longrightarrow> wf_db (db (fst c)) \<Longrightarrow> (\<And>r. r \<in> set (tasks (db (fst c))) \<Longrightarrow> I r) \<Longrightarrow>
     r' \<in> set (tasks (db (fst c'))) \<Longrightarrow> I r'"
proof -
  assume run: "runs y u c c'" and wf: "wf_db (db (fst c))"
    and i: "\<And>r. r \<in> set (tasks (db (fst c))) \<Longrightarrow> I r" and r': "r' \<in> set (tasks (db (fst c')))"
  have "all_rows (db (fst c))" using i find_task_Some by (fastforce simp: all_rows_def)
  then have "all_rows (db (fst c'))" using writes [OF runs_writes [OF run wf] wf] by blast
  moreover have "wf_db (db (fst c'))" using runs_writes [OF run wf] wf db_writes_wf by blast
  ultimately show "I r'" using find_task_mem [OF _ r'] by (auto simp: all_rows_def)
qed

end

end
