(* ===== verification/Invariants.thy ===== *)
theory Invariants
  imports Lifecycle
begin

text \<open>
  The interpretations of the lifecycle locales: what identifies a task never changes, what is
  finished stays finished unless a task is unblocked, retries stay within their bound, an
  active task has an owner and the JSON columns hold what was marshalled. Then the same for
  gates, whose status only moves forward, and for the event log, which only grows.
\<close>

subsection \<open>Tasks\<close>

definition same_task :: "task_row \<Rightarrow> task_row \<Rightarrow> bool" where
  "same_task r r' \<longleftrightarrow> t_id r' = t_id r \<and> t_title r' = t_title r \<and> t_priority r' = t_priority r \<and>
     t_parents r' = t_parents r \<and> t_skills r' = t_skills r \<and>
     t_required_skills r' = t_required_skills r \<and> t_tags r' = t_tags r \<and>
     t_body_goal r' = t_body_goal r \<and> t_body_context r' = t_body_context r \<and>
     t_body_deliverable_format r' = t_body_deliverable_format r \<and>
     t_body_deliverable_path r' = t_body_deliverable_path r \<and>
     t_created_at r' = t_created_at r \<and> t_max_retries r' = t_max_retries r \<and>
     t_retry_count r \<le> t_retry_count r'"

interpretation identity: row_relation u same_task for u
  by unfold_locales (auto simp: same_task_def row_step_simps set_status_def)

definition retries_left :: "task_row \<Rightarrow> bool" where
  "retries_left r \<longleftrightarrow> 0 < t_max_retries r \<and> t_retry_count r < t_max_retries r"

definition finished :: "task_row \<Rightarrow> bool" where
  "finished r \<longleftrightarrow> t_status r = st_completed \<or> t_status r = st_blocked \<or>
     (t_status r = st_failed \<and> \<not> retries_left r)"

definition stays_finished :: "task_row \<Rightarrow> task_row \<Rightarrow> bool" where
  "stays_finished r r' \<longleftrightarrow> (finished r \<longrightarrow> t_status r' = t_status r \<and> t_summary r' = t_summary r \<and>
     t_assignee r' = t_assignee r \<and> t_max_retries r' = t_max_retries r \<and>
     t_retry_count r' = t_retry_count r)"

interpretation ending: row_relation False stays_finished
proof
  show "stays_finished r1 r3" if "stays_finished r1 r2" "stays_finished r2 r3" for r1 r2 r3
    using that by (auto simp: stays_finished_def finished_def retries_left_def)
qed (auto simp: stays_finished_def finished_def retries_left_def row_step_simps set_status_def)

definition retry_bound :: "task_row \<Rightarrow> bool" where
  "retry_bound r \<longleftrightarrow> 0 \<le> t_retry_count r \<and> t_retry_count r \<le> max 0 (t_max_retries r)"

interpretation retries: row_invariant u retry_bound for u
  by unfold_locales (auto simp: retry_bound_def fresh_row_def task_row_of_def row_step_simps set_status_def)

text \<open>Claimed, running and blocked tasks have an assignee.\<close>

definition owned :: "task_row \<Rightarrow> bool" where
  "owned r \<longleftrightarrow> (t_status r \<in> {st_claimed, st_in_progress, st_blocked} \<longrightarrow> t_assignee r \<noteq> [])"

interpretation owners: row_invariant False owned
  by unfold_locales (auto simp: owned_def fresh_row_def task_row_of_def row_step_simps set_status_def)

definition canonical :: "task_row \<Rightarrow> bool" where
  "canonical r \<longleftrightarrow> (\<exists>p s q t a. t_parents r = marshal_strings p \<and> t_skills r = marshal_strings s \<and>
     t_required_skills r = marshal_strings q \<and> t_tags r = marshal_strings t \<and>
     t_artifacts_json r = marshal_artifacts a)"

interpretation columns: row_invariant u canonical for u
proof
  show "canonical r" if "fresh_row r" for r
    using that by (auto simp: canonical_def fresh_row_def task_row_of_def)
  show "canonical r'" if "row_step u r r'" "canonical r" for r r'
    using that by cases (auto simp: canonical_def set_status_def)
qed

subsection \<open>Gates\<close>

inductive gate_step :: "gate_row \<Rightarrow> gate_row \<Rightarrow> bool" where
  ask: "g_status g = st_pending \<Longrightarrow> gate_step g (g\<lparr>g_status := st_asked, g_answer := s\<rparr>)"
| answer: "g_status g = st_asked \<Longrightarrow>
     gate_step g (g\<lparr>g_status := st_answered, g_answer := s, g_answered_at := Some n\<rparr>)"
| resolve: "g_status g = st_answered \<Longrightarrow> gate_step g (g\<lparr>g_status := st_resolved\<rparr>)"

inductive_simps gate_step_simps: "gate_step g g'"

lemma find_gate_cong: "gates d' = gates d \<Longrightarrow> find_gate j d' = find_gate j d"
  by (simp add: find_gate_def)

lemma gates_frames:
  "gates (snd (sql_insert_task t n d)) = gates d" "gates (snd (sql_update_status st i n d)) = gates d"
  "gates (snd (sql_claim a i n d)) = gates d" "gates (snd (sql_start i n d)) = gates d"
  "gates (snd (sql_block i n d)) = gates d" "gates (snd (sql_complete s i n d)) = gates d"
  "gates (snd (sql_fail s i n d)) = gates d" "gates (snd (sql_retry i n d)) = gates d"
  "gates (snd (sql_expire_pending i n d)) = gates d" "gates (snd (sql_release i n d)) = gates d"
  "gates (snd (sql_task_heartbeat i n d)) = gates d" "gates (snd (sql_expire_stale s i n d)) = gates d"
  "gates (snd (sql_set_artifacts raw i n d)) = gates d" "gates (snd (sql_upsert_agent ag n d)) = gates d"
  "gates (snd (sql_agent_heartbeat ts i n d)) = gates d" "gates (snd (sql_set_cursor c i n d)) = gates d"
  "gates (snd (sql_store_token h p i n d)) = gates d" "gates (snd (sql_insert_event k e b x n d)) = gates d"
  by (simp_all add: task_stmt_defs agent_stmt_defs sql_insert_event_def)

lemmas find_gate_frames = gates_frames [THEN find_gate_cong]

lemma update_gate:
  assumes "find_gate j d = Some g" and "\<And>r. g_id (f r) = g_id r" and "P g \<Longrightarrow> gate_step g (f g)"
  shows "\<exists>g'. find_gate j (snd (update_gates P f d)) = Some g' \<and> (g' = g \<or> gate_step g g')"
  using assms by (auto simp: find_gate_update)

theorem write_gate:
  assumes "db_write u d d'" and "find_gate j d = Some g"
  shows "\<exists>g'. find_gate j d' = Some g' \<and> (g' = g \<or> gate_step g g')"
  using assms(1)
proof cases
  case (insert_gate g n)
  with assms(2) show ?thesis by (auto simp: sql_insert_gate_def find_gate_def find_append)
next
  case (ask_gate s i n)
  with assms(2) show ?thesis
    unfolding sql_ask_gate_def by (auto intro!: update_gate intro: gate_step.intros)
next
  case (answer_gate s i n)
  with assms(2) show ?thesis
    unfolding sql_answer_gate_def by (auto intro!: update_gate intro: gate_step.intros)
next
  case (resolve_gate i n)
  with assms(2) show ?thesis
    unfolding sql_resolve_gate_def by (auto intro!: update_gate intro: gate_step.intros)
qed (use assms(2) in \<open>simp_all add: find_gate_frames\<close>)

definition gate_rank :: "string \<Rightarrow> nat" where
  "gate_rank s = (if s = st_pending then 0 else if s = st_asked then 1 else if s = st_answered then 2 else 3)"

definition gate_forward :: "gate_row \<Rightarrow> gate_row \<Rightarrow> bool" where
  "gate_forward g g' \<longleftrightarrow> g_id g' = g_id g \<and> g_task g' = g_task g \<and> g_question g' = g_question g \<and>
     g_created_at g' = g_created_at g \<and> gate_rank (g_status g) \<le> gate_rank (g_status g') \<and>
     (gate_rank (g_status g) = gate_rank (g_status g') \<longrightarrow> g' = g) \<and>
     (2 \<le> gate_rank (g_status g) \<longrightarrow> g_answer g' = g_answer g \<and> g_answered_at g' = g_answered_at g)"

definition gates_forward :: "database \<Rightarrow> database \<Rightarrow> bool" where
  "gates_forward d d' \<longleftrightarrow> (\<forall>j g. find_gate j d = Some g \<longrightarrow>
     (\<exists>g'. find_gate j d' = Some g' \<and> gate_forward g g'))"

lemma gate_step_forward: "gate_step g g' \<Longrightarrow> gate_forward g g'"
  by (auto simp: gate_step_simps gate_forward_def gate_rank_def)

lemma gate_forward_trans: "gate_forward g1 g2 \<Longrightarrow> gate_forward g2 g3 \<Longrightarrow> gate_forward g1 g3"
  by (auto simp: gate_forward_def)

interpretation forward: write_closed u gates_forward for u
proof
  show "gates_forward d d" for d by (simp add: gates_forward_def gate_forward_def)
  show "gates_forward d1 d3" if "gates_forward d1 d2" "gates_forward d2 d3" for d1 d2 d3
    using that gate_forward_trans unfolding gates_forward_def by blast
  show "gates_forward d d'" if "db_write u d d'" for d d'
    unfolding gates_forward_def
  proof (intro allI impI)
    fix j g assume "find_gate j d = Some g"
    from write_gate [OF that this] show "\<exists>g'. find_gate j d' = Some g' \<and> gate_forward g g'"
      using gate_step_forward by (auto simp: gate_forward_def)
  qed
qed

subsection \<open>Events\<close>

definition log_grows :: "database \<Rightarrow> database \<Rightarrow> bool" where
  "log_grows d d' \<longleftrightarrow> next_event d \<le> next_event d' \<and> (\<exists>es. events d' = events d @ es \<and>
     (\<forall>e \<in> set es. next_event d \<le> e_id e))"

lemma events_frames:
  "db_write u d d' \<Longrightarrow> (events d' = events d \<and> next_event d \<le> next_event d') \<or>
     (\<exists>e. events d' = events d @ [e] \<and> e_id e = next_event d \<and> next_event d' = next_event d + 1)"
  by (induction rule: db_write.induct) (auto simp: stmt_defs)

interpretation log: write_closed u log_grows for u
proof
  show "log_grows d d" for d by (simp add: log_grows_def)
  show "log_grows d1 d3" if "log_grows d1 d2" "log_grows d2 d3" for d1 d2 d3
    using that by (fastforce simp: log_grows_def)
  show "log_grows d d'" if "db_write u d d'" for d d'
    using events_frames [OF that] by (auto simp: log_grows_def)
qed

subsection \<open>Agents\<close>

definition agents_canonical :: "database \<Rightarrow> bool" where
  "agents_canonical d \<longleftrightarrow> (\<forall>a \<in> set (agents d). \<exists>ss. a_skills a = marshal_strings ss)"

interpretation skills: write_closed u "\<lambda>d d'. agents_canonical d \<longrightarrow> agents_canonical d'" for u
proof
  show "agents_canonical d \<longrightarrow> agents_canonical d'" if "db_write u d d'" for d d'
    using that
  proof cases
    case (upsert_agent a ss n)
    then show ?thesis
      by (auto simp: sql_upsert_agent_def agents_canonical_def set_upd_where)
  qed (auto simp: agents_canonical_def task_stmt_defs gate_stmt_defs agent_stmt_defs(2-)
      sql_insert_event_def set_upd_where)
qed auto

end
