(* ===== verification/Transitions.thy ===== *)
theory Transitions
  imports Invariants
begin

text \<open>
  The methods of the repositories without faults: the locale \<open>transition\<close> is the contract of
  an \<^verbatim>\<open>UPDATE ... WHERE id = $1 AND status = ...\<close>, a compare-and-set on one row, and the methods
  built on it are computed once for all of them.
\<close>

subsection \<open>Compare and set\<close>

definition logged :: "string \<Rightarrow> string \<Rightarrow> string \<Rightarrow> string \<Rightarrow> time \<Rightarrow> database \<Rightarrow> database" where
  "logged i ev a x n d = snd (sql_insert_event i ev a x n d)"

lemma logged_frame [simp]:
  "tasks (logged i ev a x n d) = tasks d" "gates (logged i ev a x n d) = gates d"
  "agents (logged i ev a x n d) = agents d" "find_task j (logged i ev a x n d) = find_task j d"
  by (simp_all add: logged_def sql_insert_event_def find_task_def)

lemma wf_logged [simp]: "wf_db d \<Longrightarrow> wf_db (logged i ev a x n d)"
  by (simp add: logged_def wf_insert_event)

lemma run_log [exec_simps]:
  "faults w = [] \<Longrightarrow> run_state (logTaskEvent i ev a x) w = ((), w\<lparr>db := logged i ev a x (now w) (db w)\<rparr>)"
  by (simp add: logTaskEvent_def InsertEvent_def exec_simps logged_def)

lemma run_GetByID [exec_simps]:
  "faults w = [] \<Longrightarrow> run_state (GetByID i) w =
     (Inr (map_option scanTaskRow (find_task i (db w))), w)"
  by (simp add: GetByID_def exec_simps split: option.split)

lemma run_conflict:
  "wf_db (db w) \<Longrightarrow> faults w = [] \<Longrightarrow> run_state (conflict_or_missing i msg) w =
     (Inl (case find_task i (db w) of None \<Rightarrow> TaskNotFound i | Some r \<Rightarrow> ConflictError (t_status r) msg), w)"
  using find_task_status [of "db w" i]
  by (auto simp: conflict_or_missing_def current_status_def exec_simps split: option.split)

locale transition =
  fixes stmt :: "string \<Rightarrow> nat sql" and guard :: "task_row \<Rightarrow> bool"
    and change :: "time \<Rightarrow> task_row \<Rightarrow> task_row"
  assumes stmt: "stmt i n d = update_tasks (\<lambda>r. t_id r = i \<and> guard r) (change n) d"
    and id: "t_id (change n r) = t_id r"
begin

lemma affected:
  "wf_db d \<Longrightarrow> fst (stmt i n d) = Some (case find_task i d of None \<Rightarrow> 0 | Some r \<Rightarrow> if guard r then 1 else 0)"
  by (simp add: stmt count_task)

lemma row: "find_task j (snd (stmt i n d)) =
    (if j = i then map_option (\<lambda>r. if guard r then change n r else r) (find_task i d) else find_task j d)"
proof -
  have "map_option (\<lambda>r. if t_id r = i \<and> guard r then change n r else r) (find_task j d) =
    (if j = i then map_option (\<lambda>r. if guard r then change n r else r) (find_task i d) else find_task j d)"
    using find_task_Some [of j d] by (cases "find_task j d") auto
  then show ?thesis by (simp add: stmt find_task_update id)
qed

lemma refused: "fst (stmt i n d) = Some 0 \<Longrightarrow> snd (stmt i n d) = d"
  by (simp add: stmt upd_where_none update_tasks_def)

lemma exec_run:
  "wf_db (db w) \<Longrightarrow> faults w = [] \<Longrightarrow> run_state (exec (stmt i)) w =
     (case find_task i (db w) of
        None \<Rightarrow> (Some 0, w)
      | Some r \<Rightarrow> if guard r then (Some 1, w\<lparr>db := snd (stmt i (now w) (db w))\<rparr>) else (Some 0, w))"
  using refused [of i "now w" "db w"] by (auto simp: exec_simps affected split: option.splits)

lemma guarded_run:
  "wf_db (db w) \<Longrightarrow> faults w = [] \<Longrightarrow> run_state (do {
       res \<leftarrow> exec (stmt i);
       case res of
         None \<Rightarrow> State_Monad.return (Inl e)
       | Some n \<Rightarrow> if n = 0 then conflict_or_missing i msg else do {
           logTaskEvent i ev a x;
           GetByID i
         }
     }) w =
   (case find_task i (db w) of
      None \<Rightarrow> (Inl (TaskNotFound i), w)
    | Some r \<Rightarrow> if guard r
        then (Inr (Some (scanTaskRow (change (now w) r))),
              w\<lparr>db := logged i ev a x (now w) (snd (stmt i (now w) (db w)))\<rparr>)
        else (Inl (ConflictError (t_status r) msg), w))"
  by (auto simp: run_state_bind exec_run run_conflict run_log run_GetByID row split: option.split)

lemma wf: "wf_db d \<Longrightarrow> (\<And>r. t_status (change n r) \<in> set task_statuses) \<Longrightarrow> wf_db (snd (stmt i n d))"
  by (simp add: stmt wf_update_tasks id)

end

interpretation claim_row: transition "sql_claim a" "\<lambda>r. t_status r = st_pending"
    "\<lambda>n r. (set_status st_claimed n r)\<lparr>t_assignee := a\<rparr>" for a
  by unfold_locales (auto simp: sql_claim_def)

interpretation start_row: transition sql_start "\<lambda>r. t_status r = st_claimed" "set_status st_in_progress"
  by unfold_locales (auto simp: sql_start_def)

interpretation block_row: transition sql_block
    "\<lambda>r. t_status r = st_in_progress \<or> t_status r = st_claimed" "set_status st_blocked"
  by unfold_locales (auto simp: sql_block_def)

interpretation complete_row: transition "sql_complete s" "\<lambda>r. t_status r = st_in_progress"
    "\<lambda>n r. (set_status st_completed n r)\<lparr>t_summary := s\<rparr>" for s
  by unfold_locales (auto simp: sql_complete_def)

interpretation fail_row: transition "sql_fail s" "\<lambda>r. t_status r = st_in_progress"
    "\<lambda>n r. (set_status st_failed n r)\<lparr>t_summary := s\<rparr>" for s
  by unfold_locales (auto simp: sql_fail_def)

interpretation expire_row: transition sql_expire_pending "\<lambda>r. t_status r = st_pending"
    "\<lambda>n r. (set_status st_failed n r)\<lparr>t_summary := expired_summary\<rparr>"
  by unfold_locales (auto simp: sql_expire_pending_def)

interpretation stale_row: transition "sql_expire_stale s" "\<lambda>r. t_status r = st_in_progress"
    "\<lambda>n r. (set_status st_failed n r)\<lparr>t_summary := s\<rparr>" for s
  by unfold_locales (auto simp: sql_expire_stale_def)

interpretation release_row: transition sql_release "\<lambda>r. True"
    "\<lambda>n r. (set_status st_pending n r)\<lparr>t_assignee := []\<rparr>"
  by unfold_locales (auto simp: sql_release_def)

interpretation status_row: transition "sql_update_status st_in_progress" "\<lambda>r. True"
    "set_status st_in_progress"
  by unfold_locales (auto simp: sql_update_status_def)

interpretation heartbeat_row: transition sql_task_heartbeat "\<lambda>r. True"
    "\<lambda>n r. r\<lparr>t_last_heartbeat := Some n, t_updated_at := n\<rparr>"
  by unfold_locales (auto simp: sql_task_heartbeat_def)

interpretation artifacts_row: transition "sql_set_artifacts raw" "\<lambda>r. True"
    "\<lambda>n r. r\<lparr>t_artifacts_json := raw\<rparr>" for raw
  by unfold_locales (auto simp: sql_set_artifacts_def)

subsection \<open>Gates\<close>

locale gate_transition =
  fixes stmt :: "string \<Rightarrow> nat sql" and old :: string and change :: "time \<Rightarrow> gate_row \<Rightarrow> gate_row"
  assumes stmt: "stmt i n d = update_gates (\<lambda>g. g_id g = i \<and> g_status g = old) (change n) d"
    and id: "g_id (change n g) = g_id g"
begin

lemma affected:
  "wf_db d \<Longrightarrow> fst (stmt i n d) =
     Some (case find_gate i d of None \<Rightarrow> 0 | Some g \<Rightarrow> if g_status g = old then 1 else 0)"
  by (simp add: stmt count_gate)

lemma row: "find_gate j (snd (stmt i n d)) =
    (if j = i then map_option (\<lambda>g. if g_status g = old then change n g else g) (find_gate i d)
     else find_gate j d)"
proof -
  have "map_option (\<lambda>g. if g_id g = i \<and> g_status g = old then change n g else g) (find_gate j d) =
    (if j = i then map_option (\<lambda>g. if g_status g = old then change n g else g) (find_gate i d)
     else find_gate j d)"
    using find_gate_Some [of j d] by (cases "find_gate j d") auto
  then show ?thesis by (simp add: stmt find_gate_update id)
qed

lemma refused: "fst (stmt i n d) = Some 0 \<Longrightarrow> snd (stmt i n d) = d"
  by (simp add: stmt upd_where_none update_gates_def)

lemma guarded_run:
  "wf_db (db w) \<Longrightarrow> faults w = [] \<Longrightarrow> run_state (do {
       res \<leftarrow> exec (stmt i);
       State_Monad.return (case res of
         None \<Rightarrow> Inl e
       | Some n \<Rightarrow> if n = 0 then Inl (GateNotIn i old) else Inr ())
     }) w =
   (case find_gate i (db w) of
      None \<Rightarrow> (Inl (GateNotIn i old), w)
    | Some g \<Rightarrow> if g_status g = old then (Inr (), w\<lparr>db := snd (stmt i (now w) (db w))\<rparr>)
        else (Inl (GateNotIn i old), w))"
  using refused [of i "now w" "db w"]
  by (auto simp: run_state_bind run_state_return run_exec_ok affected split: option.splits)

end

interpretation ask_row: gate_transition "sql_ask_gate s" st_pending
    "\<lambda>n g. g\<lparr>g_status := st_asked, g_answer := s\<rparr>" for s
  by unfold_locales (auto simp: sql_ask_gate_def)

interpretation answer_row: gate_transition "sql_answer_gate s" st_asked
    "\<lambda>n g. g\<lparr>g_status := st_answered, g_answer := s, g_answered_at := Some n\<rparr>" for s
  by unfold_locales (auto simp: sql_answer_gate_def)

interpretation resolve_row: gate_transition sql_resolve_gate st_answered
    "\<lambda>n g. g\<lparr>g_status := st_resolved\<rparr>"
  by unfold_locales (auto simp: sql_resolve_gate_def)

subsection \<open>The methods\<close>

lemma run_ClaimTask:
  "wf_db (db w) \<Longrightarrow> faults w = [] \<Longrightarrow> run_state (ClaimTask i a) w =
   (case find_task i (db w) of
      None \<Rightarrow> (Inl (TaskNotFound i), w)
    | Some r \<Rightarrow> if t_status r = st_pending
        then (Inr (Some (scanTaskRow ((set_status st_claimed (now w) r)\<lparr>t_assignee := a\<rparr>))),
          w\<lparr>db := logged i ''ClaimTask'' a [] (now w) (snd (sql_claim a i (now w) (db w)))\<rparr>)
        else (Inl (ConflictError (t_status r) ''task is not in pending status''), w))"
  unfolding ClaimTask_def by (rule claim_row.guarded_run)

lemma run_StartTask:
  "wf_db (db w) \<Longrightarrow> faults w = [] \<Longrightarrow> run_state (StartTask i) w =
   (case find_task i (db w) of
      None \<Rightarrow> (Inl (TaskNotFound i), w)
    | Some r \<Rightarrow> if t_status r = st_claimed
        then (Inr (Some (scanTaskRow (set_status st_in_progress (now w) r))),
          w\<lparr>db := logged i ''StartTask'' [] [] (now w) (snd (sql_start i (now w) (db w)))\<rparr>)
        else (Inl (ConflictError (t_status r) ''task is not in claimed status''), w))"
  unfolding StartTask_def by (rule start_row.guarded_run)

text \<open>For a missing task the conflict has no status.\<close>

lemma run_current_status:
  "faults w = [] \<Longrightarrow> run_state (current_status i) w =
     (case find_task i (db w) of None \<Rightarrow> [] | Some r \<Rightarrow> t_status r, w)"
  by (simp add: current_status_def exec_simps split: option.split)

lemma run_BlockTask:
  "wf_db (db w) \<Longrightarrow> faults w = [] \<Longrightarrow> run_state (BlockTask i) w =
   (case find_task i (db w) of
      None \<Rightarrow> (Inl (ConflictError [] ''task is not in in_progress or claimed status''), w)
    | Some r \<Rightarrow> if t_status r = st_in_progress \<or> t_status r = st_claimed
        then (Inr (Some (scanTaskRow (set_status st_blocked (now w) r))),
          w\<lparr>db := logged i ''BlockTask'' [] [] (now w) (snd (sql_block i (now w) (db w)))\<rparr>)
        else (Inl (ConflictError (t_status r) ''task is not in in_progress or claimed status''), w))"
  by (auto simp: BlockTask_def run_state_bind run_state_return block_row.exec_run
      run_current_status run_log run_GetByID block_row.row split: option.split)

lemma run_UpdateStatus:
  "wf_db (db w) \<Longrightarrow> faults w = [] \<Longrightarrow> run_state (UpdateStatus i st_in_progress) w =
   (case find_task i (db w) of
      None \<Rightarrow> (Inl (TaskNotFound i), w)
    | Some r \<Rightarrow> (Inr (),
        w\<lparr>db := logged i ''UpdateStatus'' [] [] (now w) (snd (sql_update_status st_in_progress i (now w) (db w)))\<rparr>))"
  by (auto simp: UpdateStatus_def run_state_bind run_state_return status_row.exec_run run_log
      split: option.split)

lemma run_AskGate:
  "wf_db (db w) \<Longrightarrow> faults w = [] \<Longrightarrow> run_state (AskGate i s) w =
   (case find_gate i (db w) of
      None \<Rightarrow> (Inl (GateNotIn i st_pending), w)
    | Some g \<Rightarrow> if g_status g = st_pending then (Inr (), w\<lparr>db := snd (sql_ask_gate s i (now w) (db w))\<rparr>)
        else (Inl (GateNotIn i st_pending), w))"
  unfolding AskGate_def by (rule ask_row.guarded_run)

lemma run_AnswerGate:
  "wf_db (db w) \<Longrightarrow> faults w = [] \<Longrightarrow> run_state (AnswerGate i s) w =
   (case find_gate i (db w) of
      None \<Rightarrow> (Inl (GateNotIn i st_asked), w)
    | Some g \<Rightarrow> if g_status g = st_asked then (Inr (), w\<lparr>db := snd (sql_answer_gate s i (now w) (db w))\<rparr>)
        else (Inl (GateNotIn i st_asked), w))"
  unfolding AnswerGate_def by (rule answer_row.guarded_run)

lemma run_ResolveGate:
  "wf_db (db w) \<Longrightarrow> faults w = [] \<Longrightarrow> run_state (ResolveGate i) w =
   (case find_gate i (db w) of
      None \<Rightarrow> (Inl (GateNotIn i st_answered), w)
    | Some g \<Rightarrow> if g_status g = st_answered then (Inr (), w\<lparr>db := snd (sql_resolve_gate i (now w) (db w))\<rparr>)
        else (Inl (GateNotIn i st_answered), w))"
  unfolding ResolveGate_def by (rule resolve_row.guarded_run)

lemma run_GetGateByID [exec_simps]:
  "faults w = [] \<Longrightarrow> run_state (GetGateByID i) w =
     (Inr (map_option scan_gate (find_gate i (db w))), w)"
  by (simp add: GetGateByID_def exec_simps split: option.split)

subsection \<open>Parents\<close>

lemma count_distinct:
  "wf_db d \<Longrightarrow> count_where (\<lambda>r. t_id r \<in> S \<and> Q r) (tasks d) =
     card {i \<in> S. \<exists>r. find_task i d = Some r \<and> Q r}"
proof -
  assume wf: "wf_db d"
  let ?rs = "filter (\<lambda>r. t_id r \<in> S \<and> Q r) (tasks d)"
  have "distinct (map t_id ?rs)" using wf by (simp add: wf_db_def distinct_map_filter)
  then have "length ?rs = card (t_id ` set ?rs)"
    by (simp only: distinct_card length_map flip: set_map)
  moreover have "t_id ` set ?rs = {i \<in> S. \<exists>r. find_task i d = Some r \<and> Q r}"
  proof (intro set_eqI iffI)
    fix i assume "i \<in> t_id ` set ?rs"
    then obtain r where "r \<in> set (tasks d)" "t_id r = i" "i \<in> S" "Q r" by auto
    then show "i \<in> {i \<in> S. \<exists>r. find_task i d = Some r \<and> Q r}" using find_task_mem [OF wf] by blast
  next
    fix i assume "i \<in> {i \<in> S. \<exists>r. find_task i d = Some r \<and> Q r}"
    then obtain r where "find_task i d = Some r" "i \<in> S" "Q r" by blast
    then show "i \<in> t_id ` set ?rs" using find_task_Some [of i d r] by (intro image_eqI [of _ _ r]) auto
  qed
  ultimately show ?thesis by (simp add: count_where_def)
qed

definition completed_in :: "database \<Rightarrow> string \<Rightarrow> bool" where
  "completed_in d i \<longleftrightarrow> (\<exists>r. find_task i d = Some r \<and> t_status r = st_completed)"

lemma card_all:
  "card {i \<in> set xs. P i} = length xs \<longleftrightarrow> distinct xs \<and> (\<forall>i \<in> set xs. P i)"
proof
  assume c: "card {i \<in> set xs. P i} = length xs"
  have "card {i \<in> set xs. P i} \<le> card (set xs)" by (intro card_mono) auto
  with c card_length [of xs] have e: "card (set xs) = length xs" by simp
  with c have "{i \<in> set xs. P i} = set xs" by (intro card_subset_eq) auto
  with e show "distinct xs \<and> (\<forall>i \<in> set xs. P i)" by (auto intro: card_distinct)
next
  assume "distinct xs \<and> (\<forall>i \<in> set xs. P i)"
  then have "{i \<in> set xs. P i} = set xs" "distinct xs" by auto
  then show "card {i \<in> set xs. P i} = length xs" by (simp add: distinct_card)
qed

lemma AreParentsCompleted_cases:
  assumes "run_state (AreParentsCompleted ps) w = (r, w')" and "wf_db (db w)"
  shows "db w' = db w \<and> ((\<exists>e. r = Inl e) \<or>
    r = Inr (distinct ps \<and> (\<forall>p \<in> set ps. completed_in (db w) p)))"
proof (cases "ps = []")
  case True
  with assms(1) show ?thesis by (simp add: AreParentsCompleted_def exec_simps)
next
  case False
  let ?q = "\<lambda>_ d. count_where (\<lambda>r. t_id r \<in> set ps \<and> t_status r = st_completed) (tasks d)"
  obtain q w1 where q: "run_state (query ?q) w = (q, w1)" by (cases "run_state (query ?q) w")
  have k: "?q (now w) (db w) = length ps \<longleftrightarrow> distinct ps \<and> (\<forall>p \<in> set ps. completed_in (db w) p)"
    unfolding count_distinct [OF assms(2)] completed_in_def by (rule card_all)
  have "(r, w') = (case q of None \<Rightarrow> Inl (DbError ''check parents'') | Some n \<Rightarrow> Inr (n = length ps), w1)"
    using assms(1) q False by (simp add: AreParentsCompleted_def exec_simps)
  with query_cases [OF q] show ?thesis unfolding k [symmetric] by (elim conjE disjE) simp_all
qed

lemma run_AreParentsCompleted:
  "wf_db (db w) \<Longrightarrow> faults w = [] \<Longrightarrow> run_state (AreParentsCompleted ps) w =
     (Inr (distinct ps \<and> (\<forall>p \<in> set ps. completed_in (db w) p)), w)"
  by (simp add: AreParentsCompleted_def exec_simps count_distinct card_all flip: completed_in_def)

subsection \<open>Claims in a row\<close>

fun claim_all :: "string \<Rightarrow> string list \<Rightarrow> (world, (repo_error + task option) list) state" where
  "claim_all i [] = State_Monad.return []"
| "claim_all i (a # as) = do {
     r \<leftarrow> ClaimTask i a;
     rs \<leftarrow> claim_all i as;
     State_Monad.return (r # rs)
   }"

lemma claim_all_refused:
  assumes "wf_db (db w)" and "faults w = []" and "find_task i (db w) = Some r" and "t_status r \<noteq> st_pending"
  shows "run_state (claim_all i as) w =
    (map (\<lambda>_. Inl (ConflictError (t_status r) ''task is not in pending status'')) as, w)"
  using assms by (induction as) (simp_all add: run_state_bind run_state_return run_ClaimTask)

subsection \<open>Sweeps\<close>

text \<open>The loop the timeouts and the release share: one statement and one event per task.\<close>

fun sweep :: "(string \<Rightarrow> nat sql) \<Rightarrow> string \<Rightarrow> string \<Rightarrow> string list \<Rightarrow> (world, unit) state" where
  "sweep stmt ev msg [] = State_Monad.return ()"
| "sweep stmt ev msg (i # rest) = do {
     res \<leftarrow> exec (stmt i);
     case res of
       None \<Rightarrow> sweep stmt ev msg rest
     | Some _ \<Rightarrow> do {
         logTaskEvent i ev [] msg;
         sweep stmt ev msg rest
       }
   }"

lemma expire_pending_sweep:
  "expire_pending_loop m ids = sweep sql_expire_pending ''PendingTimeout''
     (''Task expired after '' @ dec_int m @ '' minutes in pending status'') ids"
  by (induction ids) simp_all

lemma expire_stale_sweep:
  "expire_stale_loop m ids = sweep (sql_expire_stale (stale_summary m)) ''TaskHeartbeatTimeout''
     (''Task expired after '' @ dec_int m @ '' minutes without heartbeat'') ids"
  by (induction ids) simp_all

lemma release_sweep:
  "release_loop ag ids = sweep sql_release ''StaleAgentRelease'' (''released from stale agent '' @ ag) ids"
  by (induction ids) simp_all

context transition
begin

lemma sweep_run:
  assumes idem: "\<And>n r. guard (change n r) \<Longrightarrow> change n (change n r) = change n r"
    and st: "\<And>n r. t_status (change n r) \<in> set task_statuses"
  shows "wf_db (db w) \<Longrightarrow> faults w = [] \<Longrightarrow> \<exists>w'. run_state (sweep stmt ev msg ids) w = ((), w') \<and>
    faults w' = [] \<and> now w' = now w \<and> wf_db (db w') \<and>
    (\<forall>j. find_task j (db w') = (if j \<in> set ids
       then map_option (\<lambda>r. if guard r then change (now w) r else r) (find_task j (db w))
       else find_task j (db w)))"
proof (induction ids arbitrary: w)
  case Nil
  then show ?case by (simp add: run_state_return)
next
  case (Cons i ids)
  define w1 where "w1 = w\<lparr>db := logged i ev [] msg (now w) (snd (stmt i (now w) (db w)))\<rparr>"
  have w1: "wf_db (db w1)" "faults w1 = []" and n: "now w1 = now w"
    using Cons.prems wf st by (simp_all add: w1_def)
  from Cons.IH [OF w1] obtain w' where w': "run_state (sweep stmt ev msg ids) w1 = ((), w')"
    "faults w' = []" "now w' = now w" "wf_db (db w')"
    "\<And>j. find_task j (db w') = (if j \<in> set ids
       then map_option (\<lambda>r. if guard r then change (now w) r else r) (find_task j (db w1))
       else find_task j (db w1))"
    unfolding n by blast
  have "run_state (sweep stmt ev msg (i # ids)) w = ((), w')"
    using Cons.prems w'(1) by (simp add: run_state_bind run_exec_ok affected run_log w1_def)
  moreover have "find_task j (db w') = (if j \<in> set (i # ids)
       then map_option (\<lambda>r. if guard r then change (now w) r else r) (find_task j (db w))
       else find_task j (db w))" for j
    using idem by (cases "find_task j (db w)") (auto simp: w'(5) w1_def row)
  ultimately show ?case using w' by auto
qed

end

lemma select_ids:
  assumes "wf_db d"
  shows "(if j \<in> set (map t_id (filter P (tasks d))) then map_option f (find_task j d) else find_task j d) =
    map_option (\<lambda>r. if P r then f r else r) (find_task j d)"
proof (cases "find_task j d")
  case (Some r)
  have "j \<in> set (map t_id (filter P (tasks d))) \<longleftrightarrow> P r"
  proof
    assume "j \<in> set (map t_id (filter P (tasks d)))"
    then obtain r' where "r' \<in> set (tasks d)" "P r'" "t_id r' = j" by auto
    with find_task_mem [OF assms] Some show "P r" by force
  next
    assume "P r"
    with find_task_Some [OF Some] show "j \<in> set (map t_id (filter P (tasks d)))"
      by (auto intro: image_eqI [of _ _ r])
  qed
  with Some show ?thesis by simp
qed simp

end
