(* ===== verification/Races.thy ===== *)
theory Races
  imports Transitions
begin

text \<open>
  Requests and background services run at the same time, and their statements interleave in any
  order. A contest is a set of statements that each move one task on from the same state; the
  locale says what the guards in their \<^verbatim>\<open>WHERE\<close> clauses give: whatever other writes come
  between, at most one of them takes effect until something puts the task back into that state.
\<close>

definition task_holds :: "(task_row \<Rightarrow> bool) \<Rightarrow> string \<Rightarrow> database \<Rightarrow> bool" where
  "task_holds P i d = (case find_task i d of None \<Rightarrow> False | Some r \<Rightarrow> P r)"

text \<open>
  \<open>n\<close> counts the rows the statements of the contest report as affected. Any other write may come
  between, also one no operation issues, if it does not put the task back.
\<close>

inductive race :: "nat sql set \<Rightarrow> (task_row \<Rightarrow> bool) \<Rightarrow> string \<Rightarrow> database \<Rightarrow> nat \<Rightarrow> database \<Rightarrow> bool"
  for C P i d where
  race_refl: "race C P i d 0 d"
| race_step: "race C P i d n d1 \<Longrightarrow> s \<in> C \<Longrightarrow> s t d1 = (Some k, d2) \<Longrightarrow> race C P i d (n + k) d2"
| race_other: "race C P i d n d1 \<Longrightarrow> wf_db d2 \<Longrightarrow> task_holds P i d2 \<longrightarrow> task_holds P i d1 \<Longrightarrow>
     race C P i d n d2"

locale contest =
  fixes C :: "nat sql set" and P :: "task_row \<Rightarrow> bool" and i :: string
  assumes takes: "s \<in> C \<Longrightarrow> wf_db d \<Longrightarrow> fst (s t d) = Some (if task_holds P i d then 1 else 0)"
    and leaves: "s \<in> C \<Longrightarrow> wf_db d \<Longrightarrow> \<not> task_holds P i (snd (s t d))"
    and stays_wf: "s \<in> C \<Longrightarrow> wf_db d \<Longrightarrow> wf_db (snd (s t d))"
begin

lemma one_winner:
  "race C P i d n d' \<Longrightarrow> wf_db d \<Longrightarrow> wf_db d' \<and> n + (if task_holds P i d' then 1 else 0) \<le> 1"
proof (induction rule: race.induct)
  case (race_step n d1 s t k d2)
  from race_step.IH [OF race_step.prems] takes [OF race_step.hyps(2), of d1 t] leaves [OF race_step.hyps(2), of d1 t]
    stays_wf [OF race_step.hyps(2), of d1 t] race_step.hyps(3) show ?case by (simp split: if_splits)
qed (auto split: if_splits)

end

context transition
begin

lemma takes_row: "wf_db d \<Longrightarrow> fst (stmt i t d) = Some (if task_holds guard i d then 1 else 0)"
  by (simp add: affected task_holds_def split: option.split)

lemma leaves_row: "(\<And>n r. \<not> guard (change n r)) \<Longrightarrow> \<not> task_holds guard i (snd (stmt i t d))"
  by (auto simp: row task_holds_def split: option.split)

end

text \<open>Who takes a pending task: the claims of all agents, and the timeout that fails it.\<close>

definition claim_contest :: "string \<Rightarrow> nat sql set" where
  "claim_contest i = {sql_claim a i | a. True} \<union> {sql_expire_pending i}"

text \<open>Who ends a running task: completion, failure, and the heartbeat timeout.\<close>

definition end_contest :: "string \<Rightarrow> nat sql set" where
  "end_contest i = {sql_complete s i | s. True} \<union> {sql_fail s i | s. True} \<union> {sql_expire_stale s i | s. True}"

interpretation claims: contest "claim_contest i" "\<lambda>r. t_status r = st_pending" i for i
  by unfold_locales
    (auto simp: claim_contest_def claim_row.takes_row expire_row.takes_row claim_row.wf expire_row.wf
      claim_row.leaves_row expire_row.leaves_row)

interpretation endings: contest "end_contest i" "\<lambda>r. t_status r = st_in_progress" i for i
  by unfold_locales
    (auto simp: end_contest_def complete_row.takes_row fail_row.takes_row stale_row.takes_row complete_row.wf
      fail_row.wf stale_row.wf complete_row.leaves_row fail_row.leaves_row stale_row.leaves_row)

end
