(* ===== verification/Interleavings.thy ===== *)
theory Interleavings
  imports Threads Races
begin

text \<open>
  Many repository calls at once: a pool of threads whose statements alternate in any order, with
  any reading of the clock and any connection failing. A thread that is never picked again is one
  whose request was abandoned. \<open>stmt_write\<close> is what a statement may do to the database whatever has
  come between it and the reads before it; the locale \<open>stmt_closed\<close> lifts relations that all
  statements keep to every interleaving.
\<close>

inductive interleave :: "(database \<Rightarrow> database \<Rightarrow> bool) \<Rightarrow> (nat \<Rightarrow> 'a prog) \<Rightarrow> database \<Rightarrow>
    (nat \<Rightarrow> 'a prog) \<Rightarrow> database \<Rightarrow> bool" for E ts d where
  none: "interleave E ts d ts d"
| statement: "interleave E ts d ts' d' \<Longrightarrow> ts' j = Stmt s k \<Longrightarrow>
     interleave E ts d (ts'(j := k (fst (s n d')))) (snd (s n d'))"
| fault: "interleave E ts d ts' d' \<Longrightarrow> ts' j = Stmt s k \<Longrightarrow> interleave E ts d (ts'(j := k None)) d'"
| others: "interleave E ts d ts' d' \<Longrightarrow> E d' d'' \<Longrightarrow> interleave E ts d ts' d''"

subsection \<open>What the statements of a thread do\<close>

primrec emits :: "(database \<Rightarrow> database \<Rightarrow> bool) \<Rightarrow> 'a prog \<Rightarrow> bool" where
  "emits W (Ret x) = True"
| "emits W (Stmt s k) = ((\<forall>n d. wf_db d \<longrightarrow> W d (snd (s n d))) \<and> (\<forall>r. emits W (k r)))"

primrec results :: "('a \<Rightarrow> bool) \<Rightarrow> 'a prog \<Rightarrow> bool" where
  "results Q (Ret x) = Q x"
| "results Q (Stmt s k) = (\<forall>r. results Q (k r))"

primrec map_result :: "('a \<Rightarrow> 'b) \<Rightarrow> 'a prog \<Rightarrow> 'b prog" where
  "map_result f (Ret x) = Ret (f x)"
| "map_result f (Stmt s k) = Stmt s (\<lambda>r. map_result f (k r))"

lemma emits_map [simp]: "emits W (map_result f p) = emits W p"
  by (induction p) auto

lemma results_map [simp]: "results Q (map_result f p) = results (\<lambda>x. Q (f x)) p"
  by (induction p) auto

named_theorems emit_intros \<open>which statements a thread sends\<close>

lemma emits_ret [emit_intros]: "emits W (Ret x)"
  by simp

lemma emits_upd [emit_intros]:
  "(\<And>n d. wf_db d \<Longrightarrow> W d (snd (s n d))) \<Longrightarrow> (\<And>r. emits W (k r)) \<Longrightarrow> emits W (upd s k)"
  by (simp add: upd_def)

lemma emits_ins [emit_intros]:
  "(\<And>n d. wf_db d \<Longrightarrow> W d (snd (s n d))) \<Longrightarrow> (\<And>r. emits W (k r)) \<Longrightarrow> emits W (ins s k)"
  by (simp add: ins_def)

lemma emits_case [emit_intros]:
  "emits W p \<Longrightarrow> (\<And>x. emits W (f x)) \<Longrightarrow> emits W (case z of None \<Rightarrow> p | Some x \<Rightarrow> f x)"
  "(\<And>e. emits W (g e)) \<Longrightarrow> (\<And>x. emits W (h x)) \<Longrightarrow> emits W (case y of Inl e \<Rightarrow> g e | Inr x \<Rightarrow> h x)"
  "(b \<Longrightarrow> emits W p) \<Longrightarrow> (\<not> b \<Longrightarrow> emits W q) \<Longrightarrow> emits W (if b then p else q)"
  "(\<And>x. emits W (f x)) \<Longrightarrow> emits W (let x = e in f x)"
  by (cases z; simp) (cases y; simp; fail | simp)+

text \<open>The statements that only read, and the ones that log an event, for a relation that allows both.\<close>

locale log_relation =
  fixes W :: "database \<Rightarrow> database \<Rightarrow> bool"
  assumes idle: "W d d" and log: "wf_db d \<Longrightarrow> W d (snd (sql_insert_event i ev a x n d))"
begin

lemma reads: "(\<And>r. emits W (k r)) \<Longrightarrow> emits W (row i k)"
  "(\<And>r. emits W (k' r)) \<Longrightarrow> emits W (ids q k')" "(\<And>r. emits W (k'' r)) \<Longrightarrow> emits W (cnt q' k'')"
  by (simp_all add: row_def ids_def cnt_def idle)

lemma gets: "(\<And>r. emits W (k r)) \<Longrightarrow> emits W (get_by_id i k)"
  unfolding get_by_id_def by (intro reads)

lemma logs: "emits W p \<Longrightarrow> emits W (log_then i ev a x p)"
  unfolding log_then_def by (intro emits_ins log)

lemma conflicts: "emits W (conflict_prog i msg)"
  unfolding conflict_prog_def Let_def by (intro reads emits_ret)

lemma parents: "(\<And>r. emits W (k r)) \<Longrightarrow> emits W (check_parents_prog i k)"
  unfolding check_parents_prog_def by (intro gets emit_intros reads)

lemma promotes: "emits W p \<Longrightarrow> emits W (promote_prog i cs p)"
  by (induction cs) (simp_all add: parents logs emits_case)

lemma each: "(\<And>i n d. wf_db d \<Longrightarrow> W d (snd (stmt i n d))) \<Longrightarrow> emits W p \<Longrightarrow>
    emits W (each_prog stmt ev x is p)"
  by (induction "is") (auto intro!: emit_intros logs)

lemmas quiet_intros = reads gets logs conflicts parents promotes emit_intros

end

subsection \<open>Relations every interleaving keeps\<close>

text \<open>
  The writes of the program without the two checks that rest on a read before them: by the time a
  retry or a release is executed the task may have any status.
\<close>

inductive stmt_write :: "database \<Rightarrow> database \<Rightarrow> bool" where
  idle: "stmt_write d d"
| plain: "db_write True d d' \<Longrightarrow> stmt_write d d'"
| any_retry: "stmt_write d (snd (sql_retry i n d))"
| any_release: "stmt_write d (snd (sql_release i n d))"

lemma stmt_write_wf: "stmt_write d d' \<Longrightarrow> wf_db d \<Longrightarrow> wf_db d'"
proof (induction rule: stmt_write.induct)
  case (any_retry d i n)
  then show ?case by (auto simp: sql_retry_def intro!: wf_update_tasks)
next
  case (any_release d i n)
  then show ?case by (simp add: sql_release_def wf_update_tasks)
qed (auto intro: db_write_wf)

lemma interleave_emits:
  assumes "interleave E ts d ts' d'" and "\<And>d d'. E d d' \<Longrightarrow> W d d'"
    and "\<And>d d'. W d d' \<Longrightarrow> wf_db d \<Longrightarrow> wf_db d'" and "\<forall>j. emits W (ts j)" and "wf_db d"
  shows "wf_db d' \<and> W\<^sup>*\<^sup>* d d' \<and> (\<forall>j. emits W (ts' j))"
  using assms(1)
proof (induction rule: interleave.induct)
  case (statement ts' d' j s k n)
  have e: "emits W (Stmt s k)" using statement.IH statement.hyps(2) by metis
  then have "W d' (snd (s n d'))" using statement.IH by simp
  with statement.IH assms(3) e show ?case by (auto intro: rtranclp.rtrancl_into_rtrancl)
next
  case (fault ts' d' j s k)
  then have "emits W (Stmt s k)" by metis
  with fault.IH show ?case by simp
next
  case (others ts' d' d'')
  with assms(2,3) show ?case by (meson rtranclp.rtrancl_into_rtrancl)
qed (use assms(4,5) in simp)

locale stmt_closed = write_closed True R for R +
  assumes retry: "wf_db d \<Longrightarrow> R d (snd (sql_retry i n d))"
    and release: "wf_db d \<Longrightarrow> R d (snd (sql_release i n d))"
begin

lemma stmts: "stmt_write\<^sup>*\<^sup>* d d' \<Longrightarrow> wf_db d \<Longrightarrow> R d d'"
proof (induction rule: rtranclp_induct)
  case (step d1 d2)
  have wf: "wf_db d1"
    using step.hyps(1) step.prems by (induction rule: rtranclp_induct) (auto intro: stmt_write_wf)
  have "R d1 d2" using step.hyps(2) wf by cases (auto intro: refl keeps retry release)
  with step show ?case by (meson trans)
qed (rule refl)

lemma interleaved:
  "interleave E ts d ts' d' \<Longrightarrow> (\<And>d d'. E d d' \<Longrightarrow> stmt_write d d') \<Longrightarrow>
     (\<And>j. emits stmt_write (ts j)) \<Longrightarrow> wf_db d \<Longrightarrow> R d d'"
  using interleave_emits [of E ts d ts' d' stmt_write] stmts stmt_write_wf by blast

end

interpretation gates_any_order: stmt_closed gates_forward
  by unfold_locales (simp_all add: gates_forward_def gate_forward_def find_gate_frames)

interpretation log_any_order: stmt_closed log_grows
  by unfold_locales (simp_all add: log_grows_def sql_retry_def sql_release_def)

text \<open>What identifies a task survives a retry or a release in any status.\<close>

lemma any_order_row:
  "find_task j (snd (sql_retry i n d)) = find_task j d \<or> find_task j (snd (sql_retry i n d)) =
     map_option (\<lambda>r. (set_status st_pending n r)\<lparr>t_retry_count := t_retry_count r + 1, t_assignee := []\<rparr>)
       (find_task j d)"
  "find_task j (snd (sql_release i n d)) = find_task j d \<or> find_task j (snd (sql_release i n d)) =
     map_option (\<lambda>r. (set_status st_pending n r)\<lparr>t_assignee := []\<rparr>) (find_task j d)"
  by (cases "find_task j d"; auto simp: sql_retry_def sql_release_def find_task_update)+

definition repend :: "time \<Rightarrow> task_row \<Rightarrow> task_row \<Rightarrow> bool" where
  "repend n r r' \<longleftrightarrow> r' = r \<or> r' = (set_status st_pending n r)\<lparr>t_assignee := []\<rparr> \<or>
     r' = (set_status st_pending n r)\<lparr>t_retry_count := t_retry_count r + 1, t_assignee := []\<rparr>"

lemma any_order_new:
  assumes "find_task j d = Some r" and "d' \<in> {snd (sql_retry i n d), snd (sql_release i n d)}"
  shows "\<exists>r'. find_task j d' = Some r' \<and> repend n r r'"
  using assms any_order_row [of j i n d] by (auto simp: repend_def)

lemma any_order_old:
  assumes "find_task j d' = Some r'" and "d' \<in> {snd (sql_retry i n d), snd (sql_release i n d)}"
  shows "\<exists>r. find_task j d = Some r \<and> repend n r r'"
  using assms any_order_row [of j i n d] by (auto simp: repend_def)

interpretation identity_any_order: stmt_closed identity.kept
proof
  have "same_task r r'" if "repend n r r'" for n r r'
    using that by (auto simp: repend_def same_task_def set_status_def)
  then show "identity.kept d (snd (sql_retry i n d))" "identity.kept d (snd (sql_release i n d))" for d i n
    unfolding identity.kept_def using any_order_new by blast+
qed

interpretation columns_any_order: stmt_closed "\<lambda>d d'. columns.all_rows d \<longrightarrow> columns.all_rows d'"
proof
  have "canonical r'" if "repend n r r'" "canonical r" for n r r'
    using that by (auto simp: repend_def canonical_def set_status_def)
  then show "columns.all_rows d \<longrightarrow> columns.all_rows (snd (sql_retry i n d))"
    "columns.all_rows d \<longrightarrow> columns.all_rows (snd (sql_release i n d))" for d i n
    unfolding columns.all_rows_def using any_order_old by blast+
qed

subsection \<open>Calls of the repositories\<close>

datatype call =
    CallCreate task | CallClaim string string | CallStart string | CallBlock string | CallUnblock string
  | CallComplete string string | CallFail string string | CallHeartbeat string
  | CallAddArtifact string artifact | CallRemoveArtifact string string
  | CallExpirePending int | CallExpireStale int | CallRelease string
  | CallCreateGate gate | CallAskGate string string | CallAnswerGate string string | CallResolveGate string

text \<open>The thread of a call; who waits for its result does not matter to the database.\<close>

definition void :: "'a prog \<Rightarrow> unit prog" where
  "void p = map_result (\<lambda>_. ()) p"

fun thread :: "call \<Rightarrow> unit prog" where
  "thread (CallCreate t) = void (create_prog t)"
| "thread (CallClaim i a) = void (claim_prog i a)"
| "thread (CallStart i) = void (start_prog i)"
| "thread (CallBlock i) = void (block_prog i)"
| "thread (CallUnblock i) = void (unblock_prog i)"
| "thread (CallComplete i s) = void (complete_prog i s)"
| "thread (CallFail i s) = void (fail_prog i s)"
| "thread (CallHeartbeat i) = void (heartbeat_prog i)"
| "thread (CallAddArtifact i a) = void (add_prog i a)"
| "thread (CallRemoveArtifact i k) = void (remove_prog i k)"
| "thread (CallExpirePending m) = void (expire_pending_prog m)"
| "thread (CallExpireStale m) = void (expire_stale_prog m)"
| "thread (CallRelease ag) = void (release_prog ag)"
| "thread (CallCreateGate g) = void (create_gate_prog g)"
| "thread (CallAskGate j a) = void (ask_prog j a)"
| "thread (CallAnswerGate j a) = void (answer_prog j a)"
| "thread (CallResolveGate j) = void (resolve_prog j)"

text \<open>What the handlers have checked of the arguments.\<close>

fun proper :: "call \<Rightarrow> bool" where
  "proper (CallCreate t) \<longleftrightarrow> (Status t = [] \<or> Status t = st_pending) \<and> RetryCount t = 0"
| "proper (CallClaim i a) \<longleftrightarrow> a \<noteq> []"
| "proper (CallCreateGate g) \<longleftrightarrow> GateStatus g = [] \<or> GateStatus g = st_pending"
| "proper _ \<longleftrightarrow> True"

interpretation any_order: log_relation stmt_write
  by unfold_locales (auto intro: stmt_write.intros db_write.insert_event)

lemmas stmt_writes = stmt_write.any_retry stmt_write.any_release
  db_write.start [THEN stmt_write.plain] db_write.block [THEN stmt_write.plain]
  db_write.complete [THEN stmt_write.plain] db_write.fail [THEN stmt_write.plain]
  db_write.expire_pending [THEN stmt_write.plain] db_write.expire_stale [THEN stmt_write.plain]
  db_write.task_heartbeat [THEN stmt_write.plain] db_write.set_artifacts [THEN stmt_write.plain]
  db_write.ask_gate [THEN stmt_write.plain] db_write.answer_gate [THEN stmt_write.plain]
  db_write.resolve_gate [THEN stmt_write.plain] db_write.unblock [OF TrueI, THEN stmt_write.plain]

lemmas prog_defs = create_prog_def claim_prog_def start_prog_def block_prog_def unblock_prog_def
  complete_prog_def fail_prog_def heartbeat_prog_def artifacts_prog_def add_prog_def remove_prog_def
  expire_pending_prog_def expire_stale_prog_def release_prog_def create_gate_prog_def gate_prog_def
  ask_prog_def answer_prog_def resolve_prog_def

lemma thread_emits: "proper c \<Longrightarrow> emits stmt_write (thread c)"
proof (cases c)
  case (CallCreate t)
  assume "proper c"
  with CallCreate show ?thesis
    by (auto simp: void_def create_prog_def Let_def intro!: any_order.quiet_intros stmt_write.plain
        db_write.insert_task)
next
  case (CallClaim i a)
  assume "proper c"
  with CallClaim show ?thesis
    by (auto simp: void_def claim_prog_def intro!: any_order.quiet_intros stmt_write.plain db_write.claim)
next
  case (CallCreateGate g)
  assume "proper c"
  with CallCreateGate show ?thesis
    by (auto simp: void_def create_gate_prog_def Let_def intro!: any_order.quiet_intros stmt_write.plain
        db_write.insert_gate)
qed (simp only: thread.simps void_def emits_map prog_defs,
    (intro any_order.quiet_intros any_order.each stmt_writes; fail)?)+

subsection \<open>One winner\<close>

text \<open>
  A contender starts with a statement of the contest; when it affected no row or failed, nothing
  that follows reports success, and nothing that follows it at all puts the task back. A loser is
  a thread that is past a lost start.
\<close>

definition calm :: "(task_row \<Rightarrow> bool) \<Rightarrow> string \<Rightarrow> database \<Rightarrow> database \<Rightarrow> bool" where
  "calm P i d d' \<longleftrightarrow> (wf_db d \<longrightarrow> wf_db d') \<and> (task_holds P i d' \<longrightarrow> task_holds P i d)"

definition loser :: "(task_row \<Rightarrow> bool) \<Rightarrow> string \<Rightarrow> (repo_error + 'a) prog \<Rightarrow> bool" where
  "loser P i p \<longleftrightarrow> emits (calm P i) p \<and> results isl p"

definition contender :: "nat sql set \<Rightarrow> (task_row \<Rightarrow> bool) \<Rightarrow> string \<Rightarrow> (repo_error + 'a) prog \<Rightarrow> bool" where
  "contender C P i p \<longleftrightarrow> (\<exists>s \<in> C. \<exists>k. p = upd s k \<and> loser P i (k None) \<and> loser P i (k (Some 0)) \<and>
     emits (calm P i) (k (Some 1)))"

text \<open>At most one thread \<open>w\<close> is neither, and then the task has been taken.\<close>

definition placed :: "nat sql set \<Rightarrow> (task_row \<Rightarrow> bool) \<Rightarrow> string \<Rightarrow> nat \<Rightarrow> database \<Rightarrow> nat \<Rightarrow>
    (repo_error + 'a) prog \<Rightarrow> bool" where
  "placed C P i w d j p \<longleftrightarrow> contender C P i p \<or> loser P i p \<or>
     (j = w \<and> \<not> task_holds P i d \<and> emits (calm P i) p)"

definition one_ahead :: "nat sql set \<Rightarrow> (task_row \<Rightarrow> bool) \<Rightarrow> string \<Rightarrow> (nat \<Rightarrow> (repo_error + 'a) prog) \<Rightarrow>
    database \<Rightarrow> bool" where
  "one_ahead C P i ts d \<longleftrightarrow> wf_db d \<and> (\<exists>w. \<forall>j. placed C P i w d j (ts j))"

lemma one_aheadI: "wf_db d \<Longrightarrow> (\<And>j. placed C P i w d j (ts j)) \<Longrightarrow> one_ahead C P i ts d"
  by (auto simp: one_ahead_def)

lemma placed_calm: "placed C P i w d j p \<Longrightarrow> calm P i d d' \<Longrightarrow> placed C P i w d' j p"
  by (auto simp: placed_def calm_def)

lemma loser_step: "loser P i (Stmt s k) \<Longrightarrow> loser P i (k r)"
  by (auto simp: loser_def)

context contest
begin

lemma contender_calm: "contender C P i (Stmt s k) \<Longrightarrow> wf_db d \<Longrightarrow> calm P i d (snd (s n d))"
  using leaves stays_wf by (auto simp: contender_def upd_def calm_def)

lemma contender_step:
  assumes "contender C P i (Stmt s k)" and "wf_db d"
  shows "loser P i (k None) \<and> (if task_holds P i d
    then emits (calm P i) (k (fst (s n d))) \<and> \<not> task_holds P i (snd (s n d))
    else loser P i (k (fst (s n d))))"
proof -
  obtain s' k' where s: "s' \<in> C" "s = (\<lambda>n d. map_prod (map_option Rows) id (s' n d))"
    "k = (\<lambda>r. k' (case r of Some (Rows m) \<Rightarrow> Some m | _ \<Rightarrow> None))"
    "loser P i (k' None)" "loser P i (k' (Some 0))" "emits (calm P i) (k' (Some 1))"
    using assms(1) by (auto simp: contender_def upd_def)
  have "fst (s n d) = Some (Rows (if task_holds P i d then 1 else 0))"
    using takes [OF s(1) assms(2), of n] by (simp add: s(2))
  with s(3-) leaves [OF s(1) assms(2), of n] show ?thesis by (simp add: s(2))
qed

lemma placed_step:
  assumes "placed C P i w d j (Stmt s k)" and "wf_db d"
  shows "calm P i d (snd (s n d))" and "placed C P i w d j (k None)"
    and "contender C P i (Stmt s k) \<and> task_holds P i d \<Longrightarrow> placed C P i j (snd (s n d)) j (k (fst (s n d)))"
    and "\<not> (contender C P i (Stmt s k) \<and> task_holds P i d) \<Longrightarrow>
      placed C P i w (snd (s n d)) j (k (fst (s n d)))"
proof -
  show c: "calm P i d (snd (s n d))"
    using assms contender_calm by (auto simp: placed_def loser_def)
  show "placed C P i w d j (k None)"
    using assms contender_step [of s k d] loser_step [of P i s k None] by (auto simp: placed_def)
  show "placed C P i j (snd (s n d)) j (k (fst (s n d)))"
    if "contender C P i (Stmt s k) \<and> task_holds P i d"
    using that contender_step [of s k d n] assms(2) by (auto simp: placed_def)
  show "placed C P i w (snd (s n d)) j (k (fst (s n d)))"
    if "\<not> (contender C P i (Stmt s k) \<and> task_holds P i d)"
    using that contender_step [of s k d n] assms loser_step [of P i s k "fst (s n d)"] c
    by (auto simp: placed_def calm_def)
qed

lemma one_ahead_step:
  assumes "one_ahead C P i ts d" and "ts j = Stmt s k"
  shows "one_ahead C P i (ts(j := k (fst (s n d)))) (snd (s n d))" and "one_ahead C P i (ts(j := k None)) d"
proof -
  obtain w where wf: "wf_db d" and w: "\<And>l. placed C P i w d l (ts l)"
    using assms(1) by (auto simp: one_ahead_def)
  note step = placed_step [OF w [of j, unfolded assms(2)] wf]
  show "one_ahead C P i (ts(j := k None)) d"
    by (rule one_aheadI [OF wf, of C P i w]) (simp add: w step(2))
  have d: "wf_db (snd (s n d))" using step(1) wf by (simp add: calm_def)
  show "one_ahead C P i (ts(j := k (fst (s n d)))) (snd (s n d))"
  proof (cases "contender C P i (Stmt s k) \<and> task_holds P i d")
    case True
    then have "placed C P i j d l (ts l)" for l using w [of l] by (auto simp: placed_def)
    then show ?thesis
      by (intro one_aheadI [OF d, of C P i j]) (simp add: step(3) [OF True] placed_calm [OF _ step(1)])
  next
    case False
    show ?thesis
      by (intro one_aheadI [OF d, of C P i w]) (simp add: step(4) [OF False] placed_calm [OF w step(1)])
  qed
qed

lemma one_success:
  assumes "interleave E ts d ts' d'" and "\<And>d d'. E d d' \<Longrightarrow> calm P i d d'" and "wf_db d"
    and "\<And>j. contender C P i (ts j) \<or> loser P i (ts j)"
    and "ts' j = Ret (Inr x)" and "ts' l = Ret (Inr y)"
  shows "j = l"
proof -
  from assms(1) have "one_ahead C P i ts' d'"
  proof (induction rule: interleave.induct)
    case none
    show ?case using assms(3,4) by (intro one_aheadI [of d C P i 0]) (auto simp: placed_def)
  next
    case (others ts' d' d'')
    from assms(2) [OF others.hyps(2)] others.IH placed_calm show ?case
      by (fastforce simp: one_ahead_def calm_def)
  qed (rule one_ahead_step; assumption)+
  then obtain w where w: "\<And>j. placed C P i w d' j (ts' j)" by (auto simp: one_ahead_def)
  have "\<not> contender C P i (Ret z)" "\<not> loser P i (Ret (Inr v))" for z :: "repo_error + 'a" and v :: 'a
    by (auto simp: contender_def loser_def upd_def)
  then have "j = w" "l = w" using w [of j] w [of l] assms(5,6) by (auto simp: placed_def)
  then show ?thesis by simp
qed

end

interpretation quiet: log_relation "calm P i" for P i
  by unfold_locales (auto simp: calm_def task_holds_def wf_insert_event find_frames)

definition pending_task :: "task_row \<Rightarrow> bool" where "pending_task r \<longleftrightarrow> t_status r = st_pending"
definition running_task :: "task_row \<Rightarrow> bool" where "running_task r \<longleftrightarrow> t_status r = st_in_progress"

text \<open>The result of an ending without its value: whether it was granted.\<close>

definition granted :: "(repo_error + 'a) prog \<Rightarrow> (repo_error + unit) prog" where
  "granted p = map_result (map_sum id (\<lambda>_. ())) p"

lemma map_upd: "map_result f (upd s k) = upd s (\<lambda>r. map_result f (k r))"
  by (simp add: upd_def)

lemma results_granted [simp]: "results isl (granted p) = results isl p"
proof -
  have "isl (map_sum id (\<lambda>_. ()) x) = isl x" for x :: "repo_error + 'a" by (cases x) simp_all
  then show ?thesis by (simp add: granted_def)
qed

lemma loser_granted [simp]: "loser P i (granted p) = loser P i p"
  by (simp add: loser_def) (simp add: granted_def)

lemma contender_granted: "contender C P i p \<Longrightarrow> contender C P i (granted p)"
proof -
  assume "contender C P i p"
  then obtain s k where "s \<in> C" "p = upd s k" "loser P i (k None)" "loser P i (k (Some 0))"
    "emits (calm P i) (k (Some 1))" by (auto simp: contender_def)
  then show ?thesis
    unfolding contender_def by (intro bexI [of _ s] exI [of _ "\<lambda>r. granted (k r)"])
      (simp_all, simp_all add: granted_def map_upd)
qed

lemma calm_retry: "calm running_task i d (snd (sql_retry i n d))"
proof -
  have "wf_db d \<longrightarrow> wf_db (snd (sql_retry i n d))" using stmt_write_wf stmt_write.any_retry by blast
  with any_order_row(1) [of i i n d] show ?thesis
    by (auto simp: calm_def task_holds_def running_task_def split: option.splits)
qed

lemma lost_conflict: "loser P i (conflict_prog i msg)"
  by (simp add: loser_def quiet.conflicts) (simp add: conflict_prog_def row_def Let_def)

lemma contenderI:
  "s \<in> C \<Longrightarrow> loser P i (k None) \<Longrightarrow> loser P i (k (Some 0)) \<Longrightarrow> emits (calm P i) (k (Some 1)) \<Longrightarrow>
     contender C P i (upd s k)"
  by (auto simp: contender_def)

lemma loser_ret: "loser P i (Ret (Inl e))"
  by (simp add: loser_def)

lemma contest_mem: "sql_claim a i \<in> claim_contest i" "sql_complete s i \<in> end_contest i" "sql_fail s i \<in> end_contest i"
  by (auto simp: claim_contest_def end_contest_def)

lemma claim_contender: "contender (claim_contest i) pending_task i (claim_prog i a)"
  unfolding claim_prog_def
  by (rule contenderI, simp_all add: contest_mem lost_conflict loser_ret) (intro quiet.quiet_intros)

lemma complete_contender: "contender (end_contest i) running_task i (complete_prog i s)"
  unfolding complete_prog_def
  by (rule contenderI, simp_all add: contest_mem lost_conflict loser_ret) (intro quiet.quiet_intros)

lemma fail_contender: "contender (end_contest i) running_task i (fail_prog i s)"
  unfolding fail_prog_def
  by (rule contenderI, simp_all add: contest_mem lost_conflict loser_ret)
    (intro quiet.quiet_intros calm_retry)

end
