(* ===== verification/Schedules.thy ===== *)
theory Schedules
  imports Interleavings
begin

text \<open>
  Interleavings as they are computed: a schedule names the thread whose statement is next, and no
  statement fails. \<open>turn\<close> is what one statement does to a thread and the database; with it the
  race of any number of claims of a task is followed to its end.
\<close>

subsection \<open>Schedules\<close>

text \<open>One interleaving, computed: which thread sends its next statement, all at one clock reading.\<close>

fun schedule :: "time \<Rightarrow> nat list \<Rightarrow> (nat \<Rightarrow> 'a prog) \<Rightarrow> database \<Rightarrow> (nat \<Rightarrow> 'a prog) \<times> database" where
  "schedule n [] ts d = (ts, d)"
| "schedule n (j # js) ts d = (case ts j of
     Ret x \<Rightarrow> schedule n js ts d
   | Stmt s k \<Rightarrow> schedule n js (ts(j := k (fst (s n d)))) (snd (s n d)))"

lemma schedule_from:
  "interleave E ts d ts1 d1 \<Longrightarrow> schedule n js ts1 d1 = (ts2, d2) \<Longrightarrow> interleave E ts d ts2 d2"
  by (induction n js ts1 d1 rule: schedule.induct) (auto split: prog.splits intro: interleave.statement)

lemma schedule_interleaves: "interleave E ts d (fst (schedule n js ts d)) (snd (schedule n js ts d))"
  by (rule schedule_from [OF interleave.none]) simp

definition turn :: "time \<Rightarrow> 'a prog \<Rightarrow> database \<Rightarrow> 'a prog \<times> database" where
  "turn n p d = (case p of Ret x \<Rightarrow> (Ret x, d) | Stmt s k \<Rightarrow> (k (fst (s n d)), snd (s n d)))"

lemma schedule_turn:
  "schedule n (j # js) ts d = (case turn n (ts j) d of (p, d1) \<Rightarrow> schedule n js (ts(j := p)) d1)"
  by (cases "ts j") (simp_all add: turn_def fun_upd_idem)

lemma turn_stmts:
  "turn n (upd s k) d = (k (fst (s n d)), snd (s n d))"
  "turn n (log_then i ev a x p) d = (p, snd (sql_insert_event i ev a x n d))"
  "turn n (get_by_id i f) d = (f (Inr (map_option scanTaskRow (find_task i d))), d)"
  "turn n (Ret z) d = (Ret z, d)"
  by (cases "fst (s n d)"; simp add: turn_def upd_def)
    (simp_all add: turn_def log_then_def ins_def get_by_id_def row_def split: option.split)

lemma turn_conflict:
  "find_task i d = Some r \<Longrightarrow> t_status r \<noteq> [] \<Longrightarrow>
     turn n (conflict_prog i msg) d = (Ret (Inl (ConflictError (t_status r) msg)), d)"
  by (simp add: turn_def conflict_prog_def row_def Let_def)

subsection \<open>A race of claims\<close>

text \<open>
  What a thread of the race still has to do after \<open>c\<close> turns, when \<open>r'\<close> is the claimed row: the
  winner logs and reads, the others read what they answer the conflict with.
\<close>

definition claim_refusal :: "repo_error + task option" where
  "claim_refusal = Inl (ConflictError st_claimed ''task is not in pending status'')"

fun winner_stage :: "string \<Rightarrow> string \<Rightarrow> task_row \<Rightarrow> nat \<Rightarrow> (repo_error + task option) prog" where
  "winner_stage i a r' 0 = log_then i ''ClaimTask'' a [] (get_by_id i Ret)"
| "winner_stage i a r' (Suc 0) = get_by_id i Ret"
| "winner_stage i a r' (Suc (Suc c)) = Ret (Inr (Some (scanTaskRow r')))"

fun loser_stage :: "string \<Rightarrow> string \<Rightarrow> nat \<Rightarrow> (repo_error + task option) prog" where
  "loser_stage i a 0 = claim_prog i a"
| "loser_stage i a (Suc 0) = conflict_prog i ''task is not in pending status''"
| "loser_stage i a (Suc (Suc c)) = Ret claim_refusal"

definition settled :: "string \<Rightarrow> task_row \<Rightarrow> database \<Rightarrow> bool" where
  "settled i r' d \<longleftrightarrow> wf_db d \<and> find_task i d = Some r' \<and> t_status r' = st_claimed"

lemma turn_winner:
  "settled i r' d \<Longrightarrow> \<exists>d'. turn n (winner_stage i a r' c) d = (winner_stage i a r' (Suc c), d') \<and> settled i r' d'"
  by (induction i a r' c rule: winner_stage.induct)
    (auto simp: turn_stmts settled_def wf_insert_event find_frames)

lemma turn_loser:
  "settled i r' d \<Longrightarrow> \<exists>d'. turn n (loser_stage i a c) d = (loser_stage i a (Suc c), d') \<and> settled i r' d'"
proof (induction i a c rule: loser_stage.induct)
  case (1 i a)
  then show ?case
    by (auto simp: claim_prog_def turn_stmts settled_def claim_row.affected claim_row.row claim_row.wf)
next
  case (2 i a)
  then show ?case by (auto simp: turn_conflict settled_def claim_refusal_def)
qed (auto simp: turn_stmts)

definition race_stage :: "string \<Rightarrow> (nat \<Rightarrow> string) \<Rightarrow> task_row \<Rightarrow> nat \<Rightarrow> (nat \<Rightarrow> nat) \<Rightarrow> nat \<Rightarrow>
    (repo_error + task option) prog" where
  "race_stage i ags r' j c l = (if l = j then winner_stage i (ags l) r' (c l) else loser_stage i (ags l) (c l))"

lemma turn_race:
  "settled i r' d \<Longrightarrow> \<exists>d'. turn n (race_stage i ags r' j c l) d = (race_stage i ags r' j (c(l := Suc (c l))) l, d') \<and>
     settled i r' d'"
  using turn_winner turn_loser by (auto simp: race_stage_def)

lemma schedule_race:
  "settled i r' d \<Longrightarrow> \<exists>d'. schedule n js (race_stage i ags r' j c) d =
     (race_stage i ags r' j (\<lambda>l. c l + count_list js l), d') \<and> settled i r' d'"
proof (induction js arbitrary: c d)
  case (Cons l js)
  from turn_race [OF Cons.prems, of n ags j c l] obtain d1 where
    1: "turn n (race_stage i ags r' j c l) d = (race_stage i ags r' j (c(l := Suc (c l))) l, d1)" "settled i r' d1"
    by auto
  have 2: "(race_stage i ags r' j c)(l := race_stage i ags r' j (c(l := Suc (c l))) l) = race_stage i ags r' j (c(l := Suc (c l)))"
    by (auto simp: race_stage_def)
  have 3: "(\<lambda>m. (c(l := Suc (c l))) m + count_list js m) = (\<lambda>m. c m + count_list (l # js) m)"
    by (auto simp: fun_eq_iff)
  from Cons.IH [OF 1(2), of "c(l := Suc (c l))"] show ?case
    unfolding schedule_turn 3 by (simp only: 1 2 prod.case)
qed simp

definition claimed_row :: "time \<Rightarrow> string \<Rightarrow> task_row \<Rightarrow> task_row" where
  "claimed_row n a r = (set_status st_claimed n r)\<lparr>t_assignee := a\<rparr>"

lemma first_turn:
  assumes "wf_db d" and "find_task i d = Some r" and "t_status r = st_pending"
  shows "\<exists>d1. turn n (claim_prog i a) d = (winner_stage i a (claimed_row n a r) 0, d1) \<and>
    settled i (claimed_row n a r) d1"
  using assms
  by (auto simp: claim_prog_def turn_stmts settled_def claim_row.affected claim_row.row claim_row.wf claimed_row_def
      set_status_def)

lemma claims_settle:
  assumes "wf_db d" and "find_task i d = Some r" and "t_status r = st_pending"
  shows "\<exists>d'. schedule n (j # js) (\<lambda>l. claim_prog i (ags l)) d =
    (race_stage i ags (claimed_row n (ags j) r) j (count_list js), d') \<and> settled i (claimed_row n (ags j) r) d'"
proof -
  let ?r = "claimed_row n (ags j) r"
  from first_turn [OF assms, of n "ags j"] obtain d1 where
    1: "turn n (claim_prog i (ags j)) d = (winner_stage i (ags j) ?r 0, d1)" "settled i ?r d1" by auto
  have "(\<lambda>l. claim_prog i (ags l))(j := winner_stage i (ags j) ?r 0) = race_stage i ags ?r j (\<lambda>_. 0)"
    by (auto simp: race_stage_def)
  with schedule_race [OF 1(2), of n js ags j "\<lambda>_. 0"] 1 show ?thesis
    by (simp add: schedule_turn del: schedule.simps winner_stage.simps)
qed

lemma race_stage_done:
  "2 \<le> c l \<Longrightarrow> race_stage i ags r' j c l = Ret (if l = j then Inr (Some (scanTaskRow r')) else claim_refusal)"
  by (auto simp: race_stage_def numeral_2_eq_2 Suc_le_eq elim!: less_natE)

end
