(* ===== verification/Stability.thy ===== *)
theory Stability
  imports Interleavings
begin

text \<open>
  What stays true of one task while the statements of many calls interleave. Each thread is followed
  with what it may rely on and what it keeps: the condition \<open>I\<close> that all threads keep, and a
  condition \<open>F v\<close> that only one thread at a time may have established and may end, as the failure
  of a task that is about to be retried; the others leave it as it is.
\<close>

subsection \<open>Threads in order\<close>

text \<open>
  A statement that takes \<open>d\<close> to \<open>d'\<close>, sent by a thread without the token or with the token of \<open>v\<close>;
  \<open>ok\<close> says which tokens suit what follows.
\<close>

definition serves :: "(database \<Rightarrow> bool) \<Rightarrow> ('v \<Rightarrow> database \<Rightarrow> bool) \<Rightarrow> 'v option \<Rightarrow> database \<Rightarrow> database \<Rightarrow>
    ('v option \<Rightarrow> bool) \<Rightarrow> bool" where
  "serves I F h d d' ok \<longleftrightarrow> (case h of
     None \<Rightarrow> I d \<longrightarrow> (I d' \<and> (\<forall>v. F v d \<longrightarrow> F v d') \<and> ok None) \<or> ((\<forall>v. \<not> F v d) \<and> (\<exists>v. F v d' \<and> ok (Some v)))
   | Some v \<Rightarrow> F v d \<longrightarrow> (F v d' \<and> ok (Some v)) \<or> (I d' \<and> ok None))"

primrec orderly :: "(database \<Rightarrow> bool) \<Rightarrow> ('v \<Rightarrow> database \<Rightarrow> bool) \<Rightarrow> 'a prog \<Rightarrow> 'v option \<Rightarrow> bool" where
  "orderly I F (Ret x) = (\<lambda>h. True)"
| "orderly I F (Stmt s k) = (\<lambda>h. orderly I F (k None) h \<and>
     (\<forall>n d. serves I F h d (snd (s n d)) (orderly I F (k (fst (s n d))))))"

definition token :: "(database \<Rightarrow> bool) \<Rightarrow> ('v \<Rightarrow> database \<Rightarrow> bool) \<Rightarrow> (nat \<Rightarrow> 'a prog) \<Rightarrow> database \<Rightarrow> bool" where
  "token I F ts d \<longleftrightarrow> I d \<and> (\<exists>w h. (\<forall>j. j \<noteq> w \<longrightarrow> orderly I F (ts j) None) \<and> orderly I F (ts w) h \<and>
     (\<forall>v. h = Some v \<longrightarrow> F v d))"

lemma tokenI:
  "I d \<Longrightarrow> (\<And>j. j \<noteq> w \<Longrightarrow> orderly I F (ts j) None) \<Longrightarrow> orderly I F (ts w) h \<Longrightarrow> (\<And>v. h = Some v \<Longrightarrow> F v d) \<Longrightarrow>
     token I F ts d"
  unfolding token_def by blast

lemma token_step:
  assumes t: "token I F ts d" and j: "ts j = Stmt s k" and FI: "\<And>v d. F v d \<Longrightarrow> I d"
  shows "token I F (ts(j := k (fst (s n d)))) (snd (s n d))"
proof -
  obtain w h where I: "I d" and o: "\<And>l. l \<noteq> w \<Longrightarrow> orderly I F (ts l) None" and w: "orderly I F (ts w) h"
    and h: "\<And>v. h = Some v \<Longrightarrow> F v d" using t unfolding token_def by blast
  let ?d = "snd (s n d)" and ?p = "k (fst (s n d))"
  show ?thesis
  proof (cases "j = w \<and> h \<noteq> None")
    case True
    then obtain v where v: "h = Some v" by blast
    with w True j h have "(F v ?d \<and> orderly I F ?p (Some v)) \<or> (I ?d \<and> orderly I F ?p None)" by (auto simp: serves_def)
    then show ?thesis
    proof (elim disjE conjE)
      assume "F v ?d" "orderly I F ?p (Some v)"
      with o True FI show ?thesis by (intro tokenI [of I _ w F _ "Some v"]) auto
    next
      assume "I ?d" "orderly I F ?p None"
      with o True show ?thesis by (intro tokenI [of I _ w F _ None]) auto
    qed
  next
    case False
    then have "orderly I F (Stmt s k) None" using o [of j] w j by (cases "j = w") auto
    with I consider (stay) "I ?d" "\<And>v. F v d \<Longrightarrow> F v ?d" "orderly I F ?p None"
      | (take) v where "\<And>v. \<not> F v d" "F v ?d" "orderly I F ?p (Some v)" by (auto simp: serves_def) metis
    then show ?thesis
    proof cases
      case stay
      with o w h False show ?thesis by (intro tokenI [of I _ w F _ h]) auto
    next
      case (take v)
      with h have "h = None" by (cases h) auto
      with w o have "orderly I F (ts l) None" for l by (cases "l = w") auto
      with take FI show ?thesis by (intro tokenI [of I _ j F _ "Some v"]) auto
    qed
  qed
qed

lemma token_fault:
  assumes t: "token I F ts d" and j: "ts j = Stmt s k"
  shows "token I F (ts(j := k None)) d"
proof -
  obtain w h where "I d" and o: "\<And>l. l \<noteq> w \<Longrightarrow> orderly I F (ts l) None" and w: "orderly I F (ts w) h"
    and "\<And>v. h = Some v \<Longrightarrow> F v d" using t unfolding token_def by blast
  moreover have "j \<noteq> w \<Longrightarrow> orderly I F (k None) None" "j = w \<Longrightarrow> orderly I F (k None) h" using o [of j] w j by auto
  ultimately show ?thesis by (intro tokenI [of I d w F _ h]) auto
qed

theorem interleave_token:
  assumes "interleave E ts d ts' d'" and "\<And>d d'. E d d' \<Longrightarrow> I d \<Longrightarrow> I d' \<and> (\<forall>v. F v d \<longrightarrow> F v d')"
    and FI: "\<And>v d. F v d \<Longrightarrow> I d" and "\<And>j. orderly I F (ts j) None" and "I d"
  shows "I d'"
proof -
  from assms(1) have "token I F ts' d'"
  proof (induction rule: interleave.induct)
    case none
    from assms(4,5) show ?case by (intro tokenI [of I d 0 F ts None]) auto
  next
    case (others ts' d' d'')
    with assms(2) show ?case unfolding token_def by blast
  next
    case (statement ts' d' j s k n)
    show ?case by (rule token_step [OF statement.IH statement.hyps(2)]) (rule FI)
  next
    case (fault ts' d' j s k)
    then show ?case using token_fault by blast
  qed
  then show ?thesis by (simp add: token_def)
qed

lemma orderly_stmts:
  "orderly I F (upd s k) h \<longleftrightarrow> orderly I F (k None) h \<and>
     (\<forall>n d. serves I F h d (snd (s n d)) (orderly I F (k (fst (s n d)))))"
  "orderly I F (ins s' l) h \<longleftrightarrow> orderly I F (l None) h \<and>
     (\<forall>n d. serves I F h d (snd (s' n d)) (orderly I F (l (fst (s' n d)))))"
  "orderly I F (row i k') h \<longleftrightarrow> orderly I F (k' None) h \<and> (\<forall>d. serves I F h d d (orderly I F (k' (Some (find_task i d)))))"
  "orderly I F (ids q k'') h \<longleftrightarrow> orderly I F (k'' None) h \<and> (\<forall>n d. serves I F h d d (orderly I F (k'' (Some (q n d)))))"
proof -
  have "case_option None (case_reply Some a b c \<circ> Rows) x = x" for a b c x by (cases x) simp_all
  then show "orderly I F (upd s k) h \<longleftrightarrow> orderly I F (k None) h \<and>
     (\<forall>n d. serves I F h d (snd (s n d)) (orderly I F (k (fst (s n d)))))"
    by (simp add: upd_def)
next
  have "case_option None (case_reply a (Some ()) b c \<circ> (\<lambda>_. Done)) x = x" for a b c x by (cases x) simp_all
  then show "orderly I F (ins s' l) h \<longleftrightarrow> orderly I F (l None) h \<and>
     (\<forall>n d. serves I F h d (snd (s' n d)) (orderly I F (l (fst (s' n d)))))"
    by (simp add: ins_def)
qed (simp_all add: row_def ids_def)

lemma orderly_ret: "orderly I F (Ret x) h"
  by simp

subsection \<open>Statements that leave a failed task failed\<close>

text \<open>
  \<open>settles i\<close>: the row of the task takes a step of its life cycle, or none, and if it was failed it
  still is. Every statement does this but a retry, a late release and an unblock of this task.
\<close>

definition settles :: "string \<Rightarrow> database \<Rightarrow> database \<Rightarrow> bool" where
  "settles i d d' \<longleftrightarrow> (wf_db d \<longrightarrow> wf_db d') \<and> (case find_task i d of
     None \<Rightarrow> \<forall>r'. find_task i d' = Some r' \<longrightarrow> fresh_row r'
   | Some r \<Rightarrow> \<exists>r'. find_task i d' = Some r' \<and>
       (r' = r \<or> row_step False r r' \<and> (t_status r = st_failed \<longrightarrow> t_status r' = st_failed)))"

text \<open>A write to other rows.\<close>

definition leaves_task :: "string \<Rightarrow> database \<Rightarrow> database \<Rightarrow> bool" where
  "leaves_task i d d' \<longleftrightarrow> (wf_db d \<longrightarrow> wf_db d') \<and> find_task i d' = find_task i d"

lemma settles_same: "find_task i d' = find_task i d \<Longrightarrow> (wf_db d \<Longrightarrow> wf_db d') \<Longrightarrow> settles i d d'"
  by (auto simp: settles_def split: option.split)

lemma settles_leaves: "leaves_task i d d' \<Longrightarrow> settles i d d'"
  by (simp add: leaves_task_def settles_same)

lemma settles_write:
  assumes w: "db_write False d d'"
    and f: "\<And>r r'. find_task i d = Some r \<Longrightarrow> find_task i d' = Some r' \<Longrightarrow> t_status r = st_failed \<Longrightarrow> t_status r' = st_failed"
  shows "settles i d d'"
proof (cases "find_task i d")
  case None
  with write_fresh [OF w None] db_write_wf [OF w] show ?thesis by (auto simp: settles_def)
next
  case (Some r)
  with write_row [OF w Some] f [OF Some] db_write_wf [OF w] show ?thesis by (auto simp: settles_def)
qed

lemma settles_update:
  assumes "db_write False d (snd (update_tasks P f d))" and "\<And>r. t_id (f r) = t_id r"
    and "\<And>r. t_status r = st_failed \<Longrightarrow> P r \<Longrightarrow> t_status (f r) = st_failed"
  shows "settles i d (snd (update_tasks P f d))"
  using assms(1) by (rule settles_write) (auto simp: find_task_update assms(2,3) split: if_splits)

lemma update_elsewhere:
  "(\<And>r. t_id (f r) = t_id r) \<Longrightarrow> (\<And>r. P r \<Longrightarrow> t_id r \<noteq> i) \<Longrightarrow>
     find_task i (snd (update_tasks P f d)) = find_task i d"
  using find_task_Some [of i d] by (cases "find_task i d") (auto simp: find_task_update)

lemma settles_elsewhere:
  assumes "i \<noteq> j"
  shows "settles i d (snd (sql_retry j n d))" "settles i d (snd (sql_release j n d))"
    "settles i d (snd (sql_update_status st_in_progress j n d))"
proof -
  have "find_task i (snd (sql_retry j n d)) = find_task i d"
    "find_task i (snd (sql_release j n d)) = find_task i d"
    "find_task i (snd (sql_update_status st_in_progress j n d)) = find_task i d"
    using assms by (auto simp: sql_retry_def sql_release_def sql_update_status_def intro!: update_elsewhere)
  moreover have "wf_db d \<Longrightarrow> wf_db (snd (sql_retry j n d))" "wf_db d \<Longrightarrow> wf_db (snd (sql_release j n d))"
    using stmt_write_wf [OF stmt_write.any_retry] stmt_write_wf [OF stmt_write.any_release] by blast+
  moreover have "wf_db d \<Longrightarrow> wf_db (snd (sql_update_status st_in_progress j n d))"
    by (rule db_write_wf [OF db_write.unblock [OF TrueI]])
  ultimately show "settles i d (snd (sql_retry j n d))" "settles i d (snd (sql_release j n d))"
    "settles i d (snd (sql_update_status st_in_progress j n d))" by (simp_all add: settles_same)
qed

text \<open>The guarded statements, the inserts and the statements on gates.\<close>

lemma settles_guarded:
  "a \<noteq> [] \<Longrightarrow> settles i d (snd (sql_claim a j n d))" "settles i d (snd (sql_start j n d))"
  "settles i d (snd (sql_block j n d))" "settles i d (snd (sql_complete s j n d))"
  "settles i d (snd (sql_fail s j n d))" "settles i d (snd (sql_expire_pending j n d))"
  "settles i d (snd (sql_expire_stale s j n d))" "settles i d (snd (sql_task_heartbeat j n d))"
  "settles i d (snd (sql_set_artifacts (marshal_artifacts xs) j n d))"
  using db_write.claim [of a False d j n] db_write.start [of False d j n] db_write.block [of False d j n]
    db_write.complete [of False d s j n] db_write.fail [of False d s j n] db_write.expire_pending [of False d j n]
    db_write.expire_stale [of False d s j n] db_write.task_heartbeat [of False d j n]
    db_write.set_artifacts [of False d xs j n]
  unfolding plain_updates by (auto intro!: settles_update)

lemma settles_others:
  "Status t = st_pending \<Longrightarrow> RetryCount t = 0 \<Longrightarrow> settles i d (snd (sql_insert_task t n d))"
  "GateStatus g = st_pending \<Longrightarrow> settles i d (snd (sql_insert_gate g n d))"
  "settles i d (snd (sql_ask_gate s j n d))" "settles i d (snd (sql_answer_gate s j n d))"
  "settles i d (snd (sql_resolve_gate j n d))" "settles i d (snd (sql_insert_event t' ev a x n d))"
proof -
  assume t: "Status t = st_pending" "RetryCount t = 0"
  have "find_task i (snd (sql_insert_task t n d)) = Some r" if "find_task i d = Some r" for r
    using that by (auto simp: sql_insert_task_def find_task_def find_append)
  with db_write.insert_task [OF t] show "settles i d (snd (sql_insert_task t n d))" by (auto intro: settles_write)
next
  assume "GateStatus g = st_pending"
  from db_write.insert_gate [OF this] show "settles i d (snd (sql_insert_gate g n d))"
    by (rule settles_write) (simp add: find_frames)
qed (rule settles_write, rule db_write.intros, simp add: find_frames)+

interpretation settled: log_relation "settles i" for i
  by unfold_locales (auto intro: settles_same settles_others)

subsection \<open>The threads of calls\<close>

lemma each_in:
  assumes "\<And>j n d. j \<in> set js \<Longrightarrow> wf_db d \<Longrightarrow> settles i d (snd (stmt j n d))" and "emits (settles i) p"
  shows "emits (settles i) (each_prog stmt ev x js p)"
  using assms by (induction js) (auto intro!: emit_intros settled.logs)

lemma fail_settles: "j \<noteq> i \<Longrightarrow> emits (settles i) (fail_prog j x)"
  unfolding fail_prog_def by (intro settled.quiet_intros settles_guarded settles_elsewhere) auto

lemma thread_settles:
  assumes "proper c" and "c \<noteq> CallUnblock i" and "\<And>s. c \<noteq> CallFail i s" and "\<And>ag. c \<noteq> CallRelease ag"
  shows "emits (settles i) (thread c)"
proof (cases c)
  case (CallCreate t)
  with assms(1) show ?thesis
    by (auto simp: void_def create_prog_def Let_def intro!: settled.quiet_intros settles_others)
next
  case (CallClaim j a)
  with assms(1) show ?thesis
    by (auto simp: void_def claim_prog_def intro!: settled.quiet_intros settles_guarded)
next
  case (CallUnblock j)
  with assms(2) show ?thesis
    by (auto simp: void_def unblock_prog_def intro!: settled.quiet_intros settles_elsewhere)
next
  case (CallFail j s)
  with assms(3) show ?thesis by (auto simp: void_def intro!: fail_settles)
next
  case (CallCreateGate g)
  with assms(1) show ?thesis
    by (auto simp: void_def create_gate_prog_def Let_def intro!: settled.quiet_intros settles_others)
next
  case (CallRelease ag)
  with assms(4) show ?thesis by blast
qed (simp only: thread.simps void_def emits_map prog_defs,
    (intro settled.quiet_intros settled.each settles_guarded settles_others; fail)?)+

lemma orderly_map [simp]: "orderly I F (map_result f p) = orderly I F p"
  by (induction p) auto

text \<open>
  The contract of a pair of conditions on one task, and what it gives: threads that only settle the
  task are in order, and the condition holds after every interleaving of threads in order.
\<close>

locale stable =
  fixes i :: string and I :: "database \<Rightarrow> bool" and F :: "'v \<Rightarrow> database \<Rightarrow> bool"
  assumes keeps: "settles i d d' \<Longrightarrow> I d \<Longrightarrow> I d'"
    and holds: "settles i d d' \<Longrightarrow> F v d \<Longrightarrow> F v d'"
    and well_formed: "I d \<Longrightarrow> wf_db d"
    and established: "F v d \<Longrightarrow> I d"
begin

lemma steady: "emits (settles i) p \<Longrightarrow> orderly I F p h"
proof (induction p arbitrary: h)
  case (Stmt s k)
  have "settles i d (snd (s n d))" if "I d" for n d using Stmt.prems well_formed [OF that] by simp
  moreover have "orderly I F (k r) h'" for r h' using Stmt by simp
  ultimately show ?case using keeps holds established by (fastforce simp: serves_def split: option.split)
qed simp

lemma serves_settles:
  "(I d \<Longrightarrow> settles i d d') \<Longrightarrow> (I d \<Longrightarrow> ok h) \<Longrightarrow> serves I F h d d' ok"
  using keeps holds established by (fastforce simp: serves_def split: option.split)

lemma logs: "orderly I F p h \<Longrightarrow> orderly I F (log_then j ev a x p) h"
  unfolding log_then_def orderly_stmts by (auto intro!: serves_settles settles_others)

lemma interleaved:
  assumes "interleave E ts d ts' d'" and "\<And>d d'. E d d' \<Longrightarrow> settles i d d'" and "\<And>j. orderly I F (ts j) None" and "I d"
  shows "I d'"
  by (rule interleave_token [OF assms(1) _ _ assms(3,4)]) (use assms(2) keeps holds established in blast)+

end

subsection \<open>Finished tasks\<close>

text \<open>The row is finished and is as it was in \<open>r\<close>; no thread has to establish anything.\<close>

definition frozen :: "string \<Rightarrow> task_row \<Rightarrow> database \<Rightarrow> bool" where
  "frozen i r d \<longleftrightarrow> wf_db d \<and> finished r \<and> (\<exists>r'. find_task i d = Some r' \<and> stays_finished r r')"

lemma frozen_row:
  assumes "frozen i r d"
  obtains r' where "find_task i d = Some r'" "finished r'" "stays_finished r r'" "wf_db d"
  using assms that by (auto simp: frozen_def stays_finished_def finished_def retries_left_def)

interpretation frozen: stable i "frozen i r" "\<lambda>(_ :: unit) _. False" for i r
proof
  fix d d' assume s: "settles i d d'" and f: "frozen i r d"
  then obtain r1 where r1: "find_task i d = Some r1" "stays_finished r r1" "wf_db d" by (auto elim: frozen_row)
  with s obtain r2 where r2: "find_task i d' = Some r2" "r2 = r1 \<or> row_step False r1 r2" "wf_db d'"
    by (auto simp: settles_def)
  have "stays_finished r1 r2"
    using r2(2) ending.row_keeps [OF find_task_status [OF r1(3,1)]] ending.row_refl by blast
  with r1 r2 f ending.row_trans show "frozen i r d'" by (auto simp: frozen_def)
qed (auto simp: frozen_def)

lemma finished_idle: "finished r \<Longrightarrow> t_status r \<noteq> st_in_progress \<and> t_status r \<noteq> st_claimed"
  by (auto simp: finished_def)

lemma frozen_fail: "orderly (frozen i r) (\<lambda>(_ :: unit) _. False) (fail_prog i x) None"
  unfolding fail_prog_def orderly_stmts
proof (intro conjI allI, simp, rule frozen.serves_settles)
  fix n d assume f: "frozen i r d"
  then show "settles i d (snd (sql_fail x i n d))" by (intro settles_guarded)
  from f obtain r' where "find_task i d = Some r'" "finished r'" "wf_db d" by (auto elim: frozen_row)
  then have "fst (sql_fail x i n d) = Some 0" using finished_idle [of r'] by (simp add: fail_row.affected)
  then show "orderly (frozen i r) (\<lambda>(_ :: unit) _. False) (case fst (sql_fail x i n d) of
       None \<Rightarrow> Ret (Inl (DbError ''fail task''))
     | Some n \<Rightarrow> if n = 0 then conflict_prog i ''task is not in in_progress status'' else q n) None" for q
    by (auto intro: frozen.steady settled.conflicts)
qed

text \<open>A release looks for the active tasks of the agent, and a finished one is not among them.\<close>

lemma frozen_release: "orderly (frozen i r) (\<lambda>(_ :: unit) _. False) (release_prog ag) None"
  unfolding release_prog_def orderly_stmts
proof (intro conjI allI, simp, rule frozen.serves_settles)
  fix n d assume f: "frozen i r d"
  then obtain r' where r': "find_task i d = Some r'" "finished r'" "wf_db d" by (auto elim: frozen_row)
  let ?ids = "map t_id (filter (active_task_of ag) (tasks d))"
  have "i \<notin> set ?ids"
    using r' finished_idle [of r'] find_task_mem [OF r'(3)] by (force simp: active_task_of_def)
  then have "emits (settles i) (each_prog sql_release ev x ?ids (Ret y))" for ev x and y :: "repo_error + string slice"
    by (intro each_in settles_elsewhere emits_ret) auto
  then show "orderly (frozen i r) (\<lambda>(_ :: unit) _. False) (case Some ?ids of
       None \<Rightarrow> Ret (Inl (DbError ''query agent tasks''))
     | Some released \<Rightarrow> each_prog sql_release ''StaleAgentRelease'' (release_detail ag) released
         (Ret (Inr (built released)))) None"
    by (simp add: frozen.steady)
qed (rule settles_same, auto)

lemma frozen_thread:
  assumes "proper c" and "c \<noteq> CallUnblock i"
  shows "orderly (frozen i r) (\<lambda>(_ :: unit) _. False) (thread c) None"
proof (cases "(\<exists>s. c = CallFail i s) \<or> (\<exists>ag. c = CallRelease ag)")
  case True
  then show ?thesis by (auto simp: void_def frozen_fail frozen_release)
next
  case False
  with assms thread_settles [of c i] show ?thesis by (intro frozen.steady) blast
qed

subsection \<open>Retries\<close>

text \<open>
  The retry counter is within its bound; the token is the failure of the task with its limit and its
  counter, held by the thread that has failed the task until it has retried it.
\<close>

definition bounded :: "string \<Rightarrow> database \<Rightarrow> bool" where
  "bounded i d \<longleftrightarrow> wf_db d \<and> (\<forall>r. find_task i d = Some r \<longrightarrow> retry_bound r)"

definition just_failed :: "string \<Rightarrow> int \<times> int \<Rightarrow> database \<Rightarrow> bool" where
  "just_failed i v d \<longleftrightarrow> wf_db d \<and> (\<exists>r. find_task i d = Some r \<and> t_status r = st_failed \<and> retry_bound r \<and>
     v = (t_max_retries r, t_retry_count r))"

lemma failed_step:
  "row_step False r r' \<Longrightarrow> t_status r = st_failed \<Longrightarrow> t_status r' = st_failed \<Longrightarrow>
     t_max_retries r' = t_max_retries r \<and> t_retry_count r' = t_retry_count r"
  by (auto simp: row_step_simps set_status_def)

interpretation bounded: stable i "bounded i" "just_failed i" for i
proof
  fix d d' assume s: "settles i d d'"
  show "bounded i d'" if b: "bounded i d"
  proof (cases "find_task i d")
    case None
    with s b retries.fresh show ?thesis by (auto simp: settles_def bounded_def)
  next
    case (Some r)
    with s b retries.step [OF find_task_status [OF _ Some]] show ?thesis by (fastforce simp: settles_def bounded_def)
  qed
  show "just_failed i v d'" if f: "just_failed i v d" for v
  proof -
    from f obtain r where r: "find_task i d = Some r" "t_status r = st_failed" "retry_bound r" "wf_db d"
      "v = (t_max_retries r, t_retry_count r)" by (auto simp: just_failed_def)
    with s obtain r' where r': "find_task i d' = Some r'" "wf_db d'" "r' = r \<or> row_step False r r'"
      "t_status r' = st_failed" by (auto simp: settles_def)
    with r failed_step [of r r'] show ?thesis by (auto simp: just_failed_def retry_bound_def)
  qed
qed (auto simp: bounded_def just_failed_def)

lemma bounded_retry:
  assumes "just_failed i (m, c) d" and "c < m"
  shows "bounded i (snd (sql_retry i n d))"
proof -
  have "wf_db (snd (sql_retry i n d))"
    using assms(1) stmt_write_wf [OF stmt_write.any_retry] by (auto simp: just_failed_def)
  with assms any_order_row(1) [of i i n d] show ?thesis
    by (auto simp: bounded_def just_failed_def retry_bound_def)
qed

lemma scanned_retries: "MaxRetries (scanTaskRow r) = t_max_retries r" "RetryCount (scanTaskRow r) = t_retry_count r"
  by (simp_all add: scanTaskRow_def scan_columns_def Let_def)

lemma read_failed:
  assumes "\<And>r :: task_row. v = (t_max_retries r, t_retry_count r) \<Longrightarrow>
      orderly (bounded i) (just_failed i) (k (Inr (Some (scanTaskRow r)))) (Some v)"
    and "\<And>e. orderly (bounded i) (just_failed i) (k (Inl e)) (Some v)"
  shows "orderly (bounded i) (just_failed i) (get_by_id i k) (Some v)"
  unfolding get_by_id_def orderly_stmts using assms by (auto simp: serves_def just_failed_def)

lemma bounded_fail: "orderly (bounded i) (just_failed i) (fail_prog i x) None"
proof -
  let ?ok = "\<lambda>p h. orderly (bounded i) (just_failed i) p h"
  let ?again = "\<lambda>t. upd (sql_retry i) (\<lambda>res'. case res' of
       None \<Rightarrow> Ret (Inl (DbError ''fail task retry''))
     | Some (_ :: nat) \<Rightarrow> log_then i ''TaskRetry'' [] (retry_detail t x) (get_by_id i (\<lambda>r'. case r' of
           Inl e \<Rightarrow> Ret (Inl (DbError ''get task after retry''))
         | Inr None \<Rightarrow> Ret (Inl NilDeref)
         | Inr (Some t') \<Rightarrow> Ret (Inr \<lparr>FTask = Some t', DidRetry = True,
             Attempt = RetryCount t', MaxRetry = MaxRetries t\<rparr>))))"
  let ?decide = "\<lambda>t. if 0 < MaxRetries t \<and> RetryCount t < MaxRetries t then ?again t
     else Ret (Inr \<lparr>FTask = Some t, DidRetry = False, Attempt = 0, MaxRetry = MaxRetries t\<rparr>)"
  have again: "?ok (?again t) (Some (MaxRetries t, RetryCount t))" if "RetryCount t < MaxRetries t" for t
    unfolding orderly_stmts using bounded_retry [OF _ that]
    by (auto simp: serves_def intro!: bounded.steady settled.quiet_intros)
  have decide: "?ok (?decide t) (Some (MaxRetries t, RetryCount t))" for t
    using again [of t] by (auto intro: orderly_ret)
  have read: "?ok (get_by_id i (\<lambda>r. case r of
       Inl e \<Rightarrow> Ret (Inl (DbError ''get task after fail''))
     | Inr None \<Rightarrow> Ret (Inl NilDeref) | Inr (Some t) \<Rightarrow> ?decide t)) (Some v)" for v
  proof (rule read_failed)
    fix r :: task_row assume "v = (t_max_retries r, t_retry_count r)"
    with decide [of "scanTaskRow r"] show "?ok (case Inr (Some (scanTaskRow r)) of
       Inl e \<Rightarrow> Ret (Inl (DbError ''get task after fail''))
     | Inr None \<Rightarrow> Ret (Inl NilDeref) | Inr (Some t) \<Rightarrow> ?decide t) (Some v)"
      by (simp only: scanned_retries sum.case option.case)
  qed simp
  show ?thesis
    unfolding fail_prog_def orderly_stmts
  proof (intro conjI allI, simp)
    fix n d
    let ?p = "\<lambda>res. case res of
       None \<Rightarrow> Ret (Inl (DbError ''fail task''))
     | Some n \<Rightarrow> if n = 0 then conflict_prog i ''task is not in in_progress status''
         else log_then i ''FailTask'' [] x (get_by_id i (\<lambda>r. case r of
             Inl e \<Rightarrow> Ret (Inl (DbError ''get task after fail''))
           | Inr None \<Rightarrow> Ret (Inl NilDeref) | Inr (Some t) \<Rightarrow> ?decide t))"
    let ?d = "snd (sql_fail x i n d)"
    show "serves (bounded i) (just_failed i) None d ?d (?ok (?p (fst (sql_fail x i n d))))"
    proof (cases "bounded i d \<and> task_holds running_task i d")
      case True
      then obtain r where r: "find_task i d = Some r" "t_status r = st_in_progress" "retry_bound r" "wf_db d"
        by (auto simp: task_holds_def running_task_def bounded_def split: option.splits)
      then have "just_failed i (t_max_retries r, t_retry_count r) ?d" "fst (sql_fail x i n d) = Some 1"
        by (auto simp: just_failed_def fail_row.row fail_row.affected fail_row.wf retry_bound_def)
      moreover have "\<not> just_failed i v d" for v using r by (simp add: just_failed_def)
      ultimately show ?thesis by (auto simp: serves_def intro!: bounded.logs read)
    next
      case False
      then have "bounded i d \<Longrightarrow> fst (sql_fail x i n d) = Some 0"
        by (auto simp: bounded_def fail_row.affected task_holds_def running_task_def split: option.split)
      then show ?thesis
        by (intro bounded.serves_settles settles_guarded) (auto intro: bounded.steady settled.conflicts)
    qed
  qed
qed

lemma bounded_thread:
  assumes "proper c" and "c \<noteq> CallUnblock i" and "\<And>ag. c \<noteq> CallRelease ag"
  shows "orderly (bounded i) (just_failed i) (thread c) None"
proof (cases "\<exists>s. c = CallFail i s")
  case True
  then show ?thesis by (auto simp: void_def bounded_fail)
next
  case False
  with assms thread_settles [of c i] show ?thesis by (intro bounded.steady) blast
qed

end
