(* ===== verification/Outcomes.thy ===== *)
theory Outcomes
  imports Transitions
begin

text \<open>
  The methods of several statements, computed without faults: completion with the promotion of
  the children, failure with its retry, the two expiries and the release of an agent's tasks;
  and the claim under any faults.
\<close>

subsection \<open>Claiming under faults\<close>

lemma ClaimTask_db:
  assumes "run_state (ClaimTask i a) w = (r, w')"
  shows "(find_task j (db w') = find_task j (db w) \<and> (\<exists>e. r = Inl e)) \<or>
    (find_task j (db w') = find_task j (snd (sql_claim a i (now w) (db w))) \<and>
      fst (sql_claim a i (now w) (db w)) \<noteq> Some 0)"
proof -
  obtain q w1 where e: "run_state (exec (sql_claim a i)) w = (q, w1)"
    by (cases "run_state (exec (sql_claim a i)) w")
  consider (refused) "q = None \<or> q = Some 0" | (moved) n where "q = Some n" "n \<noteq> 0" by (cases q) auto
  then show ?thesis
  proof cases
    case refused
    have "db w1 = db w"
    proof (cases "q = Some 0")
      case True
      with exec_cases [OF e] claim_row.refused [of a i "now w" "db w"] show ?thesis by auto
    next
      case False
      with refused exec_cases [OF e] show ?thesis by (auto simp: sql_claim_def)
    qed
    moreover obtain c w2 where c: "run_state (current_status i) w1 = (c, w2)"
      by (cases "run_state (current_status i) w1")
    moreover have "db w2 = db w1"
      using c query_cases [of "\<lambda>_. find_task i" w1]
      by (auto simp: current_status_def exec_simps split: prod.splits)
    ultimately show ?thesis using assms refused e
      by (auto simp: ClaimTask_def conflict_or_missing_def exec_simps)
  next
    case moved
    obtain y w2 where l: "run_state (logTaskEvent i ''ClaimTask'' a []) w1 = (y, w2)"
      by (cases "run_state (logTaskEvent i ''ClaimTask'' a []) w1")
    have "run_state (GetByID i) w2 = (r, w')" using assms e l moved by (simp add: ClaimTask_def exec_simps)
    from GetByID_cases [OF this] have "db w' = db w2" by simp
    moreover have "tasks (db w2) = tasks (db w1)"
      using logTaskEvent_tasks(1) [of i _ a _ w1] l by (metis snd_conv)
    ultimately have "find_task j (db w') = find_task j (db w1)" by (simp add: find_task_def)
    with exec_cases [OF e] moved show ?thesis by auto
  qed
qed

lemma ClaimTask_wf:
  assumes "run_state (ClaimTask i a) w = (r, w')" and "wf_db (db w)"
  shows "wf_db (db w')"
proof -
  obtain q w1 where e: "run_state (exec (sql_claim a i)) w = (q, w1)"
    by (cases "run_state (exec (sql_claim a i)) w")
  from exec_cases [OF e] assms(2) have "wf_db (db w1)" by (auto simp: claim_row.wf)
  moreover define m where "m = (case q of None \<Rightarrow> State_Monad.return (Inl (DbError ''claim task''))
     | Some n \<Rightarrow> if n = 0 then conflict_or_missing i ''task is not in pending status'' else do {
         logTaskEvent i ''ClaimTask'' a [];
         GetByID i
       })"
  moreover have "issues False m" unfolding m_def by (intro steps_intros)
  moreover have "run_state m w1 = (r, w')"
    using assms(1) by (simp add: ClaimTask_def run_state_bind e m_def)
  ultimately show ?thesis using writes_of_issues [of False m w1 r w'] by simp
qed

definition is_pending :: "string \<Rightarrow> database \<Rightarrow> bool" where
  "is_pending i d \<longleftrightarrow> (\<exists>r. find_task i d = Some r \<and> t_status r = st_pending)"

lemma ClaimTask_keeps:
  assumes "run_state (ClaimTask i a) w = (r, w')" and "wf_db (db w)"
  shows "(is_pending i (db w') \<longrightarrow> is_pending i (db w)) \<and>
    (\<forall>t. r = Inr t \<longrightarrow> is_pending i (db w) \<and> \<not> is_pending i (db w'))"
  using ClaimTask_db [OF assms(1), of i] assms(2)
  by (auto simp: is_pending_def claim_row.row claim_row.affected split: option.splits if_splits)

subsection \<open>Failure\<close>

lemma sql_retry_row:
  assumes "wf_db d" and "find_task i d = Some r" and "int4 (t_retry_count r + 1)"
  shows "sql_retry i n d = update_tasks (\<lambda>r. t_id r = i)
    (\<lambda>r. (set_status st_pending n r)\<lparr>t_retry_count := t_retry_count r + 1, t_assignee := []\<rparr>) d"
proof -
  have "r' = r" if "r' \<in> set (tasks d)" "t_id r' = i" for r'
    using find_task_mem [OF assms(1) that(1)] that(2) assms(2) by simp
  with assms(3) have n: "\<not> (\<exists>r \<in> set (tasks d). t_id r = i \<and> \<not> int4 (t_retry_count r + 1))" by blast
  show ?thesis unfolding sql_retry_def by (simp only: n if_False)
qed

definition retried :: "time \<Rightarrow> string \<Rightarrow> task_row \<Rightarrow> task_row" where
  "retried n reason r = (set_status st_pending n r)
     \<lparr>t_summary := reason, t_retry_count := t_retry_count r + 1, t_assignee := []\<rparr>"

definition failed :: "time \<Rightarrow> string \<Rightarrow> task_row \<Rightarrow> task_row" where
  "failed n reason r = (set_status st_failed n r)\<lparr>t_summary := reason\<rparr>"

lemma failed_sel [simp]:
  "t_id (failed n x r) = t_id r" "t_status (failed n x r) = st_failed"
  "t_retry_count (failed n x r) = t_retry_count r" "t_max_retries (failed n x r) = t_max_retries r"
  by (simp_all add: failed_def)

lemma retried_sel [simp]:
  "t_id (retried n x r) = t_id r" "t_status (retried n x r) = st_pending"
  "t_retry_count (retried n x r) = t_retry_count r + 1" "t_assignee (retried n x r) = []"
  by (simp_all add: retried_def)

lemma run_FailTask_final:
  assumes "wf_db (db w)" and "faults w = []" and "find_task i (db w) = Some r"
    and "t_status r = st_in_progress" and "\<not> (0 < t_max_retries r \<and> t_retry_count r < t_max_retries r)"
  shows "\<exists>w'. run_state (FailTask i x) w = (Inr \<lparr>FTask = Some (scanTaskRow (failed (now w) x r)),
      DidRetry = False, Attempt = 0, MaxRetry = t_max_retries r\<rparr>, w') \<and>
    find_task i (db w') = Some (failed (now w) x r)"
  using assms by (auto simp: FailTask_def run_state_bind run_state_return fail_row.exec_run run_log
      run_GetByID fail_row.row failed_def)

lemma run_FailTask_retry:
  assumes wf: "wf_db (db w)" and "faults w = []" and "find_task i (db w) = Some r"
    and "t_status r = st_in_progress" and "0 < t_max_retries r \<and> t_retry_count r < t_max_retries r"
    and "int4 (t_retry_count r + 1)"
  shows "\<exists>w'. run_state (FailTask i x) w = (Inr \<lparr>FTask = Some (scanTaskRow (retried (now w) x r)),
      DidRetry = True, Attempt = t_retry_count r + 1, MaxRetry = t_max_retries r\<rparr>, w') \<and>
    find_task i (db w') = Some (retried (now w) x r)"
proof -
  define d1 where "d1 = logged i ''FailTask'' [] x (now w) (snd (sql_fail x i (now w) (db w)))"
  have f: "find_task i d1 = Some (failed (now w) x r)"
    using assms by (simp add: d1_def fail_row.row failed_def)
  have wf1: "wf_db d1" using wf by (simp add: d1_def fail_row.wf)
  note s = sql_retry_row [OF wf1 f]
  have "find_task i (snd (sql_retry i (now w) d1)) = Some (retried (now w) x r)"
    "fst (sql_retry i (now w) d1) = Some 1"
    using assms f by (simp_all add: s find_task_update count_task_id [OF wf1])
      (simp_all add: find_task_Some retried_def failed_def set_status_def)
  then show ?thesis
    using assms f by (simp add: FailTask_def run_state_bind run_state_return fail_row.affected run_log
      run_GetByID run_exec_ok flip: d1_def)
qed

subsection \<open>Completion\<close>

definition row_parents :: "task_row \<Rightarrow> string list" where
  "row_parents r = elems (unmarshal_or_nil (unmarshal_strings (t_parents r)))"

definition parents_ok :: "database \<Rightarrow> task_row \<Rightarrow> bool" where
  "parents_ok d r \<longleftrightarrow> distinct (row_parents r) \<and> list_all (completed_in d) (row_parents r)"

lemma completed_in_tasks: "tasks d = tasks d' \<Longrightarrow> completed_in d = completed_in d'"
  by (simp add: fun_eq_iff completed_in_def find_task_def)

lemma parents_ok_tasks: "tasks d = tasks d' \<Longrightarrow> parents_ok d r = parents_ok d' r"
  by (simp add: parents_ok_def completed_in_tasks [of d d'])

lemma run_CheckParentsCompleted:
  "wf_db (db w) \<Longrightarrow> faults w = [] \<Longrightarrow> run_state (CheckParentsCompleted c) w =
     (case find_task c (db w) of None \<Rightarrow> Inl (TaskNotFound c) | Some r \<Rightarrow> Inr (parents_ok (db w) r), w)"
  by (auto simp: CheckParentsCompleted_def run_state_bind run_state_return run_GetByID
      run_AreParentsCompleted parents_ok_def row_parents_def list_all_iff split: option.split)

text \<open>What a logged event is about: its task and its kind.\<close>

definition event_kinds :: "database \<Rightarrow> (string \<times> string) list" where
  "event_kinds d = map (\<lambda>e. (e_task e, e_event e)) (events d)"

lemma event_kinds_logged:
  "event_kinds (logged i ev a x n d) = event_kinds d @ (if i \<in> task_ids d then [(i, ev)] else [])"
  by (simp add: event_kinds_def logged_def sql_insert_event_def)

definition ready :: "database \<Rightarrow> string \<Rightarrow> bool" where
  "ready d c \<longleftrightarrow> (case find_task c d of None \<Rightarrow> False | Some r \<Rightarrow> parents_ok d r)"

lemma ready_tasks: "tasks d = tasks d' \<Longrightarrow> ready d c = ready d' c"
  using parents_ok_tasks [of d d'] find_task_tasks [of d d' c] by (simp add: ready_def split: option.split)

lemma run_promote_loop:
  "wf_db (db w) \<Longrightarrow> faults w = [] \<Longrightarrow> \<exists>w'. run_state (promote_loop i ids) w = ((), w') \<and>
     faults w' = [] \<and> tasks (db w') = tasks (db w) \<and>
     event_kinds (db w') = event_kinds (db w) @ map (\<lambda>c. (c, ''ParentsCompleted'')) (filter (ready (db w)) ids)"
proof (induction ids arbitrary: w)
  case Nil
  then show ?case by (simp add: run_state_return)
next
  case (Cons c ids)
  show ?case
  proof (cases "ready (db w) c")
    case False
    with Cons.prems Cons.IH [OF Cons.prems] show ?thesis
      by (auto simp: run_state_bind run_CheckParentsCompleted ready_def split: option.splits)
  next
    case True
    define w1 where "w1 = w\<lparr>db := logged c ''ParentsCompleted'' [] (''parent '' @ i @ '' completed'') (now w) (db w)\<rparr>"
    have p: "wf_db (db w1)" "faults w1 = []" and t: "tasks (db w1) = tasks (db w)"
      using Cons.prems by (simp_all add: w1_def)
    have r: "ready (db w1) = ready (db w)" using ready_tasks [OF t] by blast
    from True have "c \<in> task_ids (db w)"
      using find_task_None [of c "db w"] by (auto simp: ready_def split: option.splits)
    then have "event_kinds (db w1) = event_kinds (db w) @ [(c, ''ParentsCompleted'')]"
      by (simp add: w1_def event_kinds_logged)
    moreover have "run_state (promote_loop i (c # ids)) w = run_state (promote_loop i ids) w1"
      using True Cons.prems
      by (auto simp: run_state_bind run_CheckParentsCompleted run_log ready_def w1_def split: option.splits)
    ultimately show ?thesis using Cons.IH [OF p] True by (simp add: t r)
  qed
qed

definition completed :: "time \<Rightarrow> string \<Rightarrow> task_row \<Rightarrow> task_row" where
  "completed n summary r = (set_status st_completed n r)\<lparr>t_summary := summary\<rparr>"

text \<open>The children the completion of \<open>i\<close> makes ready, in the order of the table.\<close>

definition promoted :: "string \<Rightarrow> database \<Rightarrow> string list" where
  "promoted i d = filter (ready d) (map t_id (filter (\<lambda>r. parents_like i r \<and> t_status r = st_pending) (tasks d)))"

lemma run_CompleteTask:
  assumes wf: "wf_db (db w)" and f: "faults w = []" and r: "find_task i (db w) = Some r"
    and s: "t_status r = st_in_progress"
  shows "\<exists>w'. run_state (CompleteTask i x) w = (Inr (Some (scanTaskRow (completed (now w) x r))), w') \<and>
    tasks (db w') = tasks (snd (sql_complete x i (now w) (db w))) \<and>
    event_kinds (db w') = event_kinds (db w) @ (i, ''CompleteTask'')
      # map (\<lambda>c. (c, ''ParentsCompleted'')) (promoted i (snd (sql_complete x i (now w) (db w))))"
proof -
  define d where "d = snd (sql_complete x i (now w) (db w))"
  define w1 where "w1 = w\<lparr>db := logged i ''CompleteTask'' [] x (now w) d\<rparr>"
  have "wf_db d" using wf by (simp add: d_def complete_row.wf)
  then have p: "wf_db (db w1)" "faults w1 = []" and t: "tasks (db w1) = tasks d"
    using f by (simp_all add: w1_def)
  have rd: "ready (db w1) = ready d" using ready_tasks [OF t] by blast
  have fd: "find_task i d = Some (completed (now w) x r)"
    using r s by (simp add: d_def complete_row.row completed_def)
  then have "i \<in> task_ids d" using find_task_None [of i d] by auto
  moreover have "event_kinds d = event_kinds (db w)"
    by (simp add: d_def sql_complete_def event_kinds_def)
  ultimately have e: "event_kinds (db w1) = event_kinds (db w) @ [(i, ''CompleteTask'')]"
    by (simp add: w1_def event_kinds_logged)
  have "run_state (logTaskEvent i ''CompleteTask'' [] x) (w\<lparr>db := d\<rparr>) = ((), w1)"
    using f by (simp add: run_log w1_def)
  moreover have "run_state (GetByID i) w1 = (Inr (Some (scanTaskRow (completed (now w) x r))), w1)"
    using p fd find_task_tasks [OF t] by (simp add: run_GetByID)
  ultimately have "run_state (CompleteTask i x) w = (case run_state (PromoteChildren i) w1 of
      (_, w') \<Rightarrow> (Inr (Some (scanTaskRow (completed (now w) x r))), w'))"
    using wf f r s by (simp add: CompleteTask_def run_state_bind run_state_return run_exec_ok
      complete_row.affected flip: d_def)
  with run_promote_loop [OF p, of i "map t_id (filter (\<lambda>r. parents_like i r \<and> t_status r = st_pending) (tasks d))"]
  show ?thesis
    using p(2) unfolding d_def [symmetric]
    by (auto simp: PromoteChildren_def run_state_bind run_state_return run_query_ok t rd e promoted_def)
qed

subsection \<open>Expiry and release\<close>

definition swept :: "(task_row \<Rightarrow> bool) \<Rightarrow> (task_row \<Rightarrow> task_row) \<Rightarrow> database \<Rightarrow> database \<Rightarrow> bool" where
  "swept P f d d' \<longleftrightarrow> (\<forall>j. find_task j d' = map_option (\<lambda>r. if P r then f r else r) (find_task j d))"

lemma swept_select:
  assumes "wf_db d" and "\<And>r. P r \<Longrightarrow> g r"
    and "\<And>j. find_task j d' = (if j \<in> set (map t_id (filter P (tasks d)))
      then map_option (\<lambda>r. if g r then f r else r) (find_task j d) else find_task j d)"
  shows "swept P f d d'"
  using assms(2,3) unfolding swept_def select_ids [OF assms(1)]
  by (auto intro!: option.map_cong0)

lemma swept_none: "filter P (tasks d) = [] \<Longrightarrow> swept P f d d"
  using find_task_Some [of _ d] by (fastforce simp: swept_def filter_empty_conv intro: option.map_ident_strong [symmetric])

context transition
begin

lemma sweep_selected:
  assumes "\<And>n r. change n (change n r) = change n r" and "\<And>n r. t_status (change n r) \<in> set task_statuses"
    and wf: "wf_db (db w)" and "faults w = []" and P: "\<And>r. P r \<Longrightarrow> guard r"
  shows "\<exists>w'. run_state (sweep stmt ev msg (map t_id (filter P (tasks (db w))))) w = ((), w') \<and>
    swept P (change (now w)) (db w) (db w')"
proof -
  let ?ids = "map t_id (filter P (tasks (db w)))"
  obtain w' where r: "run_state (sweep stmt ev msg ?ids) w = ((), w')"
    and j: "\<And>j. find_task j (db w') = (if j \<in> set ?ids
      then map_option (\<lambda>r. if guard r then change (now w) r else r) (find_task j (db w)) else find_task j (db w))"
    using sweep_run [of w ev msg ?ids] assms by blast
  from swept_select [OF wf P j] r show ?thesis by blast
qed

end

lemma failed_fun: "failed n x = (\<lambda>r. (set_status st_failed n r)\<lparr>t_summary := x\<rparr>)"
  by (simp add: fun_eq_iff failed_def)

lemma run_ReleaseAgentTasks:
  assumes wf: "wf_db (db w)" and f: "faults w = []"
  shows "\<exists>w'. run_state (ReleaseAgentTasks ag) w =
      (Inr (built (map t_id (filter (active_task_of ag) (tasks (db w))))), w') \<and>
    swept (active_task_of ag) (\<lambda>r. (set_status st_pending (now w) r)\<lparr>t_assignee := []\<rparr>) (db w) (db w')"
  using release_row.sweep_selected [of w "active_task_of ag" "''StaleAgentRelease''"
    "''released from stale agent '' @ ag"] assms
  by (auto simp: set_status_def ReleaseAgentTasks_def run_state_bind run_state_return run_query_ok release_sweep)

text \<open>The two expiries select the rows and then sweep them with a guard of their own.\<close>

lemma run_ExpirePendingTasks:
  assumes wf: "wf_db (db w)" and f: "faults w = []" and m: "0 < m"
  shows "\<exists>w'. run_state (ExpirePendingTasks m) w =
      (Inr (built (map t_id (filter (pending_expired m (now w)) (tasks (db w))))), w') \<and>
    swept (pending_expired m (now w)) (failed (now w) expired_summary) (db w) (db w')"
proof (cases "filter (pending_expired m (now w)) (tasks (db w)) = []")
  case True
  with f m swept_none show ?thesis
    by (auto simp: ExpirePendingTasks_def run_state_bind run_state_return run_query_ok built_def)
next
  case False
  obtain w' where "run_state (expire_pending_loop m (map t_id (filter (pending_expired m (now w)) (tasks (db w))))) w = ((), w')"
    "swept (pending_expired m (now w)) (failed (now w) expired_summary) (db w) (db w')"
    using expire_row.sweep_selected [OF _ _ wf f, of "pending_expired m (now w)" "''PendingTimeout''"
      "''Task expired after '' @ dec_int m @ '' minutes in pending status''"]
    unfolding expire_pending_sweep failed_fun by (force simp: set_status_def pending_expired_def)
  with f m False show ?thesis
    by (auto simp: ExpirePendingTasks_def run_state_bind run_state_return run_query_ok built_def)
qed

lemma run_ExpireStale:
  assumes wf: "wf_db (db w)" and f: "faults w = []" and m: "0 < m"
  shows "\<exists>w'. run_state (ExpireStaleInProgressTasks m) w =
      (Inr (built (map t_id (filter (stale_in_progress m (now w)) (tasks (db w))))), w') \<and>
    swept (stale_in_progress m (now w)) (failed (now w) (stale_summary m)) (db w) (db w')"
proof (cases "filter (stale_in_progress m (now w)) (tasks (db w)) = []")
  case True
  with f m swept_none show ?thesis
    by (auto simp: ExpireStaleInProgressTasks_def run_state_bind run_state_return run_query_ok built_def)
next
  case False
  obtain w' where "run_state (expire_stale_loop m (map t_id (filter (stale_in_progress m (now w)) (tasks (db w))))) w = ((), w')"
    "swept (stale_in_progress m (now w)) (failed (now w) (stale_summary m)) (db w) (db w')"
    using stale_row.sweep_selected [OF _ _ wf f, of "stale_summary m" "stale_in_progress m (now w)" "''TaskHeartbeatTimeout''"
      "''Task expired after '' @ dec_int m @ '' minutes without heartbeat''"]
    unfolding expire_stale_sweep failed_fun by (force simp: set_status_def stale_in_progress_def)
  with f m False show ?thesis
    by (auto simp: ExpireStaleInProgressTasks_def run_state_bind run_state_return run_query_ok built_def)
qed

subsection \<open>Counts\<close>

lemma set_count_sel [simp]:
  "CPending (set_count c (s, n)) = (if s = st_pending then n else CPending c)"
  "CClaimed (set_count c (s, n)) = (if s = st_claimed then n else CClaimed c)"
  "CInProgress (set_count c (s, n)) = (if s = st_in_progress then n else CInProgress c)"
  "CBlocked (set_count c (s, n)) = (if s = st_blocked then n else CBlocked c)"
  "CCompleted (set_count c (s, n)) = (if s = st_completed then n else CCompleted c)"
  "CFailed (set_count c (s, n)) = (if s = st_failed then n else CFailed c)"
  by (auto simp: set_count_def)

lemma set_count_rows:
  "distinct (map fst rows) \<Longrightarrow>
    CPending (foldl set_count c rows) = (case map_of rows st_pending of None \<Rightarrow> CPending c | Some n \<Rightarrow> n) \<and>
    CClaimed (foldl set_count c rows) = (case map_of rows st_claimed of None \<Rightarrow> CClaimed c | Some n \<Rightarrow> n) \<and>
    CInProgress (foldl set_count c rows) = (case map_of rows st_in_progress of None \<Rightarrow> CInProgress c | Some n \<Rightarrow> n) \<and>
    CBlocked (foldl set_count c rows) = (case map_of rows st_blocked of None \<Rightarrow> CBlocked c | Some n \<Rightarrow> n) \<and>
    CCompleted (foldl set_count c rows) = (case map_of rows st_completed of None \<Rightarrow> CCompleted c | Some n \<Rightarrow> n) \<and>
    CFailed (foldl set_count c rows) = (case map_of rows st_failed of None \<Rightarrow> CFailed c | Some n \<Rightarrow> n)"
proof (induction rows arbitrary: c)
  case (Cons row rows)
  have "map_of rows (fst row) = None" using Cons.prems by (simp add: map_of_eq_None_iff)
  with Cons show ?case by (cases row) (auto cong: option.case_cong)
qed simp

lemma zero_counts_sel [simp]:
  "CPending zero_counts = 0" "CClaimed zero_counts = 0" "CInProgress zero_counts = 0"
  "CBlocked zero_counts = 0" "CCompleted zero_counts = 0" "CFailed zero_counts = 0"
  by (simp_all add: zero_counts_def)

lemma map_of_group_counts:
  "(case map_of (group_counts d) s of None \<Rightarrow> 0 | Some n \<Rightarrow> n) = int (count_where (\<lambda>r. t_status r = s) (tasks d))"
proof -
  have "count_where (\<lambda>r. t_status r = s) (tasks d) = 0" if "s \<notin> t_status ` set (tasks d)"
    using that by (auto simp: count_where_0)
  then show ?thesis
    by (auto simp: group_counts_def map_of_map_restrict restrict_map_def split: option.split)
qed

lemma count_statuses:
  "\<forall>r \<in> set rs. t_status r \<in> set task_statuses \<Longrightarrow>
    sum_list (map (\<lambda>s. count_where (\<lambda>r. t_status r = s) rs) task_statuses) = length rs"
  by (induction rs) (auto simp: task_statuses_def)

lemma run_GetTaskCounts:
  assumes "wf_db (db w)" and "faults w = []"
  shows "\<exists>c. run_state GetTaskCounts w = (Inr c, w) \<and>
    map (\<lambda>s. int (count_where (\<lambda>r. t_status r = s) (tasks (db w)))) task_statuses =
      [CPending c, CClaimed c, CInProgress c, CBlocked c, CCompleted c, CFailed c] \<and>
    CTotal c = int (length (tasks (db w)))"
proof -
  have "distinct (map fst (group_counts (db w)))" by (simp add: group_counts_def comp_def)
  note c = set_count_rows [OF this, of zero_counts, unfolded zero_counts_sel map_of_group_counts]
  have "sum_list (map (\<lambda>s. count_where (\<lambda>r. t_status r = s) (tasks (db w))) task_statuses) = length (tasks (db w))"
    using assms(1) by (intro count_statuses) (simp add: wf_db_def)
  from arg_cong [OF this, of int] c assms(2) show ?thesis
    by (simp add: GetTaskCounts_def run_state_bind run_state_return run_query_ok total_counts_def
      task_statuses_def add.assoc)
qed

subsection \<open>Creation\<close>

definition stamped :: "time \<Rightarrow> task \<Rightarrow> task" where
  "stamped n t = t\<lparr>Status := if Status t = [] then st_pending else Status t,
     CreatedAt := n, UpdatedAt := n, LastHeartbeat := None\<rparr>"

definition insertable :: "task \<Rightarrow> database \<Rightarrow> bool" where
  "insertable t d \<longleftrightarrow> ID t \<notin> task_ids d \<and> Status t \<in> insert [] (set task_statuses) \<and>
     int4 (Priority t) \<and> int4 (MaxRetries t) \<and> int4 (RetryCount t)"

lemma sql_insert_stamped:
  "sql_insert_task (if Status t = [] then t\<lparr>Status := st_pending\<rparr> else t) n d =
     (if insertable t d then (Some (), d\<lparr>tasks := tasks d @ [task_row_of (stamped n t) n]\<rparr>) else (None, d))"
  by (auto simp: sql_insert_task_def insertable_def stamped_def task_row_of_def)

lemma find_stamped:
  assumes "insertable t d"
  shows "find_task (ID t) (d\<lparr>tasks := tasks d @ [task_row_of (stamped n t) n]\<rparr>) = Some (task_row_of (stamped n t) n)"
  using assms find_task_None [of "ID t" d]
  by (simp add: insertable_def find_task_def find_append) (simp add: task_row_of_def stamped_def)

lemma scan_stamped: "scanTaskRow (task_row_of (stamped n t) n) = stamped n t"
  by (simp add: scanTaskRow_def scan_columns_def task_row_of_def Let_def stamped_def)

lemma run_Create:
  assumes "faults w = []"
  shows "\<exists>d. run_state (Create t) w = (if insertable t (db w) then (Inr (), w\<lparr>db := d\<rparr>) else (Inl (DbError ''insert task''), w)) \<and>
    (insertable t (db w) \<longrightarrow> find_task (ID t) d = Some (task_row_of (stamped (now w) t) (now w)))"
proof -
  let ?s = "if Status t = [] then t\<lparr>Status := st_pending\<rparr> else t"
  have c: "Create t = do {
     r \<leftarrow> exec (sql_insert_task ?s);
     case r of
       None \<Rightarrow> State_Monad.return (Inl (DbError ''insert task''))
     | Some _ \<Rightarrow> do {
         logTaskEvent (ID ?s) ''CreateTask'' (Assignee ?s) [];
         State_Monad.return (Inr ())
       }
    }" unfolding Create_def Let_def by (rule refl)
  show ?thesis unfolding c using assms
    by (cases "insertable t (db w)")
      (auto simp: run_state_bind run_state_return run_exec_ok run_log sql_insert_stamped find_stamped)
qed

end
