(* ===== verification/Demo.thy ===== *)
theory Demo
  imports Outcomes
begin

text \<open>
  A small concrete state at which the properties are exercised: four tasks (\<open>t1\<close> completed,
  \<open>t2\<close> pending with the parent \<open>t1\<close> and the skill \<open>go\<close>, \<open>t3\<close> in progress with one retry,
  \<open>t4\<close> blocked), two gates and two agents, with primitives simple enough to compute.
\<close>

definition demo_env :: extern where
  "demo_env = \<lparr>getenv = (\<lambda>k. if k = ''ACB_WEBHOOK_SECRET_KEY'' then b64_encode (replicate 32 (CHR ''k'')) else []),
     argon2_idkey = (\<lambda>t s. take 32 (t @ replicate 32 (CHR ''.''))), sha256 = (\<lambda>t. take 32 (t @ replicate 32 (CHR ''.''))),
     gcm_seal = (\<lambda>k n p. p), gcm_open = (\<lambda>k n c. Some c), hmac_hex = (\<lambda>k m. k),
     ip_literal = (\<lambda>h. None),
     lookup_ip = (\<lambda>n h. Some [Some [8, 8, 8, 8]]), json_time = (\<lambda>n. ''now'')\<rparr>"

definition demo_row :: "string \<Rightarrow> string \<Rightarrow> string \<Rightarrow> task_row" where
  "demo_row i st ag = task_row_of (zero_task\<lparr>ID := i, Title := ''a task'', Status := st, Assignee := ag,
     Priority := 3, Parents := Some [], RequiredSkills := Some []\<rparr>) 100"

definition demo_t2 :: task_row where
  "demo_t2 = task_row_of (zero_task\<lparr>ID := ''t2'', Title := ''next'', Status := st_pending, Priority := 1,
     Parents := Some [''t1''], RequiredSkills := Some [''go'']\<rparr>) 100"

definition demo_t3 :: task_row where
  "demo_t3 = (demo_row ''t3'' st_in_progress ''bob'')\<lparr>t_max_retries := 1\<rparr>"

definition demo_gate :: "string \<Rightarrow> string \<Rightarrow> string \<Rightarrow> gate_row" where
  "demo_gate g i st = \<lparr>g_id = g, g_task = i, g_question = ''ok?'', g_ask = [], g_status = st,
     g_answer = [], g_created_at = 100, g_answered_at = None\<rparr>"

definition demo_agent :: "string \<Rightarrow> string slice \<Rightarrow> agent_row" where
  "demo_agent name sk = \<lparr>a_name = name, a_port = 0, a_token = [], a_token_prefix = [],
     a_last_heartbeat = Some 100, a_skills = marshal_strings sk, a_webhook_url = ''https://hook.example/acb'',
     a_webhook_secret = [], a_last_event_id = Some 0\<rparr>"

definition demo_db :: database where
  "demo_db = \<lparr>tasks = [demo_row ''t1'' st_completed ''bob'', demo_t2, demo_t3,
       demo_row ''t4'' st_blocked ''bob''],
     gates = [demo_gate ''g1'' ''t4'' st_pending, demo_gate ''g2'' ''t4'' st_answered],
     agents = [demo_agent ''ann'' (Some [''go'', ''python'']), demo_agent ''bob'' (Some [])],
     events = [\<lparr>e_id = 1, e_task = ''t1'', e_event = ''CreateTask'', e_agent = [], e_timestamp = 100, e_detail = []\<rparr>],
     next_event = 2\<rparr>"

definition demo_world :: world where
  "demo_world = empty_world\<lparr>db := demo_db, now := 1000\<rparr>"

definition demo_store :: "unit object_store" where
  "demo_store = \<lparr>os_upload = (\<lambda>k d c s. (Inr (), s)), os_download = (\<lambda>k s. Inl NotFound),
     os_delete = (\<lambda>k s. (Inr (), s)), os_exists = (\<lambda>k s. Inr True), os_bucket_exists = (\<lambda>s. Inr True),
     os_make_bucket = (\<lambda>s. (Inr (), s)), os_list = (\<lambda>p s. Inr [])\<rparr>"

definition demo :: "unit program" where
  "demo = \<lparr>Ext = demo_env, Hnd = \<lparr>HasDispatcher = True, Cfg = None\<rparr>,
     Timeouts = \<lparr>pendingTimeoutMin = 15, taskTimeoutMin = 30, agentStaleMin = 10, hasAgentRepo = True,
       checkInterval = 60\<rparr>,
     Store = \<lparr>RStore = Some demo_store, RBucket = ''b'', REnabled = True\<rparr>, Rdb = True, AdminToken = ''adm''\<rparr>"

lemma demo_world_sel [simp]:
  "db demo_world = demo_db" "faults demo_world = []" "now demo_world = 1000" "jobs demo_world = []"
  by (simp_all add: demo_world_def empty_world_def)

lemma demo_cipher [simp]: "getCipher demo_env = Inr (replicate 32 (CHR ''k''))"
proof -
  have "getenv demo_env ''ACB_WEBHOOK_SECRET_KEY'' = b64_encode (replicate 32 (CHR ''k''))" by (simp add: demo_env_def)
  moreover have "b64_encode s = [] \<longleftrightarrow> s = []" for s by (cases s rule: b64_encode.cases) simp_all
  ultimately show ?thesis by (simp add: getCipher_def initCipher_def Let_def)
qed

lemma demo_crypto [simp]:
  "length (argon2_idkey demo_env t s) = 32" "gcm_open demo_env k n (gcm_seal demo_env k n p) = Some p"
  by (simp_all add: demo_env_def min_def)

lemma demo_row_sel [simp]:
  "t_id (demo_row i st ag) = i" "t_status (demo_row i st ag) = st" "t_assignee (demo_row i st ag) = ag"
  "t_max_retries (demo_row i st ag) = 0" "t_retry_count (demo_row i st ag) = 0"
  "t_created_at (demo_row i st ag) = 100" "t_last_heartbeat (demo_row i st ag) = None"
  "t_parents (demo_row i st ag) = marshal_strings (Some [])"
  "t_required_skills (demo_row i st ag) = marshal_strings (Some [])"
  by (simp_all add: demo_row_def task_row_of_def zero_task_def)

lemma demo_t2_sel [simp]:
  "t_id demo_t2 = ''t2''" "t_status demo_t2 = st_pending" "t_assignee demo_t2 = []"
  "t_parents demo_t2 = marshal_strings (Some [''t1''])"
  "t_required_skills demo_t2 = marshal_strings (Some [''go''])" "t_priority demo_t2 = 1"
  "t_created_at demo_t2 = 100"
  by (simp_all add: demo_t2_def task_row_of_def zero_task_def)

lemma demo_t3_sel [simp]:
  "t_id demo_t3 = ''t3''" "t_status demo_t3 = st_in_progress" "t_assignee demo_t3 = ''bob''"
  "t_max_retries demo_t3 = 1" "t_retry_count demo_t3 = 0" "t_created_at demo_t3 = 100"
  "t_last_heartbeat demo_t3 = None"
  by (simp_all add: demo_t3_def)

lemma demo_gate_sel [simp]:
  "g_id (demo_gate g i st) = g" "g_task (demo_gate g i st) = i" "g_status (demo_gate g i st) = st"
  by (simp_all add: demo_gate_def)

lemma demo_agent_sel [simp]:
  "a_name (demo_agent n sk) = n" "a_skills (demo_agent n sk) = marshal_strings sk"
  "a_last_heartbeat (demo_agent n sk) = Some 100"
  by (simp_all add: demo_agent_def)

lemma demo_db_sel [simp]:
  "tasks demo_db = [demo_row ''t1'' st_completed ''bob'', demo_t2, demo_t3, demo_row ''t4'' st_blocked ''bob'']"
  "gates demo_db = [demo_gate ''g1'' ''t4'' st_pending, demo_gate ''g2'' ''t4'' st_answered]"
  "agents demo_db = [demo_agent ''ann'' (Some [''go'', ''python'']), demo_agent ''bob'' (Some [])]"
  by (simp_all add: demo_db_def)

lemma demo_find [simp]:
  "find_task ''t1'' demo_db = Some (demo_row ''t1'' st_completed ''bob'')"
  "find_task ''t2'' demo_db = Some demo_t2" "find_task ''t3'' demo_db = Some demo_t3"
  "find_task ''t4'' demo_db = Some (demo_row ''t4'' st_blocked ''bob'')"
  "find_gate ''g1'' demo_db = Some (demo_gate ''g1'' ''t4'' st_pending)"
  "find_gate ''g2'' demo_db = Some (demo_gate ''g2'' ''t4'' st_answered)"
  "find_agent ''ann'' demo_db = Some (demo_agent ''ann'' (Some [''go'', ''python'']))"
  "find_agent ''bob'' demo_db = Some (demo_agent ''bob'' (Some []))"
  by (simp_all add: find_task_def find_gate_def find_agent_def)

lemma wf_demo [simp]: "wf_db demo_db"
  by (simp add: wf_db_def task_ids_def) (simp add: demo_db_def)

definition demo_step :: "op \<Rightarrow> world \<Rightarrow> world" where
  "demo_step p w = fst (step_op demo p (w, ()))"

lemma demo_run: "\<not> is_unblock p \<Longrightarrow> runs demo u (w, ()) (demo_step p w, ())"
  using runs_step [OF runs_refl, of p u demo "(w, ())"]
  by (cases "step_op demo p (w, ())") (simp add: demo_step_def)

lemma demo_run_unblock: "runs demo True (w, ()) (demo_step p w, ())"
  using runs_step [OF runs_refl, of p True demo "(w, ())"]
  by (cases "step_op demo p (w, ())") (simp add: demo_step_def)

definition demo_input :: create_input where
  "demo_input = \<lparr>InID = ''n1'', InTitle = ''new'', InAssignee = ''bob'', InPriority = 3, InParents = None,
     InSkills = None, InRequiredSkills = None, InTags = None, InBodyGoal = [], InBodyContext = [],
     InBodyDeliverableFmt = [], InBodyDeliverablePath = [], InMaxRetries = 2\<rparr>"

definition demo_create :: op where
  "demo_create = OpCreate ''u1'' (Some demo_input)"

lemma demo_create_run: "runs demo u (empty_world, ()) (demo_step demo_create empty_world, ())"
  by (rule demo_run) (simp add: demo_create_def)

lemma demo_url: "parse_url x ''https://hook.example/acb'' = Some (''https'', ''hook.example'')"
proof -
  have "list_all plain_url_char ''hook.example''" "list_all (\<lambda>c. plain_url_char c \<or> c = CHR ''/'') ''/acb''"
    by (simp_all add: plain_url_char_def is_letter_def in_range_def)
  from parse_url_plain [OF this, of x] show ?thesis by simp
qed

lemma demo_valid: "fst (run_state (ValidateWebhookURL demo_env ''https://hook.example/acb'') demo_world) = Inr ()"
proof -
  have "lookup_ip demo_env n h = Some [Some [8, 8, 8, 8]]" for n h by (simp add: demo_env_def)
  moreover have "pin_ttls demo_world h = None" for h by (simp add: demo_world_def empty_world_def)
  moreover have "\<not> isPrivateIP (Some [8, 8, 8, 8])" by (simp add: isPrivateIP_bytes4)
  ultimately show ?thesis
    by (simp add: ValidateWebhookURL_def demo_url ascii_lower_def resolve_pinned_def exec_simps)
qed

end
