(* ===== verification/ThreadProperties.thy ===== *)
theory ThreadProperties
  imports Schedules Stability Demo
begin

text \<open>
  What holds whatever the order of the statements of concurrent calls, and what does not.
\<close>

text \<open>C7. However the statements of any number of concurrent repository calls interleave, with connections
  failing and clocks read at any point, the database stays well-formed, gates only move forward, the
  event log only grows, no task disappears or loses what identifies it, and the JSON columns still
  decode.\<close>

theorem interleavings_keep:
  assumes "interleave E (\<lambda>j. thread (calls j)) d ts d'" and "\<And>d d'. E d d' \<Longrightarrow> stmt_write d d'"
    and "\<And>j. proper (calls j)" and "wf_db d"
  shows "wf_db d' \<and> gates_forward d d' \<and> log_grows d d' \<and>
    (find_task i d = Some r \<longrightarrow> (\<exists>r'. find_task i d' = Some r' \<and> same_task r r')) \<and>
    ((\<forall>r \<in> set (tasks d). canonical r) \<longrightarrow> (\<forall>r \<in> set (tasks d'). canonical r))"
proof -
  have e: "emits stmt_write (thread (calls j))" for j using assms(3) by (rule thread_emits)
  have wf: "wf_db d'"
    using interleave_emits [OF assms(1), of stmt_write] assms(2,4) stmt_write_wf e by blast
  moreover have "identity.kept d d'" "columns.all_rows d \<longrightarrow> columns.all_rows d'"
    using identity_any_order.interleaved [OF assms(1,2) e assms(4)]
      columns_any_order.interleaved [OF assms(1,2) e assms(4)] by auto
  moreover have "columns.all_rows x \<longleftrightarrow> (\<forall>r \<in> set (tasks x). canonical r)" if "wf_db x" for x
    using that find_task_mem find_task_Some by (fastforce simp: columns.all_rows_def)
  ultimately show ?thesis
    using gates_any_order.interleaved [OF assms(1,2) e assms(4)] log_any_order.interleaved [OF assms(1,2) e assms(4)]
      assms(4) by (auto simp: identity.kept_def)
qed

definition demo_calls :: "nat \<Rightarrow> call" where
  "demo_calls j = [CallFail ''t3'' ''oom'', CallComplete ''t3'' ''done'', CallClaim ''t2'' ''ann'',
     CallAnswerGate ''g1'' ''yes''] ! (j mod 4)"

lemma demo_calls_proper: "proper (demo_calls j)"
proof -
  have "j mod 4 \<in> {0, 1, 2, 3}" by auto
  then show ?thesis by (auto simp: demo_calls_def)
qed

theorem interleavings_keep_witness:
  "wf_db (snd (schedule 1000 [0, 1, 2, 0, 2, 1, 3, 0, 0] (\<lambda>j. thread (demo_calls j)) demo_db))"
proof -
  have "interleave (=) (\<lambda>j. thread (demo_calls j)) demo_db
      (fst (schedule 1000 [0, 1, 2, 0, 2, 1, 3, 0, 0] (\<lambda>j. thread (demo_calls j)) demo_db))
      (snd (schedule 1000 [0, 1, 2, 0, 2, 1, 3, 0, 0] (\<lambda>j. thread (demo_calls j)) demo_db))"
    by (rule schedule_interleaves)
  from interleavings_keep [OF this _ demo_calls_proper wf_demo] show ?thesis
    by (simp add: stmt_write.idle)
qed

subsection \<open>One task among many calls\<close>

text \<open>C2. Calls that begin when a task is finished cannot undo it: if the task is completed, blocked, or failed
  with no retries left, it keeps its status, summary, assignee and retry count however the statements of
  any number of calls interleave, with failing connections and with writes to other rows in between;
  only an unblock of this very task is not among the calls. Calls that began before are another matter:
  a release that has read the task as running takes it back (\<open>late_release_reopens\<close>).\<close>

theorem finished_stays:
  assumes "interleave E (\<lambda>j. thread (calls j)) d ts d'" and "\<And>d d'. E d d' \<Longrightarrow> leaves_task i d d'"
    and "\<And>j. proper (calls j)" and "\<And>j. calls j \<noteq> CallUnblock i"
    and "wf_db d" and "find_task i d = Some r" and "finished r"
  shows "\<exists>r'. find_task i d' = Some r' \<and> t_status r' = t_status r \<and> t_summary r' = t_summary r \<and>
    t_assignee r' = t_assignee r \<and> t_retry_count r' = t_retry_count r"
proof -
  have "frozen i r d" using assms(5-7) by (auto simp: frozen_def ending.row_refl)
  from frozen.interleaved [OF assms(1) settles_leaves [OF assms(2)] frozen_thread [OF assms(3,4)] this]
  show ?thesis by (auto simp: frozen_def stays_finished_def)
qed

definition late_calls :: "nat \<Rightarrow> call" where
  "late_calls j = [CallFail ''t1'' ''oom'', CallRelease ''bob'', CallClaim ''t1'' ''ann'',
     CallComplete ''t1'' ''again''] ! (j mod 4)"

lemma late_calls_proper: "proper (late_calls j) \<and> late_calls j \<noteq> CallUnblock i"
proof -
  have "j mod 4 \<in> {0, 1, 2, 3}" by auto
  then show ?thesis by (auto simp: late_calls_def)
qed

theorem finished_stays_witness:
  "\<exists>r'. find_task ''t1'' (snd (schedule 1000 [1, 0, 2, 1, 3, 0, 1] (\<lambda>j. thread (late_calls j)) demo_db)) = Some r' \<and>
     t_status r' = st_completed"
proof -
  have "interleave (=) (\<lambda>j. thread (late_calls j)) demo_db
      (fst (schedule 1000 [1, 0, 2, 1, 3, 0, 1] (\<lambda>j. thread (late_calls j)) demo_db))
      (snd (schedule 1000 [1, 0, 2, 1, 3, 0, 1] (\<lambda>j. thread (late_calls j)) demo_db))"
    by (rule schedule_interleaves)
  from finished_stays [OF this, of "''t1''" "demo_row ''t1'' st_completed ''bob''"] late_calls_proper wf_demo
  show ?thesis by (auto simp: leaves_task_def finished_def)
qed

text \<open>C4. The retry counter of a task stays between zero and its maximum (zero when that is negative) however
  the statements of any number of calls interleave, failures of this task among them, with failing
  connections and with writes to other rows in between, as long as none of the calls releases the
  tasks of a stale agent or unblocks this task. With a release the counter can pass its maximum
  (\<open>retries_exceed\<close>).\<close>

theorem retries_bounded:
  assumes "interleave E (\<lambda>j. thread (calls j)) d ts d'" and "\<And>d d'. E d d' \<Longrightarrow> leaves_task i d d'"
    and "\<And>j. proper (calls j)" and "\<And>j. calls j \<noteq> CallUnblock i" and "\<And>j ag. calls j \<noteq> CallRelease ag"
    and "wf_db d" and "case find_task i d of None \<Rightarrow> True | Some r \<Rightarrow> retry_bound r"
  shows "case find_task i d' of None \<Rightarrow> True
    | Some r \<Rightarrow> 0 \<le> t_retry_count r \<and> t_retry_count r \<le> max 0 (t_max_retries r)"
proof -
  have "bounded i d" using assms(6,7) by (auto simp: bounded_def)
  from bounded.interleaved [OF assms(1) settles_leaves [OF assms(2)] bounded_thread [OF assms(3-5)] this]
  show ?thesis by (auto simp: bounded_def retry_bound_def split: option.split)
qed

definition failing_calls :: "nat \<Rightarrow> call" where
  "failing_calls j = [CallFail ''t3'' ''oom'', CallFail ''t3'' ''again'', CallClaim ''t3'' ''ann'', CallStart ''t3''] ! (j mod 4)"

lemma failing_calls_proper:
  "proper (failing_calls j) \<and> failing_calls j \<noteq> CallUnblock i \<and> failing_calls j \<noteq> CallRelease ag"
proof -
  have "j mod 4 \<in> {0, 1, 2, 3}" by auto
  then show ?thesis by (auto simp: failing_calls_def)
qed

theorem retries_bounded_witness:
  "case find_task ''t3'' (snd (schedule 1000 [0, 0, 0, 0, 2, 3, 1, 1, 1, 1] (\<lambda>j. thread (failing_calls j)) demo_db)) of
     None \<Rightarrow> True | Some r \<Rightarrow> 0 \<le> t_retry_count r \<and> t_retry_count r \<le> max 0 (t_max_retries r)"
proof -
  have "interleave (=) (\<lambda>j. thread (failing_calls j)) demo_db
      (fst (schedule 1000 [0, 0, 0, 0, 2, 3, 1, 1, 1, 1] (\<lambda>j. thread (failing_calls j)) demo_db))
      (snd (schedule 1000 [0, 0, 0, 0, 2, 3, 1, 1, 1, 1] (\<lambda>j. thread (failing_calls j)) demo_db))"
    by (rule schedule_interleaves)
  from retries_bounded [OF this, of "''t3''"] failing_calls_proper wf_demo show ?thesis
    by (simp add: leaves_task_def retry_bound_def)
qed

text \<open>C9. However any number of claims of one task interleave, at most one of them is granted, whatever
  happens in between, as long as nothing puts the task back to pending.\<close>

theorem concurrent_claims:
  assumes "interleave E (\<lambda>j. claim_prog i (ags j)) d ts d'" and "\<And>d d'. E d d' \<Longrightarrow> calm pending_task i d d'"
    and "wf_db d" and "ts j = Ret (Inr x)" and "ts l = Ret (Inr y)"
  shows "j = l"
proof -
  have "pending_task = (\<lambda>r. t_status r = st_pending)" by (simp add: pending_task_def fun_eq_iff)
  with claims.one_success [OF assms(1)] claim_contender assms show ?thesis by metis
qed

definition demo_claimers :: "nat \<Rightarrow> string" where
  "demo_claimers j = (if j = 0 then ''ann'' else ''bob'')"

text \<open>A fair race: both claims run to the end, and only the first one that got its statement in is granted.\<close>

theorem concurrent_claims_witness:
  "\<exists>ts d' x. interleave (=) (\<lambda>j. claim_prog ''t2'' (demo_claimers j)) demo_db ts d' \<and>
     ts 1 = Ret (Inr x) \<and> (\<forall>y. ts 0 \<noteq> Ret (Inr y))"
proof -
  let ?r = "schedule 1000 [1, 0, 1, 0, 1] (\<lambda>j. claim_prog ''t2'' (demo_claimers j)) demo_db"
  have i: "interleave (=) (\<lambda>j. claim_prog ''t2'' (demo_claimers j)) demo_db (fst ?r) (snd ?r)"
    by (rule schedule_interleaves)
  have "case fst ?r 1 of Ret z \<Rightarrow> (case z of Inl e \<Rightarrow> False | Inr x \<Rightarrow> True) | _ \<Rightarrow> False" by code_simp
  then obtain x where x: "fst ?r 1 = Ret (Inr x)" by (auto split: prog.splits sum.splits)
  moreover have "fst ?r 0 \<noteq> Ret (Inr y)" for y
    using concurrent_claims [OF i _ wf_demo, of 0 y 1 x] x by (auto simp: calm_def)
  ultimately show ?thesis using i by blast
qed

text \<open>C10. Of any number of claims of a pending task whose statements take turns in any order, the one whose
  first statement comes first gets the task and the row keeps its name; two turns later every thread has
  its answer, the task for the winner and a conflict for all others.\<close>

theorem first_statement_wins:
  assumes "schedule n (j # js) (\<lambda>l. claim_prog i (ags l)) d = (ts, d')"
    and "wf_db d" and "find_task i d = Some r" and "t_status r = st_pending"
  shows "find_task i d' = Some (claimed_row n (ags j) r) \<and>
    (\<forall>l. 2 \<le> count_list js l \<longrightarrow> ts l = Ret (if l = j then Inr (Some (scanTaskRow (claimed_row n (ags j) r)))
       else Inl (ConflictError st_claimed ''task is not in pending status'')))"
proof -
  from claims_settle [OF assms(2-4), of n j js ags] assms(1)
  have "ts = race_stage i ags (claimed_row n (ags j) r) j (count_list js)" "settled i (claimed_row n (ags j) r) d'"
    by auto
  then show ?thesis by (simp add: race_stage_done settled_def claim_refusal_def)
qed

theorem first_statement_wins_witness:
  "let ts = fst (schedule 1000 [1, 0, 1, 0, 1] (\<lambda>l. claim_prog ''t2'' (demo_claimers l)) demo_db)
   in ts 0 = Ret (Inl (ConflictError st_claimed ''task is not in pending status'')) \<and> (\<exists>t. ts 1 = Ret (Inr (Some t)))"
proof -
  let ?s = "schedule 1000 [1, 0, 1, 0, 1] (\<lambda>l. claim_prog ''t2'' (demo_claimers l)) demo_db"
  have "case find_task ''t2'' demo_db of None \<Rightarrow> False | Some r \<Rightarrow> t_status r = st_pending" by code_simp
  then obtain r where "find_task ''t2'' demo_db = Some r" "t_status r = st_pending" by (auto split: option.splits)
  from first_statement_wins [OF _ wf_demo this, of 1000 1 "[0, 1, 0, 1]" demo_claimers "fst ?s" "snd ?s"]
  show ?thesis by (simp add: Let_def del: schedule.simps)
qed

text \<open>C11. However any number of completions and failures of one task interleave, at most one of them is
  granted, whatever happens in between, as long as nothing puts the task back to work.\<close>

theorem concurrent_endings:
  assumes "interleave E ends d ts d'" and "\<And>d d'. E d d' \<Longrightarrow> calm running_task i d d'"
    and "\<And>j. ends j \<in> range (\<lambda>s. granted (complete_prog i s)) \<union> range (\<lambda>s. granted (fail_prog i s))"
    and "wf_db d" and "ts j = Ret (Inr ())" and "ts l = Ret (Inr ())"
  shows "j = l"
proof -
  have "running_task = (\<lambda>r. t_status r = st_in_progress)" by (simp add: running_task_def fun_eq_iff)
  moreover have "contender (end_contest i) running_task i (ends j)" for j
    using assms(3) [of j]
    by (elim UnE rangeE) (simp_all add: contender_granted complete_contender fail_contender)
  ultimately show ?thesis using endings.one_success [OF assms(1)] assms by metis
qed

definition demo_endings :: "nat \<Rightarrow> (repo_error + unit) prog" where
  "demo_endings j = (if j = 0 then granted (complete_prog ''t3'' ''done'') else granted (fail_prog ''t3'' ''oom''))"

theorem concurrent_endings_witness:
  "\<exists>ts d'. interleave (=) demo_endings demo_db ts d' \<and> ts 0 = Ret (Inr ()) \<and> ts 1 \<noteq> Ret (Inr ())"
proof -
  let ?r = "schedule 1000 [0, 1, 0, 1, 0, 0] demo_endings demo_db"
  have i: "interleave (=) demo_endings demo_db (fst ?r) (snd ?r)" by (rule schedule_interleaves)
  have "case fst ?r 0 of Ret z \<Rightarrow> (case z of Inl e \<Rightarrow> False | Inr x \<Rightarrow> True) | _ \<Rightarrow> False" by code_simp
  then have x: "fst ?r 0 = Ret (Inr ())" by (auto split: prog.splits sum.splits)
  have e: "demo_endings j \<in> range (\<lambda>s. granted (complete_prog ''t3'' s)) \<union> range (\<lambda>s. granted (fail_prog ''t3'' s))"
    for j by (simp add: demo_endings_def)
  have c: "d = d' \<Longrightarrow> calm running_task ''t3'' d d'" for d d' by (simp add: calm_def)
  have "fst ?r 1 \<noteq> Ret (Inr ())" using concurrent_endings [OF i c e wf_demo x, of 1] by auto
  with x show ?thesis using i by blast
qed

text \<open>
  Two artifacts added at the same time: both calls succeed, and the one written first is lost, since
  each writes back the list it has read.
\<close>

lemma lost_artifact:
  assumes "find_task i d = Some r" and "decode_list (t_artifacts_json r) = Some l"
  shows "\<exists>ts d'. interleave (=) (\<lambda>j. if j = 0 then add_prog i a else add_prog i b) d ts d' \<and>
    ts 0 = Ret (Inr ()) \<and> ts 1 = Ret (Inr ()) \<and>
    find_task i d' = Some (r\<lparr>t_artifacts_json := marshal_artifacts (append_slice l b)\<rparr>)"
proof -
  let ?r = "schedule 0 [0, 1, 0, 1] (\<lambda>j. if j = 0 then add_prog i a else add_prog i b) d"
  have "t_id r = i" using find_task_Some [OF assms(1)] by simp
  with assms have "fst ?r 0 = Ret (Inr ()) \<and> fst ?r 1 = Ret (Inr ()) \<and>
      find_task i (snd ?r) = Some (r\<lparr>t_artifacts_json := marshal_artifacts (append_slice l b)\<rparr>)"
    by (simp add: add_prog_def artifacts_prog_def row_def upd_def sql_set_artifacts_def find_task_update)
  then show ?thesis using schedule_interleaves by blast
qed

text \<open>The retry of a failure does not look at the status: with a late release of a stale agent in between
  two failures of one task are both retried, and its counter passes its maximum.\<close>

definition retry_race :: "nat \<Rightarrow> call" where
  "retry_race j = [CallFail ''t3'' ''oom'', CallRelease ''bob'', CallClaim ''t3'' ''ann'', CallStart ''t3'',
     CallFail ''t3'' ''oom''] ! (j mod 5)"

lemma retries_exceed:
  "map_option (\<lambda>r. (t_max_retries r, t_retry_count r)) (find_task ''t3'' (snd (schedule 1000
     [1, 0, 0, 0, 1, 2, 3, 4, 4, 4, 0, 4] (\<lambda>j. thread (retry_race j)) demo_db))) = Some (1, 2)"
  by code_simp

end
