(* ===== verification/RunProperties.thy ===== *)
theory RunProperties
  imports Demo Races
begin

text \<open>What holds of every run of the program, from the interpretations of the lifecycle locales.\<close>

interpretation life: row_relation u "(row_step u)\<^sup>*\<^sup>*" for u
  by unfold_locales auto

lemma empty_start: "wf_db (db empty_world)" "tasks (db empty_world) = []"
  using wf_empty_db by (simp_all add: empty_world_def empty_db_def)

text \<open>C1. Every run of the program refines the lifecycle of a task: a task row that exists before
  the run exists after it, and got from its old to its new contents by the steps of the task state
  machine only (claim, start, block, complete, fail, retry, release, heartbeat, artifacts, and the
  unguarded unblock when the run contains one), whatever requests, goroutines, timeouts and faults
  the run consists of.\<close>

theorem run_refines_lifecycle:
  "runs y u (w, s) (w', s') \<Longrightarrow> wf_db (db w) \<Longrightarrow> find_task i (db w) = Some r \<Longrightarrow>
     \<exists>r'. find_task i (db w') = Some r' \<and> (row_step u)\<^sup>*\<^sup>* r r'"
  using life.along_run [of y u "(w, s)" "(w', s')" i r] by simp

theorem run_refines_lifecycle_witness:
  "\<exists>r'. find_task ''t3'' (db (demo_step (OpFail ''t3'' (Some ''oom'')) demo_world)) = Some r'
     \<and> (row_step False)\<^sup>*\<^sup>* demo_t3 r'"
  by (rule run_refines_lifecycle [OF demo_run]) simp_all

text \<open>C3. The database of every reachable state is well-formed: identifiers are unique, every status
  is one the CHECK constraints allow, gates and events belong to tasks that exist, and the event
  ids ascend and stay below the next one.\<close>

theorem reachable_wf: "runs y u (empty_world, s) (w, s') \<Longrightarrow> wf_db (db w)"
  using runs_writes [of y u "(empty_world, s)" "(w, s')"] db_writes_wf by (fastforce simp: empty_start)

theorem reachable_wf_witness:
  "wf_db (db (demo_step demo_create empty_world))"
  by (rule reachable_wf [OF demo_create_run])

text \<open>In a run, whose operations go one after the other, finished work stays finished until it is
  unblocked: a task that is completed, blocked, or failed with no retries left keeps its status,
  summary, assignee and retry count. What holds of it when statements interleave is
  \<open>finished_stays\<close> of \<open>ThreadProperties\<close>.\<close>

theorem finished_stays_in_runs:
  "runs y False (w, s) (w', s') \<Longrightarrow> wf_db (db w) \<Longrightarrow> find_task i (db w) = Some r \<Longrightarrow> finished r \<Longrightarrow>
     \<exists>r'. find_task i (db w') = Some r' \<and> t_status r' = t_status r \<and> t_summary r' = t_summary r \<and>
       t_assignee r' = t_assignee r \<and> t_retry_count r' = t_retry_count r"
  using ending.along_run [of y "(w, s)" "(w', s')" i r] by (auto simp: stays_finished_def)

theorem finished_stays_in_runs_witness:
  "\<exists>r'. find_task ''t1'' (db (demo_step OpTimeouts demo_world)) = Some r' \<and>
     t_status r' = st_completed"
  using finished_stays_in_runs [OF demo_run, of OpTimeouts demo_world "''t1''"] by (auto simp: finished_def)

text \<open>In every state that a run reaches, operation after operation, the retry counter of a task is
  between zero and its maximal number of retries (zero when that is negative). For statements that
  interleave see \<open>retries_bounded\<close> and \<open>retries_exceed\<close> of \<open>ThreadProperties\<close>.\<close>

theorem retries_bounded_in_runs:
  "runs y u (empty_world, s) (w, s') \<Longrightarrow>
     list_all (\<lambda>r. 0 \<le> t_retry_count r \<and> t_retry_count r \<le> max 0 (t_max_retries r)) (tasks (db w))"
  using retries.along_run [of y u "(empty_world, s)" "(w, s')"]
  by (simp add: retry_bound_def list_all_iff empty_start)

theorem retries_bounded_in_runs_witness:
  "list_all (\<lambda>r. 0 \<le> t_retry_count r \<and> t_retry_count r \<le> max 0 (t_max_retries r))
     (tasks (db (demo_step demo_create empty_world)))"
  by (rule retries_bounded_in_runs [OF demo_create_run])

text \<open>C5. Without an unblock request every claimed, running or blocked task has an assignee: a run that
  starts where this holds keeps it for all tasks.\<close>

theorem active_tasks_owned:
  "runs y False (w, s) (w', s') \<Longrightarrow> wf_db (db w) \<Longrightarrow> list_all owned (tasks (db w)) \<Longrightarrow>
     list_all owned (tasks (db w'))"
  using owners.along_run [of y "(w, s)" "(w', s')"] by (simp add: list_all_iff)

theorem active_tasks_owned_witness:
  "list_all owned (tasks (db (demo_step (OpClaim ''t2'' (Some ''ann'')) demo_world)))"
  by (rule active_tasks_owned [OF demo_run]) (simp_all add: owned_def)

text \<open>C6. In every reachable state the JSON columns of the tasks decode without an error, so no reader
  ever shows an empty list for a list it could not decode.\<close>

theorem columns_decode:
  "runs y u (empty_world, s) (w, s') \<Longrightarrow>
     list_all (\<lambda>r. unmarshal_strings (t_parents r) \<noteq> None \<and> unmarshal_strings (t_skills r) \<noteq> None \<and>
       unmarshal_strings (t_required_skills r) \<noteq> None \<and> unmarshal_strings (t_tags r) \<noteq> None \<and>
       decode_list (t_artifacts_json r) \<noteq> None) (tasks (db w))"
  using columns.along_run [of y u "(empty_world, s)" "(w, s')"]
  by (fastforce simp: canonical_def list_all_iff empty_start decode_list_def)

theorem columns_decode_witness:
  "list_all (\<lambda>r. unmarshal_strings (t_parents r) \<noteq> None \<and> unmarshal_strings (t_skills r) \<noteq> None \<and>
       unmarshal_strings (t_required_skills r) \<noteq> None \<and> unmarshal_strings (t_tags r) \<noteq> None \<and>
       decode_list (t_artifacts_json r) \<noteq> None) (tasks (db (demo_step demo_create empty_world)))"
  by (rule columns_decode [OF demo_create_run])

text \<open>What identifies a task never changes: its title, priority, parents, skills, tags, body,
  creation time and maximal retries are the same after every run, and its retry counter has not
  gone down.\<close>

theorem task_identity:
  "runs y u (w, s) (w', s') \<Longrightarrow> wf_db (db w) \<Longrightarrow> find_task i (db w) = Some r \<Longrightarrow>
     \<exists>r'. find_task i (db w') = Some r' \<and> same_task r r'"
  using identity.along_run [of y u "(w, s)" "(w', s')" i r] by simp

theorem task_identity_witness:
  "\<exists>r'. find_task ''t2'' (db (demo_step (OpClaim ''t2'' (Some ''ann'')) demo_world)) = Some r'
     \<and> same_task demo_t2 r'"
  by (rule task_identity [OF demo_run]) simp_all

text \<open>A gate only moves forward, from pending to asked to answered to resolved: after every run it
  still exists, belongs to the same task with the same question, its status has not gone back, and
  once answered its answer is final.\<close>

theorem gates_move_forward:
  assumes "runs y u (w, s) (w', s')" and "wf_db (db w)" and "find_gate j (db w) = Some g"
  shows "\<exists>g'. find_gate j (db w') = Some g' \<and> gate_forward g g'"
  using forward.writes [OF runs_writes [OF assms(1)]] assms(2,3) by (simp add: gates_forward_def)

theorem gates_move_forward_witness:
  "\<exists>g'. find_gate ''g2'' (db (demo_step (OpUnblock ''t4'' (Some ''g2'')) demo_world)) = Some g'
     \<and> gate_forward (demo_gate ''g2'' ''t4'' st_answered) g'"
  by (rule gates_move_forward [OF demo_run_unblock]) simp_all

text \<open>C8. The event log is append-only and its ids ascend: after every run the log is the old log
  followed by events whose ids are not below the old next id, and ids are strictly ascending.\<close>

theorem log_append_only:
  assumes "runs y u (w, s) (w', s')" and "wf_db (db w)"
  shows "\<exists>es. events (db w') = events (db w) @ es \<and> (\<forall>e \<in> set es. next_event (db w) \<le> e_id e) \<and>
     sorted_wrt (<) (map e_id (events (db w')))"
proof -
  have "wf_db (db w')" using db_writes_wf [OF runs_writes [OF assms(1)]] assms(2) by simp
  with log.writes [OF runs_writes [OF assms(1)]] assms(2) show ?thesis
    by (auto simp: log_grows_def wf_db_def)
qed

theorem log_append_only_witness:
  "\<exists>es. events (db (demo_step (OpStart ''t2'') demo_world)) = events demo_db @ es"
  using log_append_only [OF demo_run, of "OpStart ''t2''" demo_world] by auto

text \<open>Races have one winner: however the statements of concurrent requests and services interleave,
  a pending task is taken by at most one claim or expiry, and a running task is ended by at most
  one completion, failure or heartbeat timeout, until some other write puts it back.\<close>

theorem races_have_one_winner:
  assumes "wf_db d"
  shows "(race (claim_contest i) (\<lambda>r. t_status r = st_pending) i d n d' \<longrightarrow> n \<le> 1) \<and>
    (race (end_contest i) (\<lambda>r. t_status r = st_in_progress) i d m d'' \<longrightarrow> m \<le> 1)"
  using claims.one_winner [OF _ assms, of i n d'] endings.one_winner [OF _ assms, of i m d''] by auto

theorem races_have_one_winner_witness:
  "fst (sql_complete ''done'' ''t3'' 5 (snd (sql_fail ''oom'' ''t3'' 4 demo_db))) = Some 0"
proof -
  let ?d1 = "snd (sql_fail ''oom'' ''t3'' 4 demo_db)"
  have 1: "sql_fail ''oom'' ''t3'' 4 demo_db = (Some 1, ?d1)"
    using fail_row.affected [of demo_db "''oom''" "''t3''" 4] by (simp add: prod_eq_iff)
  have "wf_db ?d1" by (simp add: fail_row.wf)
  then obtain k where k: "fst (sql_complete ''done'' ''t3'' 5 ?d1) = Some k" by (simp add: complete_row.affected)
  let ?C = "end_contest ''t3''" and ?P = "\<lambda>r. t_status r = st_in_progress"
  have c: "sql_fail ''oom'' ''t3'' \<in> ?C" "sql_complete ''done'' ''t3'' \<in> ?C" by (auto simp: end_contest_def)
  have "race ?C ?P ''t3'' demo_db (0 + 1) ?d1" by (rule race_step [OF race_refl c(1) 1])
  then have "race ?C ?P ''t3'' demo_db (0 + 1 + k) (snd (sql_complete ''done'' ''t3'' 5 ?d1))"
    by (rule race_step [OF _ c(2)]) (use k in \<open>simp add: prod_eq_iff\<close>)
  with races_have_one_winner [OF wf_demo] have "0 + 1 + k \<le> 1" by blast
  with k show ?thesis by simp
qed

end
