(* ===== verification/Children.thy ===== *)
theory Children
  imports Outcomes
begin

text \<open>
  The children of a task and the text search that finds them. The code looks for the id of the task
  in the JSON text of the parents, which finds exactly the tasks that name it as a parent when ids
  are made of letters, digits, hyphens and dots and no parent's id contains the one searched for in
  a longer one, as with ids of one length such as UUIDs.
\<close>

subsection \<open>Texts that a separator cuts\<close>

lemma sublist_separated:
  "c \<notin> set x \<Longrightarrow> sublist x (a @ c # b) \<longleftrightarrow> sublist x a \<or> sublist x b"
proof -
  assume c: "c \<notin> set x"
  have p: "prefix y (c # b) \<longleftrightarrow> y = []" if "set y \<subseteq> set x" for y
    using that c by (cases y) auto
  have "sublist x (c # b) \<longleftrightarrow> sublist x b"
    using p [of x] by (auto simp: sublist_Cons_right)
  moreover have "suffix x a \<Longrightarrow> sublist x a" by (rule suffix_imp_sublist)
  ultimately show ?thesis using p by (fastforce simp: sublist_append)
qed

lemma sublist_separated_Cons: "c \<notin> set x \<Longrightarrow> x \<noteq> [] \<Longrightarrow> sublist x (c # b) \<longleftrightarrow> sublist x b"
  using sublist_separated [of c x "[]" b] by simp

definition id_char :: "char \<Rightarrow> bool" where
  "id_char c \<longleftrightarrow> (let n = of_char c :: nat in (48 \<le> n \<and> n \<le> 57) \<or> (65 \<le> n \<and> n \<le> 90) \<or> (97 \<le> n \<and> n \<le> 122) \<or> n = 45 \<or> n = 46)"

text \<open>The column of a task without parents may hold the word null, which is no parent's id either.\<close>

definition id_text :: "string \<Rightarrow> bool" where
  "id_text s \<longleftrightarrow> list_all id_char s \<and> \<not> sublist s ''null''"

lemma id_text_no:
  assumes "id_text s"
  shows "s \<noteq> []" "\<not> sublist s ''null''" "c \<in> {CHR 0x22, CHR ''['', CHR '']'', CHR '','', CHR ''%'', CHR ''_'', CHR 0x5C} \<Longrightarrow> c \<notin> set s"
  using assms by (auto simp: id_text_def list_all_iff id_char_def)

lemma id_text_plain: "id_text s \<Longrightarrow> plain s \<and> like_plain s"
proof
  assume s: "id_text s"
  show "plain s" unfolding plain_def
  proof
    fix c assume "c \<in> set s"
    with s have "id_char c" by (simp add: id_text_def list_all_iff)
    then show "32 \<le> (of_char c :: nat) \<and> (of_char c :: nat) < 128 \<and> c \<notin> {CHR 0x22, CHR 0x5C, CHR ''<'', CHR ''>'', CHR ''&''}"
      by (auto simp: id_char_def Let_def)
  qed
  show "like_plain s" using id_text_no(3) [OF s] by (simp add: like_plain_def)
qed

lemma sublist_json_strings:
  assumes i: "id_text i" and xs: "list_all id_text xs"
  shows "sublist i (json_elems (map JStr xs)) \<longleftrightarrow> (\<exists>p \<in> set xs. sublist i p)"
  using xs
proof (induction xs)
  case Nil
  then show ?case using id_text_no(1) [OF i] by simp
next
  case (Cons p xs)
  then have "esc p = p" using id_text_plain esc_plain by simp
  with Cons i show ?case
    by (cases xs) (simp_all add: json_elems_Cons sublist_separated sublist_separated_Cons id_text_no)
qed

lemma sublist_parents:
  assumes i: "id_text i" and ps: "list_all id_text (elems ps)"
  shows "sublist i (marshal_strings ps) \<longleftrightarrow> (\<exists>p \<in> set (elems ps). sublist i p)"
proof (cases ps)
  case None
  then show ?thesis using id_text_no [OF i] by (simp add: marshal_strings_def)
next
  case (Some xs)
  then show ?thesis using sublist_json_strings [OF i, of xs] ps id_text_no [OF i]
    by (simp add: marshal_strings_def sublist_separated sublist_separated_Cons)
qed

subsection \<open>Children\<close>

text \<open>No parent in the table contains the id in a longer one.\<close>

definition clear_id :: "string \<Rightarrow> database \<Rightarrow> bool" where
  "clear_id i d \<longleftrightarrow> id_text i \<and> (\<forall>r \<in> set (tasks d). t_parents r = marshal_strings (Some (row_parents r)) \<or>
     t_parents r = marshal_strings None)
     \<and> (\<forall>r \<in> set (tasks d). \<forall>p \<in> set (row_parents r). id_text p \<and> (sublist i p \<longrightarrow> p = i))"

definition child_of :: "string \<Rightarrow> task_row \<Rightarrow> bool" where
  "child_of i r \<longleftrightarrow> i \<in> set (row_parents r)"

lemma parents_like_child:
  assumes c: "clear_id i d" and r: "r \<in> set (tasks d)"
  shows "parents_like i r \<longleftrightarrow> child_of i r"
proof -
  have i: "id_text i" using c by (simp add: clear_id_def)
  obtain ps where ps: "t_parents r = marshal_strings ps" using c r by (auto simp: clear_id_def)
  then have e: "row_parents r = elems ps" by (simp add: row_parents_def)
  have p: "id_text p \<and> (sublist i p \<longrightarrow> p = i)" if "p \<in> set (elems ps)" for p
    using c r that unfolding clear_id_def e [symmetric] by blast
  then have "parents_like i r \<longleftrightarrow> (\<exists>p \<in> set (elems ps). sublist i p)"
    using sublist_parents [OF i, of ps] id_text_plain [OF i]
    by (simp add: parents_like_def like_contains_plain ps list_all_iff)
  also have "\<dots> \<longleftrightarrow> i \<in> set (elems ps)" using p by auto
  finally show ?thesis by (simp add: child_of_def e)
qed

text \<open>The pending children all of whose parents are completed and named once.\<close>

definition ready_children :: "string \<Rightarrow> database \<Rightarrow> string list" where
  "ready_children i d = map t_id (filter (\<lambda>r. child_of i r \<and> t_status r = st_pending \<and> parents_ok d r) (tasks d))"

lemma promoted_children:
  assumes "wf_db d" and "clear_id i d"
  shows "promoted i d = ready_children i d"
proof -
  have "ready d (t_id r) = parents_ok d r" if "r \<in> set (tasks d)" for r
    using find_task_mem [OF assms(1) that] by (simp add: ready_def)
  then show ?thesis
    using parents_like_child [OF assms(2)]
    by (auto simp: promoted_def ready_children_def filter_map comp_def intro!: arg_cong [where f = "map t_id"] filter_cong)
qed

lemma row_parents_completed [simp]: "row_parents (completed n x r) = row_parents r"
  by (simp add: row_parents_def completed_def set_status_def)

lemma clear_id_completed:
  "clear_id i d \<Longrightarrow> clear_id i (d\<lparr>tasks := upd_where P (completed n x) (tasks d)\<rparr>)"
  unfolding clear_id_def by (auto simp: set_upd_where completed_def set_status_def row_parents_def)

lemma ready_children_tasks: "tasks d = tasks d' \<Longrightarrow> ready_children i d = ready_children i d'"
  using parents_ok_tasks [of d d'] by (simp add: ready_children_def)

lemma completed_in_code [code]:
  "completed_in d i = (case find_task i d of None \<Rightarrow> False | Some r \<Rightarrow> t_status r = st_completed)"
  by (simp add: completed_in_def split: option.split)

lemma none_ready:
  assumes "find_task i d = Some r" and "t_status r \<noteq> st_completed"
  shows "ready_children i d = []"
proof -
  have "\<not> completed_in d i" using assms by (simp add: completed_in_code)
  then show ?thesis by (auto simp: ready_children_def child_of_def parents_ok_def list_all_iff filter_empty_conv)
qed

end
