(* ===== verification/RepoProperties.thy ===== *)
theory RepoProperties
  imports Demo Children
begin

text \<open>
  What the repositories promise: exclusive claims, the outcome of every transition, the
  parents rule, the timeouts, and what the readers return.
\<close>

subsection \<open>Claims\<close>

text \<open>At most one of any sequence of claims for a task is granted, whatever faults interrupt
  the statements: the guarded update is the only arbiter between agents.\<close>

theorem claims_at_most_one:
  assumes "wf_db (db w)"
  shows "length (filter (\<lambda>r. case r of Inl _ \<Rightarrow> False | Inr _ \<Rightarrow> True) (fst (run_state (claim_all i as) w))) \<le> 1"
proof -
  let ?n = "\<lambda>w. length (filter (\<lambda>r. case r of Inl _ \<Rightarrow> False | Inr _ \<Rightarrow> True) (fst (run_state (claim_all i as) w)))"
  have "?n w \<le> 1 \<and> (\<not> is_pending i (db w) \<longrightarrow> ?n w = 0)"
    using assms
  proof (induction as arbitrary: w)
    case (Cons a as)
    obtain r w1 where c: "run_state (ClaimTask i a) w = (r, w1)" by (cases "run_state (ClaimTask i a) w")
    from Cons.IH [OF ClaimTask_wf [OF c Cons.prems]] ClaimTask_keeps [OF c Cons.prems] show ?case
      by (cases r) (auto simp: run_state_bind run_state_return c split: prod.splits)
  qed (simp add: run_state_return)
  then show ?thesis by blast
qed

theorem claims_at_most_one_witness:
  "length (filter (\<lambda>r. case r of Inl _ \<Rightarrow> False | Inr _ \<Rightarrow> True)
     (fst (run_state (claim_all ''t2'' [''ann'', ''bob'']) (demo_world\<lparr>faults := [False, True]\<rparr>)))) \<le> 1"
  by (rule claims_at_most_one) simp

text \<open>Without faults the first claim of a pending task is granted: its caller gets the task as
  claimed by that agent, and every later claim gets the conflict that names the status claimed.\<close>

theorem first_claim_wins:
  assumes "wf_db (db w)" and "faults w = []" and "find_task i (db w) = Some r" and "t_status r = st_pending"
  shows "fst (run_state (claim_all i (a # as)) w) =
    Inr (Some (scanTaskRow ((set_status st_claimed (now w) r)\<lparr>t_assignee := a\<rparr>)))
      # map (\<lambda>_. Inl (ConflictError st_claimed ''task is not in pending status'')) as"
proof -
  let ?w = "w\<lparr>db := logged i ''ClaimTask'' a [] (now w) (snd (sql_claim a i (now w) (db w)))\<rparr>"
  have "run_state (claim_all i as) ?w =
    (map (\<lambda>_. Inl (ConflictError st_claimed ''task is not in pending status'')) as, ?w)"
    using claim_all_refused [of ?w i "(set_status st_claimed (now w) r)\<lparr>t_assignee := a\<rparr>" as] assms
    by (simp add: claim_row.row claim_row.wf)
  with assms show ?thesis by (simp add: run_state_bind run_state_return run_ClaimTask)
qed

theorem first_claim_wins_witness:
  "fst (run_state (claim_all ''t2'' [''ann'', ''bob'', ''cy'']) demo_world) =
    Inr (Some (scanTaskRow ((set_status st_claimed 1000 demo_t2)\<lparr>t_assignee := ''ann''\<rparr>)))
      # map (\<lambda>_. Inl (ConflictError st_claimed ''task is not in pending status'')) [''bob'', ''cy'']"
  using first_claim_wins [of demo_world "''t2''" demo_t2 "''ann''" "[''bob'', ''cy'']"] by simp

subsection \<open>Outcomes\<close>

text \<open>C18. A failed attempt is retried exactly while retries are left: failing a task in progress puts
  it back to pending without an assignee and with one more retry counted, or, when its retries are
  used up, leaves it failed; both ways the reason is kept as summary and the result reports what
  was done.\<close>

theorem fail_outcome:
  assumes "wf_db (db w)" and "faults w = []" and "find_task i (db w) = Some r"
    and "t_status r = st_in_progress" and "int4 (t_max_retries r)" and "0 \<le> t_retry_count r"
  shows "\<exists>w' res. run_state (FailTask i x) w = (Inr res, w') \<and> MaxRetry res = t_max_retries r \<and>
    (if t_retry_count r < t_max_retries r
     then find_task i (db w') = Some (retried (now w) x r) \<and> DidRetry res \<and> Attempt res = t_retry_count r + 1
     else find_task i (db w') = Some (failed (now w) x r) \<and> \<not> DidRetry res \<and> Attempt res = 0)"
proof (cases "t_retry_count r < t_max_retries r")
  case True
  with assms have "int4 (t_retry_count r + 1)" by (simp add: int4_def)
  with True assms run_FailTask_retry [of w i r x] show ?thesis by auto
next
  case False
  with assms run_FailTask_final [of w i r x] show ?thesis by auto
qed

theorem fail_outcome_witness:
  "\<exists>w' res. run_state (FailTask ''t3'' ''oom'') demo_world = (Inr res, w') \<and> DidRetry res \<and>
    find_task ''t3'' (db w') = Some (retried 1000 ''oom'' demo_t3)"
  using fail_outcome [of demo_world "''t3''" demo_t3 "''oom''"] by (force simp: int4_def)




text \<open>The search for the id finds more: completing t1 announces a task whose only parent is t10.\<close>

theorem false_child_announced:
  "event_kinds (db (snd (run_state (CompleteTask ''t1'' []) (demo_world\<lparr>db := empty_db\<lparr>tasks :=
     [demo_row ''t1'' st_in_progress ''bob'', demo_row ''t10'' st_completed ''bob'',
      task_row_of (zero_task\<lparr>ID := ''c'', Status := st_pending, Parents := Some [''t10'']\<rparr>) 100]\<rparr>\<rparr>)))) =
   [(''t1'', ''CompleteTask''), (''c'', ''ParentsCompleted'')]"
  by code_simp

text \<open>C23. The parents check answers true exactly when the list of parents has no duplicates and every
  one of them is a completed task: it counts rows and compares with the length of the list, so a
  parent named twice is never done.\<close>

theorem parents_rule:
  assumes "wf_db (db w)" and "faults w = []"
  shows "run_state (AreParentsCompleted ps) w =
    (Inr (distinct ps \<and> list_all (completed_in (db w)) ps), w)"
  using run_AreParentsCompleted [OF assms] by (simp add: list_all_iff)

theorem parents_rule_witness:
  "fst (run_state (AreParentsCompleted [''t1'']) demo_world) = Inr True \<and>
   fst (run_state (AreParentsCompleted [''t1'', ''t1'']) demo_world) = Inr False \<and>
   fst (run_state (AreParentsCompleted [''t1'', ''t2'']) demo_world) = Inr False"
  by (simp add: parents_rule completed_in_def)

subsection \<open>Timeouts\<close>

text \<open>The expiry of pending tasks fails exactly the pending tasks that were created longer ago than the
  timeout, whenever they became pending, returns their ids, and leaves every other task as it was.\<close>

theorem expire_pending_exact:
  assumes "wf_db (db w)" and "faults w = []" and "0 < m"
  shows "\<exists>w'. run_state (ExpirePendingTasks m) w =
      (Inr (built (map t_id (filter (pending_expired m (now w)) (tasks (db w))))), w') \<and>
    (\<forall>j. find_task j (db w') = map_option (\<lambda>r. if pending_expired m (now w) r
       then failed (now w) expired_summary r else r) (find_task j (db w)))"
  using run_ExpirePendingTasks [OF assms] unfolding swept_def .

theorem expire_pending_exact_witness:
  "\<exists>w'. run_state (ExpirePendingTasks 15) demo_world = (Inr None, w') \<and> find_task ''t2'' (db w') = Some demo_t2"
  using expire_pending_exact [of demo_world 15] by (auto simp: pending_expired_def minutes_def built_def)

text \<open>The running tasks that nobody has reported on for longer than \<open>m\<close> minutes at time \<open>n\<close>.\<close>

definition silent_for :: "int \<Rightarrow> time \<Rightarrow> task_row \<Rightarrow> bool" where
  "silent_for m n r \<longleftrightarrow> t_status r = st_in_progress \<and>
     m * 60 < n - (if t_last_heartbeat r = None then t_created_at r else the (t_last_heartbeat r))"

lemma stale_silent: "stale_in_progress m n = silent_for m n"
  by (auto simp: fun_eq_iff stale_in_progress_def silent_for_def minutes_def split: option.split)

text \<open>C24. The expiry of running tasks fails exactly the tasks in progress whose last heartbeat, or
  creation when there was none, is older than the timeout, returns their ids, and leaves every
  other task as it was.\<close>

theorem expire_stale_exact:
  assumes "wf_db (db w)" and "faults w = []" and "0 < m"
  shows "\<exists>w'. run_state (ExpireStaleInProgressTasks m) w =
      (Inr (built (map t_id (filter (silent_for m (now w)) (tasks (db w))))), w') \<and>
    (\<forall>j. find_task j (db w') = map_option (\<lambda>r. if silent_for m (now w) r
       then failed (now w) (stale_summary m) r else r) (find_task j (db w)))"
  using run_ExpireStale [OF assms] unfolding swept_def stale_silent .

theorem expire_stale_exact_witness:
  "\<exists>w'. run_state (ExpireStaleInProgressTasks 5) demo_world = (Inr (Some [''t3'']), w') \<and>
    find_task ''t3'' (db w') = Some (failed 1000 (stale_summary 5) demo_t3)"
  using expire_stale_exact [of demo_world 5] by (auto simp: silent_for_def built_def)

text \<open>C25. Releasing an agent puts exactly its claimed and running tasks back to pending without an
  assignee, returns their ids, and leaves every other task as it was.\<close>

theorem release_exact:
  assumes "wf_db (db w)" and "faults w = []"
  shows "\<exists>w'. run_state (ReleaseAgentTasks ag) w =
      (Inr (built (map t_id (filter (active_task_of ag) (tasks (db w))))), w') \<and>
    (\<forall>j. find_task j (db w') = map_option (\<lambda>r. if active_task_of ag r
       then (set_status st_pending (now w) r)\<lparr>t_assignee := []\<rparr> else r) (find_task j (db w)))"
  using run_ReleaseAgentTasks [OF assms] unfolding swept_def .

theorem release_exact_witness:
  "\<exists>w'. run_state (ReleaseAgentTasks ''bob'') demo_world = (Inr (Some [''t3'']), w') \<and>
    find_task ''t1'' (db w') = Some (demo_row ''t1'' st_completed ''bob'')"
  using release_exact [of demo_world "''bob''"] by (auto simp: active_task_of_def built_def)

subsection \<open>Round trips\<close>

text \<open>Creating a task succeeds exactly when its id is new, its status is empty or one of the six
  and its three counters fit a 32-bit column; reading it back then gives every field as written,
  lists included, with the status pending for an empty one and the timestamps of the server.\<close>

theorem create_then_get:
  assumes "faults w = []"
  shows "(fst (run_state (Create t) w) = Inr () \<longleftrightarrow>
      ID t \<notin> task_ids (db w) \<and> Status t \<in> insert [] (set task_statuses) \<and>
      int4 (Priority t) \<and> int4 (MaxRetries t) \<and> int4 (RetryCount t)) \<and>
    (fst (run_state (Create t) w) = Inr () \<longrightarrow>
      fst (run_state (GetByID (ID t)) (snd (run_state (Create t) w))) = Inr (Some (t\<lparr>
        Status := if Status t = [] then st_pending else Status t,
        CreatedAt := now w, UpdatedAt := now w, LastHeartbeat := None\<rparr>)))"
proof -
  from run_Create [OF assms, of t] obtain d where
    "run_state (Create t) w = (if insertable t (db w) then (Inr (), w\<lparr>db := d\<rparr>) else (Inl (DbError ''insert task''), w))"
    "insertable t (db w) \<Longrightarrow> find_task (ID t) d = Some (task_row_of (stamped (now w) t) (now w))" by blast
  with assms show ?thesis unfolding insertable_def [symmetric] stamped_def [symmetric]
    by (cases "insertable t (db w)") (auto simp: run_GetByID scan_stamped)
qed

theorem create_then_get_witness:
  "fst (run_state (GetByID ''n'') (snd (run_state (Create (zero_task\<lparr>ID := ''n''\<rparr>)) demo_world))) =
     Inr (Some (zero_task\<lparr>ID := ''n'', Status := st_pending, CreatedAt := 1000, UpdatedAt := 1000\<rparr>)) \<and>
   fst (run_state (Create (zero_task\<lparr>ID := ''t1''\<rparr>)) demo_world) \<noteq> Inr ()"
  using create_then_get [of demo_world "zero_task\<lparr>ID := ''n''\<rparr>"]
    create_then_get [of demo_world "zero_task\<lparr>ID := ''t1''\<rparr>"]
  by (simp add: zero_task_def task_ids_def int4_def)

text \<open>Artifacts are kept as a list: after adding one to a task whose column decodes, the list read
  back is the old one with the new artifact at its end; after removing a key it is the old one
  without the artifacts of that key.\<close>

theorem artifacts_list:
  assumes "wf_db (db w)" and "faults w = []" and "find_task i (db w) = Some r"
    and "decode_list (t_artifacts_json r) = Some l"
  shows "map_sum id elems (fst (run_state (GetArtifacts i) (snd (run_state (AddArtifact i a) w)))) = Inr (elems l @ [a]) \<and>
    map_sum id elems (fst (run_state (GetArtifacts i) (snd (run_state (RemoveArtifact i k) w)))) =
      Inr (filter (\<lambda>a. Key a \<noteq> k) (elems l))"
  using assms
  by (simp add: AddArtifact_def RemoveArtifact_def GetArtifacts_def getArtifactsJSON_def SetArtifactsJSON_def
      run_state_bind run_state_return run_query_ok run_exec_ok artifacts_row.affected artifacts_row.row
      marshal_artifacts_brackets append_slice_def built_def)

theorem artifacts_list_witness:
  "map_sum id elems (fst (run_state (GetArtifacts ''t1'') (snd (run_state (AddArtifact ''t1''
     \<lparr>Key = ''k'', Bucket = ''b'', Size = 3, ContentType = []\<rparr>) demo_world)))) =
     Inr [\<lparr>Key = ''k'', Bucket = ''b'', Size = 3, ContentType = []\<rparr>]"
  using artifacts_list [of demo_world "''t1''" "demo_row ''t1'' st_completed ''bob''" None]
  by (simp add: demo_row_def task_row_of_def zero_task_def decode_list_def)

subsection \<open>Readers\<close>

text \<open>C39. What the task list shows for wanted skills without a backslash is exactly this: the tasks that have
  the wanted status and assignee, where one is given, and whose required skills, written as JSON text,
  contain the text of every wanted skill. So it misses no task that requires all wanted skills when
  these are printable ASCII without quotes, backslashes, angle brackets and ampersands; with an
  ampersand it can miss one (\<open>list_skill_missed\<close>), and it can show others (\<open>list_skill_false_positive\<close>).\<close>

theorem list_exact:
  assumes "wf_db (db w)" and "faults w = []" and "list_all (\<lambda>k. CHR 0x5C \<notin> set k) req"
  shows "\<exists>ts. run_state (List st ag req) w = (Inr ts, w) \<and>
    elems ts = map scan_columns (filter (\<lambda>r. st \<in> {[], t_status r} \<and> ag \<in> {[], t_assignee r} \<and>
      list_all (\<lambda>k. sublist k (t_required_skills r)) req) (tasks (db w))) \<and>
    (list_all plain req \<longrightarrow> scan_columns ` {r \<in> set (tasks (db w)). st \<in> {[], t_status r} \<and> ag \<in> {[], t_assignee r} \<and>
      (\<exists>ss. t_required_skills r = marshal_strings ss \<and> set req \<subseteq> set (elems ss))} \<subseteq> set (elems ts))"
proof -
  let ?shown = "\<lambda>r. st \<in> {[], t_status r} \<and> ag \<in> {[], t_assignee r} \<and> list_all (\<lambda>k. sublist k (t_required_skills r)) req"
  have "list_where st ag req r \<longleftrightarrow> ?shown r" for r
    using assms(3) by (auto simp: list_where_def like_contains_escaped list_all_iff)
  then have "list_where st ag req = ?shown" by blast
  then have run: "run_state (List st ag req) w = (Inr (built (map scan_columns (filter ?shown (tasks (db w))))), w)"
    using assms(2) by (simp add: List_def run_state_bind run_state_return run_query_ok)
  have "list_all (\<lambda>k. sublist k (marshal_strings ss)) req" if "list_all plain req" "set req \<subseteq> set (elems ss)" for ss
    using that sublist_marshal_strings by (auto simp: list_all_iff)
  then have "{r \<in> set (tasks (db w)). st \<in> {[], t_status r} \<and> ag \<in> {[], t_assignee r} \<and>
      (\<exists>ss. t_required_skills r = marshal_strings ss \<and> set req \<subseteq> set (elems ss))} \<subseteq>
      set (filter ?shown (tasks (db w)))" if "list_all plain req"
    using that by auto
  from image_mono [OF this, of scan_columns] run show ?thesis by auto
qed

theorem list_exact_witness:
  "\<exists>ts. run_state (List st_pending [] [''go'']) demo_world = (Inr ts, demo_world) \<and> scan_columns demo_t2 \<in> set (elems ts)"
  using list_exact [of demo_world "[''go'']" st_pending "[]"] by (fastforce simp: plain_def)

text \<open>The JSON text writes an ampersand as an escape, so a task that requires \<^verbatim>\<open>r&d\<close> is not listed for it.\<close>

theorem list_skill_missed:
  "run_state (List [] [] [''r&d'']) (empty_world\<lparr>db := empty_db\<lparr>tasks :=
     [task_row_of (zero_task\<lparr>ID := ''t1'', Status := st_pending, RequiredSkills := Some [''r&d'']\<rparr>) 0]\<rparr>\<rparr>) =
   (Inr None, empty_world\<lparr>db := empty_db\<lparr>tasks :=
     [task_row_of (zero_task\<lparr>ID := ''t1'', Status := st_pending, RequiredSkills := Some [''r&d'']\<rparr>) 0]\<rparr>\<rparr>)"
proof -
  let ?r = "task_row_of (zero_task\<lparr>ID := ''t1'', Status := st_pending, RequiredSkills := Some [''r&d'']\<rparr>) 0"
  have "\<not> list_where [] [] [''r&d''] ?r" by code_simp
  then show ?thesis
    by (simp add: List_def run_state_bind run_state_return run_query_ok empty_world_def empty_db_def built_def)
qed

text \<open>The skill filter of the task list is a text search: a task that requires only django is
  listed for an agent that asks for tasks requiring go.\<close>

theorem list_skill_false_positive:
  "fst (run_state (List [] [] [''go'']) (empty_world\<lparr>db := empty_db\<lparr>tasks :=
     [task_row_of (zero_task\<lparr>ID := ''t1'', Status := st_pending, RequiredSkills := Some [''django'']\<rparr>) 0]\<rparr>\<rparr>)) =
   Inr (Some [scan_columns (task_row_of (zero_task\<lparr>ID := ''t1'', Status := st_pending, RequiredSkills := Some [''django'']\<rparr>) 0)])"
proof -
  have "sublist ''go'' (marshal_strings (Some [''django'']))"
    by (simp add: marshal_strings_def) (simp add: sublist_def Cons_eq_append_conv)
  then show ?thesis
    by (simp add: List_def run_state_bind run_state_return run_query_ok empty_world_def empty_db_def list_where_def
      like_contains_plain like_plain_def task_row_of_def zero_task_def built_def)
qed

text \<open>The dependency graph of a task loses no child: every task that names it as a parent is among
  the children shown, for ids without special characters.\<close>

theorem graph_has_children:
  assumes "wf_db (db w)" and "faults w = []" and "plain i" and "like_plain i"
    and "find_task i (db w) = Some t" and "find_task c (db w) = Some r"
    and "t_parents r = marshal_strings ps" and "i \<in> set (elems ps)"
  shows "\<exists>g. run_state (GetDependencyGraph i) w = (Inr (Some g), w) \<and> GTask g = scanTaskRow t \<and>
    scanTaskRow r \<in> set (elems (GChildren g))"
proof -
  let ?ids = "map t_id (filter (parents_like i) (tasks (db w)))"
  from assms(3,4,7,8) have l: "parents_like i r"
    by (simp add: parents_like_def like_contains_plain sublist_marshal_strings)
  have c: "r \<in> set (tasks (db w))" "t_id r = c" using find_task_Some [OF assms(6)] by auto
  with l have mem: "c \<in> set ?ids" by auto
  have by_ids: "run_state (getTasksByIDs ids) w = (Inr (if ids = [] then None
      else built (map scanTaskRow (filter (\<lambda>r. t_id r \<in> set ids) (tasks (db w))))), w)" for ids
    using assms(2) by (simp add: getTasksByIDs_def run_state_bind run_state_return run_query_ok)
  show ?thesis using assms(2,5) mem c
    by (cases ?ids) (auto simp: GetDependencyGraph_def run_state_bind run_state_return run_query_ok run_GetByID by_ids)
qed

theorem graph_has_children_witness:
  "\<exists>g. run_state (GetDependencyGraph ''t1'') demo_world = (Inr (Some g), demo_world) \<and>
    scanTaskRow demo_t2 \<in> set (elems (GChildren g))"
  using graph_has_children [of demo_world "''t1''" _ "''t2''" demo_t2 "Some [''t1'']"]
  by (auto simp: plain_def like_plain_def)

text \<open>The children of a task are found by a text search for its id: a task whose only parent is
  t10 is shown as a child of t1, and completing t1 looks at it again.\<close>

theorem graph_false_child:
  "parents_like ''t1'' (task_row_of (zero_task\<lparr>ID := ''c'', Status := st_pending, Parents := Some [''t10'']\<rparr>) n)"
proof -
  have "sublist ''t1'' (marshal_strings (Some [''t10'']))"
    by (simp add: marshal_strings_def) (simp add: sublist_def Cons_eq_append_conv)
  then show ?thesis
    by (simp add: parents_like_def like_contains_plain like_plain_def task_row_of_def zero_task_def)
qed

subsection \<open>The event feed\<close>

definition feed_wants :: "time option \<Rightarrow> string \<Rightarrow> int \<Rightarrow> bool \<Rightarrow> event_row \<Rightarrow> bool" where
  "feed_wants since ag after useID e \<longleftrightarrow>
     (if useID then after < e_id e else since \<noteq> None \<and> the since < e_timestamp e) \<and> (ag = [] \<or> e_agent e \<in> {ag, []})"

lemma since_where_wants: "since_where since ag after useID = feed_wants since ag after useID"
  by (auto simp: fun_eq_iff since_where_def feed_wants_def split: option.split)

text \<open>C40. The feed of events, with an id or a timestamp as its cursor and with or without an agent, returns the
  newest events past the cursor first, those of the agent and of nobody when one is named, and at most
  the clamped limit of them; what it leaves out is older than everything it returns, so a poller that
  moves its cursor to the newest id it got never sees the rest. A timestamp the server cannot read is an
  error.\<close>

theorem feed_newest_first:
  assumes "wf_db (db w)" and "faults w = []"
  shows "if \<not> useID \<and> since = None then run_state (ListSince since ag lim after useID) w = (Inl (DbError ''list events since''), w)
    else \<exists>es rest. run_state (ListSince since ag lim after useID) w = (Inr es, w) \<and>
      map (joined_event (db w)) (rev (filter (feed_wants since ag after useID) (events (db w)))) = elems es @ rest \<and>
      sorted_wrt (>) (map EvID (elems es)) \<and> length (elems es) \<le> nat (clamp_limit lim) \<and>
      (length (elems es) < nat (clamp_limit lim) \<longrightarrow> rest = []) \<and>
      list_all (\<lambda>e. list_all (\<lambda>e'. EvID e < EvID e') (elems es)) rest"
proof (cases "\<not> useID \<and> since = None")
  case True
  with assms(2) show ?thesis by (simp add: ListSince_def run_state_bind run_state_return run_exec_ok)
next
  case False
  let ?all = "map (joined_event (db w)) (rev (filter (feed_wants since ag after useID) (events (db w))))"
  let ?n = "nat (clamp_limit lim)"
  have "sorted_wrt (<) (map e_id (filter (feed_wants since ag after useID) (events (db w))))"
    using assms(1) by (intro sorted_filter_ids) (simp add: wf_db_def)
  then have s: "sorted_wrt (>) (map EvID ?all)"
    by (simp add: joined_event_def comp_def rev_map [symmetric] sorted_wrt_rev)
  then have s2: "sorted_wrt (>) (map EvID (take ?n ?all) @ map EvID (drop ?n ?all))"
    by (metis append_take_drop_id map_append)
  have "run_state (ListSince since ag lim after useID) w = (Inr (built (take ?n ?all)), w)"
    using assms False
    by (auto simp: ListSince_def run_state_bind run_state_return run_query_ok select_since_wf take_map since_where_wants)
  moreover have "?all = take ?n ?all @ drop ?n ?all" by simp
  moreover have "list_all (\<lambda>e. list_all (\<lambda>e'. EvID e < EvID e') (take ?n ?all)) (drop ?n ?all)"
    using s2 unfolding sorted_wrt_append list_all_iff by simp
  moreover have "sorted_wrt (>) (map EvID (take ?n ?all))" using s2 by (simp only: sorted_wrt_append)
  moreover have "length (take ?n ?all) < ?n \<longrightarrow> drop ?n ?all = []" by simp
  moreover have "length (take ?n ?all) \<le> ?n" by simp
  ultimately show ?thesis unfolding if_not_P [OF False] by (metis elems_built)
qed

theorem feed_newest_first_witness:
  "(\<exists>es. run_state (ListSince None [] 1 0 True) demo_world = (Inr es, demo_world) \<and> length (elems es) = 1) \<and>
   (\<exists>es. run_state (ListSince (Some 50) ''ann'' 1 0 False) demo_world = (Inr es, demo_world) \<and> length (elems es) = 1) \<and>
   run_state (ListSince None [] 1 0 False) demo_world = (Inl (DbError ''list events since''), demo_world)"
proof -
  have e: "length (filter (feed_wants None [] 0 True) (events demo_db)) = 1"
    "length (filter (feed_wants (Some 50) ''ann'' 0 False) (events demo_db)) = 1" by code_simp+
  note f = feed_newest_first [of demo_world, simplified demo_world_sel, OF wf_demo refl, of _ _ _ 1 0]
  have "\<exists>es. run_state (ListSince since ag 1 0 useID) demo_world = (Inr es, demo_world) \<and> length (elems es) = 1"
    if "length (filter (feed_wants since ag 0 useID) (events demo_db)) = 1" and "useID \<or> since \<noteq> None" for since ag useID
  proof -
    from f [of useID since ag] that(2) obtain es rest where es: "run_state (ListSince since ag 1 0 useID) demo_world = (Inr es, demo_world)"
      and m: "map (joined_event demo_db) (rev (filter (feed_wants since ag 0 useID) (events demo_db))) = elems es @ rest"
      and l: "length (elems es) < nat (clamp_limit 1) \<longrightarrow> rest = []" "length (elems es) \<le> nat (clamp_limit 1)" by auto
    from arg_cong [OF m, of length] that(1) have "length (elems es) + length rest = 1" by simp
    with l have "length (elems es) = 1" by (cases "elems es") (auto simp: clamp_limit_def)
    with es show ?thesis by blast
  qed
  with e f [of False None "[]"] show ?thesis by simp
qed

subsection \<open>A release that comes late\<close>

text \<open>
  The release of a silent agent reads the ids of its active tasks and then updates them one by
  one without a guard: a task completed in between goes back to pending.
\<close>

theorem late_release_reopens:
  assumes "wf_db (db w)" and "faults w = []" and "find_task i (db w) = Some r" and "t_status r = st_completed"
  shows "\<exists>w'. run_state (release_loop ag [i]) w = ((), w') \<and>
    map_option t_status (find_task i (db w')) = Some st_pending"
proof -
  obtain w' where "run_state (release_loop ag [i]) w = ((), w')"
    "find_task i (db w') = map_option (\<lambda>r. (set_status st_pending (now w) r)\<lparr>t_assignee := []\<rparr>) (find_task i (db w))"
    using release_row.sweep_run [of w "''StaleAgentRelease''" "''released from stale agent '' @ ag" "[i]"] assms
    by (fastforce simp: release_sweep set_status_def)
  with assms(3) show ?thesis by simp
qed

end
