(* ===== verification/Bodies.thy ===== *)
theory Bodies
  imports TaskHandler AgentHandler
begin

text \<open>
  The bodies of requests: \<^verbatim>\<open>json.NewDecoder(r.Body).Decode(&input)\<close> of the handlers, from the bytes
  of the body to the struct each handler declares. A body is refused (none) when its first JSON
  value is not well-formed, is nested too deeply, or does not fit the struct; what follows the
  first value is not looked at. All handlers answer 400 then, so that what was decoded before the
  error does not matter.
\<close>

subsection \<open>Strings of any bytes\<close>

text \<open>The length of the UTF-8 sequence at the front, 0 when there is none.\<close>

definition continues :: "nat \<Rightarrow> nat \<Rightarrow> nat list \<Rightarrow> bool" where
  "continues lo hi bs \<longleftrightarrow> (case bs of [] \<Rightarrow> False
     | b # r \<Rightarrow> lo \<le> b \<and> b \<le> hi \<and> list_all (\<lambda>c. 128 \<le> c \<and> c \<le> 191) r)"

definition utf8_width :: "string \<Rightarrow> nat" where
  "utf8_width s = (case map of_char s :: nat list of [] \<Rightarrow> 0
     | a # r \<Rightarrow>
       if a < 128 then 1
       else if 194 \<le> a \<and> a \<le> 223 then if continues 128 191 (take 1 r) then 2 else 0
       else if 224 \<le> a \<and> a \<le> 239 then
         if 2 \<le> length r \<and> continues (if a = 224 then 160 else 128) (if a = 237 then 159 else 191) (take 2 r) then 3 else 0
       else if 240 \<le> a \<and> a \<le> 244 then
         if 3 \<le> length r \<and> continues (if a = 240 then 144 else 128) (if a = 244 then 143 else 191) (take 3 r) then 4 else 0
       else 0)"

text \<open>Bytes that are not UTF-8 are each replaced by U+FFFD, as the decoder does.\<close>

function coerce_utf8 :: "string \<Rightarrow> string" where
  "coerce_utf8 s = (if s = [] then []
     else if utf8_width s = 0 then utf8 65533 @ coerce_utf8 (tl s)
     else take (utf8_width s) s @ coerce_utf8 (drop (utf8_width s) s))"
  by pat_completeness auto
termination
  by (relation "measure length") auto

declare coerce_utf8.simps [simp del]

definition ascii :: "string \<Rightarrow> bool" where
  "ascii s \<longleftrightarrow> list_all (\<lambda>c. (of_char c :: nat) < 128) s"

lemma coerce_ascii [simp]: "ascii s \<Longrightarrow> coerce_utf8 s = s"
  by (induction s) (simp_all add: ascii_def coerce_utf8.simps [of "_ # _"] coerce_utf8.simps [of "[]"] utf8_width_def)

subsection \<open>Structs\<close>

text \<open>
  What a field holds. A slice is kept with all elements its array has had: decoding a key twice
  decodes into the same array, and a null in it leaves an element as it was.
\<close>

datatype field = FString string | FInt int | FStrings "string list" "string slice"

type_synonym fields = "(string \<times> field) list"

fun decode_elems :: "string list \<Rightarrow> json list \<Rightarrow> string list option" where
  "decode_elems old [] = Some []"
| "decode_elems old (JStr s # js) = map_option ((#) (coerce_utf8 s)) (decode_elems (tl old) js)"
| "decode_elems old (JNull # js) = map_option ((#) (if old = [] then [] else hd old)) (decode_elems (tl old) js)"
| "decode_elems old (_ # js) = None"

fun set_field :: "field \<Rightarrow> json \<Rightarrow> field option" where
  "set_field (FString s) (JStr t) = Some (FString (coerce_utf8 t))"
| "set_field (FString s) JNull = Some (FString s)"
| "set_field (FInt i) (JNum n) = (if - (2 ^ 63) \<le> n \<and> n < 2 ^ 63 then Some (FInt n) else None)"
| "set_field (FInt i) JNull = Some (FInt i)"
| "set_field (FStrings old v) JNull = Some (FStrings [] None)"
| "set_field (FStrings old v) (JArr js) = (if js = [] then Some (FStrings [] (Some []))
     else map_option (\<lambda>ss. FStrings (ss @ drop (length ss) old) (Some ss)) (decode_elems old js))"
| "set_field _ _ = None"

text \<open>
  Keys match a field by its name, or else by its name in any case; the long s and the Kelvin
  sign count as the letters they fold to.
\<close>

fun fold_name :: "string \<Rightarrow> string" where
  "fold_name [] = []"
| "fold_name (c # cs) =
    (if c = CHR 0xC5 \<and> take 1 cs = [CHR 0xBF] then CHR ''S'' # fold_name (drop 1 cs)
     else if c = CHR 0xE2 \<and> take 2 cs = [CHR 0x84, CHR 0xAA] then CHR ''K'' # fold_name (drop 2 cs)
     else (if 97 \<le> (of_char c :: nat) \<and> (of_char c :: nat) \<le> 122 then char_of (of_char c - 32 :: nat) else c) # fold_name cs)"

definition field_name :: "fields \<Rightarrow> string \<Rightarrow> string option" where
  "field_name fs k = (if k \<in> set (map fst fs) then Some k
     else find (\<lambda>n. fold_name n = fold_name k) (map fst fs))"

fun put_field :: "string \<Rightarrow> json \<Rightarrow> fields \<Rightarrow> fields option" where
  "put_field n j [] = Some []"
| "put_field n j ((m, f) # fs) = (if m = n then map_option (\<lambda>f'. (m, f') # fs) (set_field f j)
     else map_option ((#) (m, f)) (put_field n j fs))"

fun decode_object :: "fields \<Rightarrow> (string \<times> json) list \<Rightarrow> fields option" where
  "decode_object fs [] = Some fs"
| "decode_object fs ((k, j) # kvs) = (case field_name fs (coerce_utf8 k) of
     None \<Rightarrow> decode_object fs kvs
   | Some n \<Rightarrow> (case put_field n j fs of None \<Rightarrow> None | Some fs' \<Rightarrow> decode_object fs' kvs))"

text \<open>The scanner refuses more than 10000 nested arrays and objects.\<close>

fun nesting :: "json \<Rightarrow> nat" and nesting_elems :: "json list \<Rightarrow> nat"
  and nesting_fields :: "(string \<times> json) list \<Rightarrow> nat" where
  "nesting (JArr js) = Suc (nesting_elems js)"
| "nesting (JObj fs) = Suc (nesting_fields fs)"
| "nesting JNull = 0" | "nesting (JBool b) = 0" | "nesting (JNum i) = 0" | "nesting (JFrac t) = 0" | "nesting (JStr s) = 0"
| "nesting_elems [] = 0"
| "nesting_elems (j # js) = max (nesting j) (nesting_elems js)"
| "nesting_fields [] = 0"
| "nesting_fields ((k, j) # fs) = max (nesting j) (nesting_fields fs)"

definition decode_body :: "fields \<Rightarrow> string \<Rightarrow> fields option" where
  "decode_body fs body = (case parse_val (2 * length body + 1) body of
     None \<Rightarrow> None
   | Some (j, _) \<Rightarrow> if 10000 < nesting j then None
       else (case j of JNull \<Rightarrow> Some fs | JObj kvs \<Rightarrow> decode_object fs kvs | _ \<Rightarrow> None))"

definition text_field :: "fields \<Rightarrow> string \<Rightarrow> string" where
  "text_field fs n = (case map_of fs n of Some (FString s) \<Rightarrow> s | _ \<Rightarrow> [])"

definition int_field :: "fields \<Rightarrow> string \<Rightarrow> int" where
  "int_field fs n = (case map_of fs n of Some (FInt i) \<Rightarrow> i | _ \<Rightarrow> 0)"

definition list_field :: "fields \<Rightarrow> string \<Rightarrow> string slice" where
  "list_field fs n = (case map_of fs n of Some (FStrings _ v) \<Rightarrow> v | _ \<Rightarrow> None)"

subsection \<open>The structs of the handlers\<close>

text \<open>A struct of one text, such as that of a claim or an answer.\<close>

definition decode_text :: "string \<Rightarrow> string \<Rightarrow> string option" where
  "decode_text n body = map_option (\<lambda>fs. text_field fs n) (decode_body [(n, FString [])] body)"

definition create_fields :: fields where
  "create_fields = [(''id'', FString []), (''title'', FString []), (''assignee'', FString []), (''priority'', FInt 0),
     (''parents'', FStrings [] None), (''skills'', FStrings [] None), (''required_skills'', FStrings [] None),
     (''tags'', FStrings [] None), (''body_goal'', FString []), (''body_context'', FString []),
     (''body_deliverable_format'', FString []), (''body_deliverable_path'', FString []), (''max_retries'', FInt 0)]"

definition create_of :: "fields \<Rightarrow> create_input" where
  "create_of fs = \<lparr>InID = text_field fs ''id'', InTitle = text_field fs ''title'', InAssignee = text_field fs ''assignee'',
     InPriority = int_field fs ''priority'', InParents = list_field fs ''parents'', InSkills = list_field fs ''skills'',
     InRequiredSkills = list_field fs ''required_skills'', InTags = list_field fs ''tags'',
     InBodyGoal = text_field fs ''body_goal'', InBodyContext = text_field fs ''body_context'',
     InBodyDeliverableFmt = text_field fs ''body_deliverable_format'',
     InBodyDeliverablePath = text_field fs ''body_deliverable_path'', InMaxRetries = int_field fs ''max_retries''\<rparr>"

definition decode_create :: "string \<Rightarrow> create_input option" where
  "decode_create body = map_option create_of (decode_body create_fields body)"

definition decode_block :: "string \<Rightarrow> (string \<times> string) option" where
  "decode_block body = map_option (\<lambda>fs. (text_field fs ''gate_id'', text_field fs ''question''))
     (decode_body [(''gate_id'', FString []), (''question'', FString [])] body)"

definition decode_cursor :: "string \<Rightarrow> int option" where
  "decode_cursor body = map_option (\<lambda>fs. int_field fs ''cursor'') (decode_body [(''cursor'', FInt 0)] body)"

definition decode_register :: "string \<Rightarrow> register_input option" where
  "decode_register body = map_option (\<lambda>fs. \<lparr>RegName = text_field fs ''name'', RegPort = int_field fs ''port'',
       RegToken = text_field fs ''token'', RegSkills = list_field fs ''skills'',
       RegWebhookURL = text_field fs ''webhook_url'', RegWebhookSecret = text_field fs ''webhook_secret''\<rparr>)
     (decode_body [(''name'', FString []), (''port'', FInt 0), (''token'', FString []), (''skills'', FStrings [] None),
        (''webhook_url'', FString []), (''webhook_secret'', FString [])] body)"

subsection \<open>What a client writes is what the handler reads\<close>

definition utf8_text :: "string \<Rightarrow> bool" where
  "utf8_text s \<longleftrightarrow> coerce_utf8 s = s"

lemma decode_elems_texts: "list_all utf8_text ss \<Longrightarrow> decode_elems old (map JStr ss) = Some ss"
  by (induction ss arbitrary: old) (simp_all add: utf8_text_def)

definition slice_text :: "string slice \<Rightarrow> bool" where
  "slice_text v \<longleftrightarrow> list_all utf8_text (elems v)"

lemma whole_slice [simp]: "whole (slice_json v)"
  by (auto simp: slice_json_def split: option.split)

lemma nesting_slice [simp]: "nesting (slice_json v) \<le> 1"
proof -
  have "nesting_elems (map JStr ss) = 0" for ss by (induction ss) simp_all
  then show ?thesis by (simp add: slice_json_def split: option.split)
qed

lemma set_slice:
  "slice_text v \<Longrightarrow> \<exists>old. set_field (FStrings [] None) (slice_json v) = Some (FStrings old v)"
  by (cases v) (auto simp: slice_json_def slice_text_def decode_elems_texts)

lemma decode_body_text:
  assumes "whole_fields kvs" and "nesting_fields kvs < 10000"
  shows "decode_body fs (json_text (JObj kvs)) = decode_object fs kvs"
proof -
  have "parse_val (2 * length (json_text (JObj kvs)) + 1) (json_text (JObj kvs)) = Some (JObj kvs, [])"
    using parse_text(1) [of "JObj kvs" "[]" "2 * length (json_text (JObj kvs)) + 1"] need_length(1) [of "JObj kvs"] assms(1)
    by simp
  with assms(2) show ?thesis by (simp add: decode_body_def)
qed

text \<open>A claim, an answer and the other bodies of one text.\<close>

lemma decode_text_json:
  "utf8_text n \<Longrightarrow> utf8_text s \<Longrightarrow> decode_text n (json_text (JObj [(n, JStr s)])) = Some s"
  using decode_body_text [of "[(n, JStr s)]" "[(n, FString [])]"]
  by (simp add: decode_text_def field_name_def text_field_def utf8_text_def)

definition create_json :: "create_input \<Rightarrow> json" where
  "create_json i = JObj [(''id'', JStr (InID i)), (''title'', JStr (InTitle i)), (''assignee'', JStr (InAssignee i)),
     (''priority'', JNum (InPriority i)), (''parents'', slice_json (InParents i)), (''skills'', slice_json (InSkills i)),
     (''required_skills'', slice_json (InRequiredSkills i)), (''tags'', slice_json (InTags i)),
     (''body_goal'', JStr (InBodyGoal i)), (''body_context'', JStr (InBodyContext i)),
     (''body_deliverable_format'', JStr (InBodyDeliverableFmt i)),
     (''body_deliverable_path'', JStr (InBodyDeliverablePath i)), (''max_retries'', JNum (InMaxRetries i))]"

definition sendable :: "create_input \<Rightarrow> bool" where
  "sendable i \<longleftrightarrow> list_all utf8_text [InID i, InTitle i, InAssignee i, InBodyGoal i, InBodyContext i,
       InBodyDeliverableFmt i, InBodyDeliverablePath i]
     \<and> list_all slice_text [InParents i, InSkills i, InRequiredSkills i, InTags i]
     \<and> list_all (\<lambda>n. - (2 ^ 63) \<le> n \<and> n < 2 ^ 63) [InPriority i, InMaxRetries i]"

lemma decode_create_json:
  assumes "sendable i"
  shows "decode_create (json_text (create_json i)) = Some i"
proof -
  have keys: "coerce_utf8 k = k" if "k \<in> set (map fst create_fields)" for k
    using that by (auto simp: create_fields_def ascii_def intro!: coerce_ascii)
  from assms obtain p s q t where
    l: "set_field (FStrings [] None) (slice_json (InParents i)) = Some (FStrings p (InParents i))"
    "set_field (FStrings [] None) (slice_json (InSkills i)) = Some (FStrings s (InSkills i))"
    "set_field (FStrings [] None) (slice_json (InRequiredSkills i)) = Some (FStrings q (InRequiredSkills i))"
    "set_field (FStrings [] None) (slice_json (InTags i)) = Some (FStrings t (InTags i))"
    using set_slice by (auto simp: sendable_def) metis
  have n: "nesting (slice_json v) < 10000" for v using nesting_slice [of v] by linarith
  show ?thesis
    using assms l unfolding decode_create_def create_json_def
    by (subst decode_body_text)
      (simp_all add: n sendable_def utf8_text_def create_fields_def field_name_def keys [unfolded create_fields_def]
        create_of_def text_field_def int_field_def list_field_def)
qed

end
