(* ===== verification/HandlerProperties.thy ===== *)
theory HandlerProperties
  imports Demo Bodies
begin

text \<open>
  What the handlers promise their callers: the guard of a claim, the gate protocol, who may
  register, who is let in, and how an overview agrees with the table. The first lemmas follow a
  handler through its reads under any faults.
\<close>

subsection \<open>Reads under faults\<close>

lemma with_task_ok:
  assumes "run_state (with_task c i k) w = (resp, w')" and "RStatus resp \<notin> {404, 500}"
  shows "\<exists>r w1. find_task i (db w) = Some r \<and> db w1 = db w \<and> run_state (k (scanTaskRow r)) w1 = (resp, w')"
proof -
  obtain g w1 where g: "run_state (GetByID i) w = (g, w1)" by (cases "run_state (GetByID i) w")
  from GetByID_cases [OF g] g assms show ?thesis
    by (cases "find_task i (db w)") (auto simp: with_task_def run_state_bind run_reply)
qed

lemma CheckParentsCompleted_cases:
  assumes "run_state (CheckParentsCompleted i) w = (r, w')" and "wf_db (db w)"
    and "find_task i (db w) = Some row"
  shows "db w' = db w \<and> ((\<exists>e. r = Inl e) \<or> r = Inr (parents_ok (db w) row))"
proof -
  obtain g w1 where g: "run_state (GetByID i) w = (g, w1)" by (cases "run_state (GetByID i) w")
  from GetByID_cases [OF g] have d: "db w1 = db w" by simp
  show ?thesis
  proof (cases g)
    case (Inl e)
    with assms(1) g d show ?thesis by (auto simp: CheckParentsCompleted_def run_state_bind run_state_return)
  next
    case (Inr tp)
    with GetByID_cases [OF g] assms(3) have "g = Inr (Some (scanTaskRow row))" by auto
    with assms(1) g have "run_state (AreParentsCompleted (row_parents row)) w1 = (r, w')"
      by (simp add: CheckParentsCompleted_def run_state_bind row_parents_def)
    from AreParentsCompleted_cases [OF this] d assms(2) show ?thesis
      by (simp add: parents_ok_def list_all_iff)
  qed
qed

lemma check_parents_ok:
  assumes "run_state (check_parents i (scanTaskRow r) k) w = (resp, w')" and "RStatus resp \<notin> {403, 500}"
    and "wf_db (db w)" and "find_task i (db w) = Some r"
  shows "\<exists>w1. parents_ok (db w) r \<and> db w1 = db w \<and> run_state k w1 = (resp, w')"
proof (cases "row_parents r = []")
  case True
  with assms(1) show ?thesis by (auto simp: check_parents_def row_parents_def parents_ok_def)
next
  case False
  obtain g w1 where g: "run_state (CheckParentsCompleted i) w = (g, w1)"
    by (cases "run_state (CheckParentsCompleted i) w")
  from CheckParentsCompleted_cases [OF g assms(3,4)] g assms(1,2) False show ?thesis
    by (auto simp: check_parents_def row_parents_def run_state_bind run_reply split: if_splits)
qed

definition agent_skills :: "agent_row \<Rightarrow> string list" where
  "agent_skills a = elems (unmarshal_or_nil (unmarshal_strings (a_skills a)))"

lemma GetByName_cases:
  assumes "run_state (GetByName n) w = (r, w')"
  shows "db w' = db w \<and> ((\<exists>e. r = Inl e) \<or> (r = Inr None \<and> find_agent n (db w) = None) \<or>
    (\<exists>a. find_agent n (db w) = Some a \<and> r = Inr (Some (agent_columns a (unmarshal_or_nil (unmarshal_strings (a_skills a)))))))"
proof -
  obtain q w1 where q: "run_state (query (\<lambda>_. find_agent n)) w = (q, w1)"
    by (cases "run_state (query (\<lambda>_. find_agent n)) w")
  from query_cases [OF q] assms q show ?thesis
    by (auto simp: GetByName_def run_state_bind run_state_return scan_agent_def split: option.splits sum.splits)
qed

definition has_skills :: "database \<Rightarrow> string \<Rightarrow> task_row \<Rightarrow> bool" where
  "has_skills d n r \<longleftrightarrow> (let req = elems (unmarshal_or_nil (unmarshal_strings (t_required_skills r))) in
     req = [] \<or> (case find_agent n d of None \<Rightarrow> False | Some a \<Rightarrow> set req \<subseteq> set (agent_skills a)))"

lemma check_skills_ok:
  assumes "run_state (check_skills n (scanTaskRow r) k) w = (resp, w')" and "RStatus resp \<notin> {403, 404, 500}"
  shows "\<exists>w1. has_skills (db w) n r \<and> db w1 = db w \<and> run_state k w1 = (resp, w')"
proof (cases "elems (unmarshal_or_nil (unmarshal_strings (t_required_skills r))) = []")
  case True
  with assms(1) show ?thesis by (auto simp: check_skills_def has_skills_def)
next
  case False
  obtain g w1 where g: "run_state (GetByName n) w = (g, w1)" by (cases "run_state (GetByName n) w")
  from GetByName_cases [OF g] g assms False show ?thesis
    by (auto simp: check_skills_def has_skills_def agent_skills_def agent_columns_def run_state_bind run_reply
      split: if_splits)
qed

lemma transition_error_ne: "RStatus (transition_error code e) \<noteq> 200"
  using transition_error_status [of code e] by auto

lemma with_ptr_ok:
  assumes "run_state (with_ptr tp k) w = (resp, w')" and "RStatus resp \<noteq> 500"
  shows "\<exists>t. tp = Some t \<and> run_state (k t) w = (resp, w')"
  using assms by (cases tp) (auto simp: with_ptr_def run_reply)

lemma spawns_db:
  "run_state (do { publish_event e i a g s q; go_dispatch h j; reply resp }) w = (r, w') \<Longrightarrow>
     db w' = db w \<and> r = resp"
  by (auto simp: publish_event_def go_dispatch_def run_state_bind run_state_return run_go run_reply split: if_splits)

subsection \<open>Creation\<close>

definition posted :: "string \<Rightarrow> create_input \<Rightarrow> task" where
  "posted uuid i = task_of_input (if InID i = [] then i\<lparr>InID := uuid\<rparr> else i)"

definition accepted :: "config option \<Rightarrow> create_input \<Rightarrow> task \<Rightarrow> database \<Rightarrow> bool" where
  "accepted c i t d \<longleftrightarrow> InTitle i \<noteq> [] \<and> invalid_catalog c i = None \<and> ID t \<notin> task_ids d \<and>
     int4 (Priority t) \<and> int4 (MaxRetries t)"

lemma create_steps:
  "CreateTask_handler h uuid (Some i) =
    (if InTitle i = [] then reply (WriteError 400 ''missing_title'' ''title is required'')
     else (case invalid_catalog (Cfg h) i of
       Some (code, msg) \<Rightarrow> reply (WriteError 400 code msg)
     | None \<Rightarrow> do {
         r \<leftarrow> Create (posted uuid i);
         case r of
           Inl e \<Rightarrow> reply (WriteErrorSafe 500 ''create_failed'')
         | Inr _ \<Rightarrow> do {
             g \<leftarrow> GetByID (ID (posted uuid i));
             case g of
               Inl e \<Rightarrow> reply (WriteErrorSafe 500 ''get_task_failed'')
             | Inr created \<Rightarrow> do {
                 publish_event ev_new_task (ID (posted uuid i)) (Assignee (posted uuid i)) [] [] (RequiredSkills (posted uuid i));
                 go_dispatch h (Dispatch created);
                 reply (WriteJSON 201 (TaskBody created))
               }
           }
       }))"
proof -
  have "invalid_catalog c (if InID i = [] then i\<lparr>InID := u\<rparr> else i) = invalid_catalog c i" for c u
    by (simp add: invalid_catalog_def)
  then show ?thesis by (simp only: CreateTask_handler_def Let_def posted_def option.case)
qed

lemma run_go_dispatch:
  "run_state (go_dispatch h j) w = ((), w\<lparr>jobs := jobs w @ (if HasDispatcher h then [j] else [])\<rparr>)"
  by (cases w) (simp add: go_dispatch_def run_go run_state_return)

text \<open>C26. What a client posts is what is kept: the JSON text of a task's fields, with texts in UTF-8 and numbers of
  64 bits, is decoded as it was meant, and the request answers 201 exactly when the title is not empty,
  skills and tags are in the catalogs, the id is new and the numbers fit their columns; then its answer and
  a later read give every field as posted, lists included, with the status pending, the given or fresh id
  and the server's time. Any other answer leaves the database as it was.\<close>

theorem posted_task_is_kept:
  assumes "faults w = []" and "sendable i"
  shows "\<exists>resp w'. run_state (CreateTask_handler h uuid (decode_create (json_text (create_json i)))) w = (resp, w') \<and>
    (if accepted (Cfg h) i (posted uuid i) (db w)
     then resp = WriteJSON 201 (TaskBody (Some (stamped (now w) (posted uuid i)))) \<and>
       fst (run_state (GetByID (ID (posted uuid i))) w') = Inr (Some (stamped (now w) (posted uuid i)))
     else RStatus resp \<in> {400, 500} \<and> db w' = db w)"
proof -
  let ?t = "posted uuid i"
  from run_Create [OF assms(1), of ?t] obtain d where c:
    "run_state (Create ?t) w = (if insertable ?t (db w) then (Inr (), w\<lparr>db := d\<rparr>) else (Inl (DbError ''insert task''), w))"
    "insertable ?t (db w) \<Longrightarrow> find_task (ID ?t) d = Some (task_row_of (stamped (now w) ?t) (now w))" by blast
  have "Status ?t = []" "RetryCount ?t = 0" by (simp_all add: posted_def task_of_input_def zero_task_def)
  then have a: "accepted (Cfg h) i ?t (db w) \<longleftrightarrow> InTitle i \<noteq> [] \<and> invalid_catalog (Cfg h) i = None \<and> insertable ?t (db w)"
    by (auto simp: accepted_def insertable_def int4_def)
  show ?thesis
  proof (cases "InTitle i \<noteq> [] \<and> invalid_catalog (Cfg h) i = None \<and> insertable ?t (db w)")
    case True
    with assms c a show ?thesis
      by (simp add: decode_create_json create_steps run_state_bind run_GetByID scan_stamped publish_event_def run_go
          run_go_dispatch run_reply)
  next
    case False
    with assms c a show ?thesis
      by (auto simp: decode_create_json create_steps run_state_bind run_reply WriteError_def WriteErrorSafe_def split: option.splits)
  qed
qed

theorem posted_task_is_kept_witness:
  "fst (run_state (CreateTask_handler (Hnd demo) ''u1'' (decode_create (json_text (create_json demo_input)))) demo_world) =
     WriteJSON 201 (TaskBody (Some (stamped 1000 (posted ''u1'' demo_input))))"
proof -
  have "sendable demo_input"
    by (simp add: sendable_def demo_input_def utf8_text_def slice_text_def coerce_utf8.simps [of "[]"] ascii_def)
  moreover have "accepted (Cfg (Hnd demo)) demo_input (posted ''u1'' demo_input) (db demo_world)"
    by (simp add: accepted_def posted_def demo_input_def task_of_input_def invalid_catalog_def task_ids_def int4_def zero_task_def)
  ultimately show ?thesis using posted_task_is_kept [of demo_world demo_input "Hnd demo" "''u1''"] by auto
qed


subsection \<open>Claims\<close>

text \<open>C12. A claim is checked against the agent that its body names, whoever sends it: whatever faults interrupt
  the request, when it answers 200 the task existed and was pending, its parents were distinct and all
  completed, the agent named in the body had every required skill, and the task is now claimed by that
  agent. The name of the authenticated caller is not looked at, although the documents of the API
  say that it is the caller whose skills are checked and who becomes the assignee.\<close>

theorem claim_guarded:
  assumes "run_state (ClaimTask_handler h i (Some a)) w = (resp, w')" and "RStatus resp = 200" and "wf_db (db w)"
  shows "\<exists>r r'. find_task i (db w) = Some r \<and> t_status r = st_pending \<and> parents_ok (db w) r \<and>
    has_skills (db w) a r \<and> find_task i (db w') = Some r' \<and> t_status r' = st_claimed \<and> t_assignee r' = a"
proof -
  let ?k = "\<lambda>t. do {
     r \<leftarrow> ClaimTask i a;
     case r of
       Inl e \<Rightarrow> reply (transition_error ''claim_failed'' e)
     | Inr tp \<Rightarrow> with_ptr tp (\<lambda>t'. do {
         publish_event ev_claimed i a [] [] (RequiredSkills t');
         go_dispatch h (Notify t' (Status t) st_claimed ev_claimed);
         reply (WriteJSON 200 (TaskBody (Some t')))
       })
   }"
  have "run_state (with_task ''get_failed'' i (\<lambda>t. check_parents i t (check_skills a t (?k t)))) w = (resp, w')"
    using assms(1,2) by (auto simp: ClaimTask_handler_def run_reply split: if_splits)
  then obtain r w1 where 1: "find_task i (db w) = Some r" "db w1 = db w"
    "run_state (check_parents i (scanTaskRow r) (check_skills a (scanTaskRow r) (?k (scanTaskRow r)))) w1 = (resp, w')"
    using with_task_ok [OF _ , of "''get_failed''" i _ w resp w'] assms(2) by force
  from check_parents_ok [OF 1(3)] assms(2,3) 1 obtain w2 where 2: "parents_ok (db w) r" "db w2 = db w"
    "run_state (check_skills a (scanTaskRow r) (?k (scanTaskRow r))) w2 = (resp, w')" by auto
  from check_skills_ok [OF 2(3)] assms(2) 2 obtain w3 where 3: "has_skills (db w) a r" "db w3 = db w"
    "run_state (?k (scanTaskRow r)) w3 = (resp, w')" by auto
  obtain q w4 where 4: "run_state (ClaimTask i a) w3 = (q, w4)" by (cases "run_state (ClaimTask i a) w3")
  have "\<exists>tp. q = Inr tp"
    using 3(3) 4 assms(2) transition_error_ne [of "''claim_failed''"]
    by (cases q) (auto simp: run_state_bind run_reply)
  then obtain tp where q: "q = Inr tp" ..
  with 3(3) 4 with_ptr_ok [of tp _ w4 resp w'] assms(2) spawns_db have d: "db w' = db w4"
    by (fastforce simp: run_state_bind)
  from ClaimTask_db [OF 4, of i] q 3(2) have "find_task i (db w4) = find_task i (snd (sql_claim a i (now w3) (db w)))"
    "fst (sql_claim a i (now w3) (db w)) \<noteq> Some 0" by auto
  with 1(1) assms(3) d 2(1) 3(1) show ?thesis
    by (auto simp: claim_row.row claim_row.affected split: if_splits)
qed

theorem claim_guarded_witness:
  "\<exists>r. find_task ''t2'' demo_db = Some r \<and> t_status r = st_pending \<and> parents_ok demo_db r \<and> has_skills demo_db ''ann'' r"
proof -
  have "RStatus (fst (run_state (ClaimTask_handler (Hnd demo) ''t2'' (Some ''ann'')) demo_world)) = 200"
    by (simp add: ClaimTask_handler_def with_task_def run_state_bind run_reply run_GetByID check_parents_def
      check_skills_def run_CheckParentsCompleted parents_ok_def row_parents_def completed_in_def GetByName_def
      run_query_ok run_state_return scan_agent_def agent_columns_def run_ClaimTask with_ptr_def publish_event_def
      go_dispatch_def run_go demo_def)
  then show ?thesis
    using claim_guarded [of "Hnd demo" "''t2''" "''ann''" demo_world] by (metis demo_world_sel(1) prod.collapse wf_demo)
qed

subsection \<open>Gates\<close>

lemma run_with_task:
  "faults w = [] \<Longrightarrow> run_state (with_task c i k) w = (case find_task i (db w) of
     None \<Rightarrow> (WriteError 404 ''not_found'' ''task not found'', w) | Some r \<Rightarrow> run_state (k (scanTaskRow r)) w)"
  by (simp add: with_task_def run_state_bind run_GetByID run_reply split: option.split)

lemma run_with_gate:
  "faults w = [] \<Longrightarrow> run_state (with_gate i j k) w = (case find_gate j (db w) of
     None \<Rightarrow> (WriteError 404 ''gate_not_found'' ''gate not found'', w)
   | Some g \<Rightarrow> if g_task g \<noteq> i then (WriteError 400 ''gate_mismatch'' ''gate does not belong to this task'', w)
       else run_state (k (scan_gate g)) w)"
  by (simp add: with_gate_def run_state_bind run_GetGateByID run_reply scan_gate_def split: option.split)

lemma run_publish_event:
  "run_state (publish_event e i a g s q) w = ((), w\<lparr>jobs := jobs w @ [Publish e i a g s q]\<rparr>)"
  by (simp add: publish_event_def run_go)

lemma go_dispatch_db [simp]: "db (snd (run_state (go_dispatch h j) w)) = db w"
  by (simp add: go_dispatch_def run_go run_state_return)

lemma find_gate_logged [simp]: "find_gate j (logged i ev a x n d) = find_gate j d"
  by (simp add: find_gate_def)

text \<open>Unblocking checks neither the task of the gate nor the status of the task: any gate that is
  answered, of whichever task, takes any existing task to in progress, a completed or failed one
  too, and uses the gate up.\<close>

theorem unblock_reopens_any_task:
  assumes "wf_db (db w)" and "faults w = []" and "find_task i (db w) = Some r"
    and "find_gate j (db w) = Some g" and "g_status g = st_answered" and "j \<noteq> []"
  shows "\<exists>resp w'. run_state (UnblockTask h i (Some j)) w = (resp, w') \<and> RStatus resp = 200 \<and>
    find_task i (db w') = Some (set_status st_in_progress (now w) r) \<and>
    find_gate j (db w') = Some (g\<lparr>g_status := st_resolved\<rparr>)"
proof -
  let ?d = "snd (sql_resolve_gate j (now w) (db w))"
  have wf: "wf_db ?d" using assms(1) by (simp add: sql_resolve_gate_def wf_update_gates)
  have "tasks ?d = tasks (db w)" by (simp add: sql_resolve_gate_def)
  then have t: "find_task i ?d = Some r" using assms(3) find_task_tasks by metis
  have g: "find_gate j ?d = Some (g\<lparr>g_status := st_resolved\<rparr>)"
    using assms(4,5) by (simp add: resolve_row.row)
  have u: "find_gate j (snd (sql_update_status st_in_progress i (now w) ?d)) = find_gate j ?d"
    by (simp add: sql_update_status_def find_gate_def)
  show ?thesis using assms wf t g u
    by (auto simp: UnblockTask_def run_with_task run_state_bind run_ResolveGate run_reply run_UpdateStatus
      run_GetByID status_row.row with_ptr_def run_publish_event go_dispatch_def run_go run_state_return)
qed

theorem unblock_reopens_any_task_witness:
  "\<exists>resp w'. run_state (UnblockTask (Hnd demo) ''t1'' (Some ''g2'')) demo_world = (resp, w') \<and>
    find_task ''t1'' (db w') = Some (set_status st_in_progress 1000 (demo_row ''t1'' st_completed ''bob''))"
  using unblock_reopens_any_task [of demo_world "''t1''" "demo_row ''t1'' st_completed ''bob''" "''g2''"
    "demo_gate ''g2'' ''t4'' st_answered" "Hnd demo"] by auto

text \<open>C31. Answering and approving follow the gate protocol: an answer is accepted exactly for a pending
  gate of this task and makes it asked, an approval exactly for an asked gate of this task and
  makes it answered; refused requests change nothing.\<close>

theorem gate_protocol:
  assumes "wf_db (db w)" and "faults w = []" and "find_gate j (db w) = Some g" and "a \<noteq> []"
  shows "(case run_state (AnswerGate_handler i j (Some a)) w of (resp, w') \<Rightarrow>
      if g_task g = i \<and> g_status g = st_pending
      then RStatus resp = 200 \<and> find_gate j (db w') = Some (g\<lparr>g_status := st_asked, g_answer := a\<rparr>)
      else RStatus resp \<in> {400, 409} \<and> w' = w) \<and>
    (case run_state (ApproveGate i j (Some a)) w of (resp, w') \<Rightarrow>
      if g_task g = i \<and> g_status g = st_asked
      then RStatus resp = 200 \<and> find_gate j (db w') =
        Some (g\<lparr>g_status := st_answered, g_answer := a, g_answered_at := Some (now w)\<rparr>)
      else RStatus resp \<in> {400, 409} \<and> w' = w)"
  using assms by (auto simp: AnswerGate_handler_def ApproveGate_def run_with_gate scan_gate_def run_state_bind
    run_reply run_AskGate run_AnswerGate run_publish_event ask_row.row answer_row.row)

theorem gate_protocol_witness:
  "find_gate ''g1'' (db (snd (run_state (AnswerGate_handler ''t4'' ''g1'' (Some ''yes'')) demo_world))) =
    Some ((demo_gate ''g1'' ''t4'' st_pending)\<lparr>g_status := st_asked, g_answer := ''yes''\<rparr>)"
  using gate_protocol [of demo_world "''g1''" "demo_gate ''g1'' ''t4'' st_pending" "''yes''" "''t4''"]
  by (auto split: prod.splits)

text \<open>C32. Blocking a claimed or running task is two writes that do not stand or fall together: with a
  fresh gate id the request answers 200 and the task is blocked behind a pending gate, and with
  the id of an existing gate it answers 500 and the task is blocked all the same, with no gate of
  this request to unblock it.\<close>

theorem block_outcome:
  assumes "wf_db (db w)" and "faults w = []" and "find_task i (db w) = Some r"
    and "t_status r = st_in_progress \<or> t_status r = st_claimed" and "j \<noteq> []" and "q \<noteq> []"
  shows "\<exists>resp w'. run_state (BlockTask_handler h i (Some (j, q))) w = (resp, w') \<and>
    find_task i (db w') = Some (set_status st_blocked (now w) r) \<and>
    (if find_gate j (db w) = None
     then RStatus resp = 200 \<and> (\<exists>g. find_gate j (db w') = Some g \<and> g_task g = i \<and> g_question g = q \<and> g_status g = st_pending)
     else RStatus resp = 500 \<and> gates (db w') = gates (db w))"
proof -
  define d where "d = logged i ''BlockTask'' [] [] (now w) (snd (sql_block i (now w) (db w)))"
  have b: "run_state (BlockTask i) w = (Inr (Some (scanTaskRow (set_status st_blocked (now w) r))), w\<lparr>db := d\<rparr>)"
    using assms by (simp add: run_BlockTask d_def)
  have t: "find_task i d = Some (set_status st_blocked (now w) r)"
    using assms(3,4) by (auto simp: d_def block_row.row)
  have g: "gates d = gates (db w)" by (simp add: d_def sql_block_def)
  have ids: "i \<in> task_ids d" using t find_task_None [of i d] by auto
  have fresh: "j \<in> g_id ` set (gates d) \<longleftrightarrow> find_gate j (db w) \<noteq> None"
    by (simp add: find_gate_def find_key_None g)
  show ?thesis
  proof (cases "find_gate j (db w) = None")
    case True
    with assms b t g ids fresh show ?thesis
      by (auto simp: BlockTask_handler_def run_with_task run_state_bind run_reply run_GetByID CreateGate_def Let_def
        run_exec_ok run_state_return sql_insert_gate_def with_ptr_def run_publish_event go_dispatch_def run_go
        find_task_def find_gate_def find_append)
  next
    case False
    with assms b t g ids fresh show ?thesis
      by (auto simp: BlockTask_handler_def run_with_task run_state_bind run_reply run_GetByID CreateGate_def Let_def
        run_exec_ok run_state_return sql_insert_gate_def)
  qed
qed

theorem block_outcome_witness:
  "\<exists>resp w'. run_state (BlockTask_handler (Hnd demo) ''t3'' (Some (''g1'', ''ok?''))) demo_world = (resp, w') \<and>
    RStatus resp = 500 \<and> find_task ''t3'' (db w') = Some (set_status st_blocked 1000 demo_t3)"
  using block_outcome [of demo_world "''t3''" demo_t3 "''g1''" "''ok?''" "Hnd demo"] by auto

subsection \<open>From claim to completion\<close>

lemma run_check_parents:
  assumes "wf_db (db w)" and "faults w = []" and "find_task i (db w) = Some r" and "parents_ok (db w) r"
  shows "run_state (check_parents i (scanTaskRow r) k) w = run_state k w"
  using assms by (auto simp: check_parents_def run_state_bind run_CheckParentsCompleted)

lemma run_GetByName:
  "faults w = [] \<Longrightarrow> run_state (GetByName n) w = (case find_agent n (db w) of
     None \<Rightarrow> Inr None | Some a \<Rightarrow> (case scan_agent a of Inl e \<Rightarrow> Inl e | Inr g \<Rightarrow> Inr (Some g)), w)"
  by (simp add: GetByName_def run_state_bind run_state_return run_query_ok split: option.split)

lemma run_check_skills:
  assumes "faults w = []" and "has_skills (db w) a r"
    and "\<And>ar. find_agent a (db w) = Some ar \<Longrightarrow> unmarshal_strings (a_skills ar) \<noteq> None"
  shows "run_state (check_skills a (scanTaskRow r) k) w = run_state k w"
  using assms by (auto simp: check_skills_def has_skills_def Let_def run_state_bind run_GetByName scan_agent_def
    agent_columns_def agent_skills_def split: option.splits)

text \<open>The state a request leaves: the next one can run, and the row of the task is \<open>r\<close>. The agents
  are as they were.\<close>

lemma agents_frames:
  "agents (snd (sql_claim a i n d)) = agents d" "agents (snd (sql_start i n d)) = agents d"
  by (simp_all add: sql_claim_def sql_start_def)

definition left_with :: "string \<Rightarrow> task_row \<Rightarrow> world \<Rightarrow> bool" where
  "left_with i r w \<longleftrightarrow> faults w = [] \<and> wf_db (db w) \<and> find_task i (db w) = Some r"

lemma run_claim_request:
  assumes "left_with i r w" and "t_status r = st_pending" and "parents_ok (db w) r" and "has_skills (db w) a r"
    and "a \<noteq> []" and "\<And>ar. find_agent a (db w) = Some ar \<Longrightarrow> unmarshal_strings (a_skills ar) \<noteq> None"
  shows "\<exists>resp w'. run_state (ClaimTask_handler h i (Some a)) w = (resp, w') \<and> RStatus resp = 200 \<and>
    left_with i ((set_status st_claimed (now w) r)\<lparr>t_assignee := a\<rparr>) w' \<and> agents (db w') = agents (db w)"
  using assms unfolding left_with_def
  by (auto simp: ClaimTask_handler_def run_with_task run_check_parents run_check_skills run_state_bind run_ClaimTask
    run_reply with_ptr_def run_publish_event go_dispatch_def run_go run_state_return claim_row.row claim_row.wf agents_frames)

lemma run_start_request:
  assumes "left_with i r w" and "t_status r = st_claimed"
  shows "\<exists>resp w'. run_state (StartTask_handler h i) w = (resp, w') \<and> RStatus resp = 200 \<and>
    left_with i (set_status st_in_progress (now w) r) w' \<and> agents (db w') = agents (db w)"
  using assms unfolding left_with_def
  by (auto simp: StartTask_handler_def run_with_task run_state_bind run_StartTask
    run_reply with_ptr_def run_publish_event go_dispatch_def run_go run_state_return start_row.row start_row.wf agents_frames)

lemma run_complete_request:
  assumes "left_with i r w" and "t_status r = st_in_progress"
  shows "\<exists>resp w'. run_state (CompleteTask_handler h i (Some x)) w = (resp, w') \<and> RStatus resp = 200 \<and>
    find_task i (db w') = Some (completed (now w) x r)"
proof -
  from assms obtain w1 where c: "run_state (CompleteTask i x) w = (Inr (Some (scanTaskRow (completed (now w) x r))), w1)"
    "tasks (db w1) = tasks (snd (sql_complete x i (now w) (db w)))"
    using run_CompleteTask [of w i r x] by (auto simp: left_with_def)
  have "find_task i (db w1) = Some (completed (now w) x r)"
    using assms find_task_tasks [OF c(2)] by (simp add: left_with_def complete_row.row completed_def)
  with assms c(1) show ?thesis
    by (auto simp: left_with_def CompleteTask_handler_def run_with_task run_state_bind run_reply with_ptr_def
      run_publish_event go_dispatch_def run_go run_state_return)
qed

text \<open>C13. Work can always be finished: a pending task whose parents are completed and whose skills the
  agent has goes through claim, start and completion by three requests that all answer 200, and
  ends completed by that agent with its summary.\<close>

theorem work_can_be_finished:
  assumes "wf_db (db w)" and "faults w = []" and "find_task i (db w) = Some r" and "t_status r = st_pending"
    and "parents_ok (db w) r" and "has_skills (db w) a r" and "a \<noteq> []"
    and "\<And>ar. find_agent a (db w) = Some ar \<Longrightarrow> unmarshal_strings (a_skills ar) \<noteq> None"
  shows "\<exists>r1 r2 r3 w1 w2 w3 r'. run_state (ClaimTask_handler h i (Some a)) w = (r1, w1) \<and>
    run_state (StartTask_handler h i) w1 = (r2, w2) \<and> run_state (CompleteTask_handler h i (Some x)) w2 = (r3, w3) \<and>
    map RStatus [r1, r2, r3] = [200, 200, 200] \<and>
    find_task i (db w3) = Some r' \<and> t_status r' = st_completed \<and> t_assignee r' = a \<and> t_summary r' = x"
proof -
  let ?r1 = "(set_status st_claimed (now w) r)\<lparr>t_assignee := a\<rparr>"
  obtain r1 w1 where 1: "run_state (ClaimTask_handler h i (Some a)) w = (r1, w1)" "RStatus r1 = 200" "left_with i ?r1 w1"
    using run_claim_request [of i r w a h] assms by (auto simp: left_with_def)
  obtain r2 w2 where 2: "run_state (StartTask_handler h i) w1 = (r2, w2)" "RStatus r2 = 200"
    "left_with i (set_status st_in_progress (now w1) ?r1) w2"
    using run_start_request [OF 1(3), of h] by auto
  obtain r3 w3 where 3: "run_state (CompleteTask_handler h i (Some x)) w2 = (r3, w3)" "RStatus r3 = 200"
    "find_task i (db w3) = Some (completed (now w2) x (set_status st_in_progress (now w1) ?r1))"
    using run_complete_request [OF 2(3), of h x] by auto
  from 1 2 3 show ?thesis by (auto simp: completed_def set_status_def)
qed

theorem work_can_be_finished_witness:
  "\<exists>r1 w1. run_state (ClaimTask_handler (Hnd demo) ''t2'' (Some ''ann'')) demo_world = (r1, w1) \<and> RStatus r1 = 200"
proof -
  have "parents_ok demo_db demo_t2" "has_skills demo_db ''ann'' demo_t2"
    by (simp_all add: parents_ok_def row_parents_def completed_in_def has_skills_def agent_skills_def)
  with work_can_be_finished [of demo_world "''t2''" demo_t2 "''ann''" "Hnd demo" "''ok''"] show ?thesis
    by auto
qed

subsection \<open>Agents\<close>

lemma validate_url_db [simp]: "db (snd (run_state (validate_optional_url x url) w)) = db w"
  by (auto simp: validate_optional_url_def ValidateWebhookURL_def resolve_pinned_def Let_def run_state_bind
    run_state_return run_pin_get run_pin_set run_get split: option.splits prod.splits)

lemma filter_upd_where:
  "(\<And>r. k (f r) = n) \<Longrightarrow> filter (\<lambda>r. k r \<noteq> n) (upd_where (\<lambda>r. k r = n) f rs) = filter (\<lambda>r. k r \<noteq> n) rs"
  by (induction rs) auto

lemma sql_upsert_agent_frame:
  "tasks (snd (sql_upsert_agent a n d)) = tasks d \<and> gates (snd (sql_upsert_agent a n d)) = gates d \<and>
    filter (\<lambda>r. a_name r \<noteq> a_name a) (agents (snd (sql_upsert_agent a n d))) = filter (\<lambda>r. a_name r \<noteq> a_name a) (agents d) \<and>
    (fst (sql_upsert_agent a n d) \<noteq> None \<longrightarrow> a_name a \<in> a_name ` set (agents (snd (sql_upsert_agent a n d))))"
proof -
  have "a_name a \<in> a_name ` set (upd_where (\<lambda>r. a_name r = a_name a) (\<lambda>r. a\<lparr>a_last_event_id := a_last_event_id r\<rparr>) rs)"
    if "a_name a \<in> a_name ` set rs" for rs
    using that by (induction rs) auto
  then show ?thesis by (auto simp: sql_upsert_agent_def filter_upd_where)
qed

lemma UpsertAgent_exec:
  assumes "run_state (UpsertAgent x salt nonce a) w = (r, w')"
  shows "(\<exists>e. r = Inl e \<and> w' = w) \<or> (\<exists>s q. run_state (exec (sql_upsert_agent s)) w = (q, w') \<and>
    r = (case q of None \<Rightarrow> Inl (DbError ''upsert agent'') | Some _ \<Rightarrow> Inr ()) \<and> a_name s = AgName a)"
proof (cases "hashToken x salt (AgToken a)")
  case (Inl e)
  with assms show ?thesis by (auto simp: UpsertAgent_def run_state_return)
next
  case (Inr p)
  obtain hash pfx where p: "p = (hash, pfx)" by (cases p)
  show ?thesis
  proof (cases "if AgWebhookSecret a \<noteq> [] then EncryptWebhookSecret x nonce (AgWebhookSecret a) else Inr []")
    case (Inl e)
    with assms Inr p show ?thesis by (auto simp: UpsertAgent_def run_state_return split del: if_split)
  next
    case (Inr secret)
    let ?s = "\<lparr>a_name = AgName a, a_port = AgPort a, a_token = hash, a_token_prefix = pfx,
      a_last_heartbeat = AgLastHeartbeat a, a_skills = marshal_strings (AgSkills a),
      a_webhook_url = AgWebhookURL a, a_webhook_secret = secret, a_last_event_id = None\<rparr>"
    obtain q w1 where "run_state (exec (sql_upsert_agent ?s)) w = (q, w1)"
      by (cases "run_state (exec (sql_upsert_agent ?s)) w")
    moreover from this assms \<open>hashToken x salt (AgToken a) = Inr p\<close> p Inr
    have "w1 = w'" "r = (case q of None \<Rightarrow> Inl (DbError ''upsert agent'') | Some _ \<Rightarrow> Inr ())"
      by (simp_all add: UpsertAgent_def run_state_bind run_state_return split del: if_split)
    ultimately show ?thesis by (intro disjI2 exI [of _ ?s] exI [of _ q]) simp
  qed
qed

lemma UpsertAgent_frame:
  assumes "run_state (UpsertAgent x salt nonce a) w = (r, w')"
  shows "tasks (db w') = tasks (db w) \<and> gates (db w') = gates (db w) \<and>
    filter (\<lambda>r. a_name r \<noteq> AgName a) (agents (db w')) = filter (\<lambda>r. a_name r \<noteq> AgName a) (agents (db w)) \<and>
    (r = Inr () \<longrightarrow> AgName a \<in> a_name ` set (agents (db w')))"
  using UpsertAgent_exec [OF assms]
proof (elim disjE exE conjE)
  fix s q
  assume e: "run_state (exec (sql_upsert_agent s)) w = (q, w')" and s: "a_name s = AgName a"
    and r: "r = (case q of None \<Rightarrow> Inl (DbError ''upsert agent'') | Some _ \<Rightarrow> Inr ())"
  from exec_cases [OF e] sql_upsert_agent_frame [of s "now w" "db w"] s r show ?thesis
    by (auto split: option.splits)
qed simp

text \<open>C33. An agent can only register itself: whatever faults interrupt the request, a registration that
  is not the administrator's leaves the rows of all other agents, the tasks and the gates as they
  were, and when it answers 200 the row written has the caller's own name.\<close>

theorem register_only_itself:
  assumes "run_state (RegisterAgent x cfg salt nonce allow me tok (Some i)) w = (resp, w')" and "me \<noteq> ''admin''"
  shows "tasks (db w') = tasks (db w) \<and> gates (db w') = gates (db w) \<and>
    filter (\<lambda>a. a_name a \<noteq> me) (agents (db w')) = filter (\<lambda>a. a_name a \<noteq> me) (agents (db w)) \<and>
    (RStatus resp = 200 \<longrightarrow> (if RegName i = [] then me else RegName i) = me \<and> me \<in> a_name ` set (agents (db w')))"
proof -
  let ?name = "if RegName i = [] then me else RegName i"
  let ?token = "if RegToken i = [] then tok else RegToken i"
  let ?m = "\<lambda>name. do {
       r \<leftarrow> UpsertAgent x salt nonce (agent_of_input i name ?token);
       reply (case r of
         Inl e \<Rightarrow> WriteErrorSafe 500 ''upsert_failed''
       | Inr _ \<Rightarrow> WriteJSON 200 (AgentBody ((agent_of_input i name ?token)\<lparr>AgToken := [], AgWebhookSecret := []\<rparr>)))
     }"
  obtain v w1 where v: "run_state (validate_optional_url x (RegWebhookURL i)) w = (v, w1)"
    by (cases "run_state (validate_optional_url x (RegWebhookURL i)) w")
  with validate_url_db [of x "RegWebhookURL i" w] have d: "db w1 = db w" by simp
  have "(db w' = db w \<and> RStatus resp \<noteq> 200) \<or> (?name = me \<and> run_state (?m ?name) w1 = (resp, w'))"
  proof (cases "\<exists>c. run_state (reply c) w = (resp, w') \<and> RStatus c \<noteq> 200")
    case True
    then show ?thesis by (auto simp: run_reply)
  next
    case False
    with assms v d show ?thesis unfolding RegisterAgent_def Let_def option.case
      by (auto simp only: run_state_bind run_reply response_simps sum.case prod.case split: if_splits sum.splits)
  qed
  then show ?thesis
  proof (elim disjE conjE)
    assume n: "?name = me" and m: "run_state (?m ?name) w1 = (resp, w')"
    obtain r w2 where u: "run_state (UpsertAgent x salt nonce (agent_of_input i me ?token)) w1 = (r, w2)"
      by (cases "run_state (UpsertAgent x salt nonce (agent_of_input i me ?token)) w1")
    from UpsertAgent_frame [OF u] u m [unfolded n] n d show ?thesis
      by (auto simp: run_state_bind run_reply agent_of_input_def split: sum.splits)
  qed simp
qed

lemma demo_agents_bob:
  "filter (\<lambda>a. a_name a \<noteq> ''bob'') (agents demo_db) = [demo_agent ''ann'' (Some [''go'', ''python''])]"
  "''bob'' \<noteq> ''admin''"
  by simp_all

theorem register_only_itself_witness:
  "filter (\<lambda>a. a_name a \<noteq> ''bob'') (agents (db (snd (run_state (RegisterAgent demo_env None (Some (replicate 16 (CHR ''s'')))
     None None ''bob'' [] (Some \<lparr>RegName = ''ann'', RegPort = 0, RegToken = ''stolen'', RegSkills = None,
       RegWebhookURL = [], RegWebhookSecret = []\<rparr>)) demo_world)))) = [demo_agent ''ann'' (Some [''go'', ''python''])]"
  using register_only_itself [of demo_env None "Some (replicate 16 (CHR ''s''))" None None "''bob''" "[]"
    "\<lparr>RegName = ''ann'', RegPort = 0, RegToken = ''stolen'', RegSkills = None,
       RegWebhookURL = [], RegWebhookSecret = []\<rparr>" demo_world]
  by (metis demo_agents_bob demo_world_sel(1) prod.collapse)


subsection \<open>Authentication\<close>

text \<open>C20. Nobody gets in with a wrong token: under any faults, the middleware lets a request through
  only on the health path, with the administrator's token under the name admin, or under the name
  of an agent whose stored hash verifies the token presented.\<close>

theorem auth_sound:
  assumes "run_state (AuthMiddleware x salt adm path auth) w = (Pass n, w')"
  shows "db w' = db w \<and>
    (case n of
       None \<Rightarrow> path = ''/health'' \<or> path = ''/health/''
     | Some name \<Rightarrow> take (length bearer) auth = bearer \<and>
         ((adm \<noteq> [] \<and> drop (length bearer) auth = adm \<and> name = ''admin'') \<or>
          list_ex (\<lambda>a. a_name a = name \<and> verifyToken x (drop (length bearer) auth) (a_token a) = Inr True) (agents (db w))))"
  using AuthMiddleware_cases [OF assms] by (simp add: presents_token_def split: option.splits)

theorem auth_sound_witness:
  "\<exists>w'. run_state (AuthMiddleware demo_env (Some (replicate 16 (CHR ''s''))) ''adm'' ''/tasks'' ''Bearer adm'') demo_world =
     (Pass (Some ''admin''), w') \<and> db w' = demo_db"
proof -
  have r: "run_state (AuthMiddleware demo_env (Some (replicate 16 (CHR ''s''))) ''adm'' ''/tasks'' ''Bearer adm'') demo_world =
     (Pass (Some ''admin''), demo_world)"
    by (simp add: AuthMiddleware_def bearer_def run_state_return)
  with auth_sound [OF r] show ?thesis by simp
qed

subsection \<open>The rate limiter\<close>

text \<open>C37. Rate limits are per client: what the limiter answers to one client over any interleaving of
  requests is what that client's own token bucket would answer to its requests alone.\<close>

theorem limiter_isolates_clients:
  "map snd (filter (\<lambda>p. fst p = name) (allow_all fresh bucket NewRateLimiter rs)) =
     bucket_answers fresh bucket (map snd (filter (\<lambda>p. fst p = name) rs))"
  by (simp add: allow_all_client NewRateLimiter_def)

subsection \<open>The dashboard\<close>

text \<open>C38. The dashboard is consistent: the request answers 200 with every task of the table in the group
  of its status, each group as large as the count shown for its status, and a total that is the
  number of tasks.\<close>

theorem dashboard_consistent:
  assumes "wf_db (db w)" and "faults w = []"
  shows "\<exists>c gs n. run_state (Dashboard m hasRepo) w = (WriteJSON 200 (DashboardBody c gs n (CTotal c)), w) \<and>
    CTotal c = int (length (tasks (db w))) \<and>
    map (\<lambda>s. int (length (status_group s gs))) task_statuses =
      [CPending c, CClaimed c, CInProgress c, CBlocked c, CCompleted c, CFailed c] \<and>
    list_all (\<lambda>r. scan_columns r \<in> set (status_group (t_status r) gs)) (tasks (db w))"
proof -
  from run_GetTaskCounts [OF assms] obtain c where c: "run_state GetTaskCounts w = (Inr c, w)"
    "map (\<lambda>s. int (count_where (\<lambda>r. t_status r = s) (tasks (db w)))) task_statuses =
      [CPending c, CClaimed c, CInProgress c, CBlocked c, CCompleted c, CFailed c]"
    "CTotal c = int (length (tasks (db w)))"
    by (elim exE conjE)
  let ?gs = "groupTasksByStatus (map scan_columns (tasks (db w)))"
  have l: "run_state (List [] [] []) w = (Inr (built (map scan_columns (tasks (db w)))), w)"
    using assms(2) by (simp add: List_def run_state_bind run_state_return run_query_ok list_where_def)
  obtain n where n: "run_state (count_stale m hasRepo) w = (n, w)"
    using assms(2) by (cases "0 < m \<and> hasRepo")
      (auto simp: count_stale_def ListStale_def run_state_bind run_state_return run_query_ok run_get)
  have s: "Status (scan_columns r) = t_status r" for r by (simp add: scan_columns_def)
  have st: "t_status r \<noteq> []" if "r \<in> set (tasks (db w))" for r
    using assms(1) that by (auto simp: wf_db_def task_statuses_def)
  have "length (status_group k ?gs) = count_where (\<lambda>r. t_status r = k) (tasks (db w))" for k
    using st by (auto simp: groupTasksByStatus_group count_where_def filter_map comp_def s
      intro!: arg_cong [where f = length] filter_cong)
  moreover have "scan_columns r \<in> set (status_group (t_status r) ?gs)" if "r \<in> set (tasks (db w))" for r
    using that st by (auto simp: groupTasksByStatus_group s)
  moreover have "run_state (Dashboard m hasRepo) w = (WriteJSON 200 (DashboardBody c ?gs n (CTotal c)), w)"
    using c(1) l n by (simp add: Dashboard_def run_state_bind run_reply)
  ultimately show ?thesis using c
    by (intro exI [of _ c] exI [of _ ?gs] exI [of _ n]) (simp add: list_all_iff)
qed

theorem dashboard_consistent_witness:
  "\<exists>c gs n. run_state (Dashboard 10 True) demo_world = (WriteJSON 200 (DashboardBody c gs n (CTotal c)), demo_world) \<and>
    CTotal c = 4"
  using dashboard_consistent [of demo_world 10 True] by auto

subsection \<open>What the code does against its intent\<close>

text \<open>A heartbeat is counted for the agent its body names, whoever sends it.\<close>

theorem heartbeat_for_another:
  "run_state (Heartbeat None ''ann'' (Some ''bob'')) demo_world =
    (WriteJSON 200 (TextBody [(''status'', ''ok'')]),
     demo_world\<lparr>db := snd (sql_agent_heartbeat 1000 ''bob'' 1000 demo_db)\<rparr>)"
  by (simp add: Heartbeat_def refused_def Let_def UpdateHeartbeat_def run_state_bind run_state_return run_reply run_get
    run_exec_ok sql_agent_heartbeat_def)

text \<open>When the read that follows the update fails, a claim answers 409 although the task is claimed.\<close>

theorem claim_refused_but_done:
  "\<exists>w'. run_state (ClaimTask_handler (Hnd demo) ''t2'' (Some ''ann''))
      (demo_world\<lparr>faults := replicate 6 False @ [True]\<rparr>) = (WriteErrorSafe 409 ''claim_failed'', w') \<and>
    map_option t_status (find_task ''t2'' (db w')) = Some st_claimed"
  by (simp add: numeral_eq_Suc ClaimTask_handler_def with_task_def GetByID_def check_parents_def check_skills_def
    CheckParentsCompleted_def AreParentsCompleted_def GetByName_def ClaimTask_def logTaskEvent_def InsertEvent_def
    exec_simps scan_agent_def agent_columns_def sql_claim_def demo_def transition_error_def sql_insert_event_def
    find_task_def task_ids_def)

end
