(* ===== verification/ArtifactProperties.thy ===== *)
theory ArtifactProperties
  imports Demo
begin

text \<open>
  What the artifact handlers promise over any object store that keeps the contract
  \<open>object_storage\<close>, and what they do when the store is disabled.
\<close>

lemma run_AddArtifact:
  assumes "wf_db (db w)" and "faults w = []" and "find_task i (db w) = Some r"
    and "decode_list (t_artifacts_json r) = Some l"
  shows "run_state (AddArtifact i a) w =
    (Inr (), w\<lparr>db := snd (sql_set_artifacts (marshal_artifacts (append_slice l a)) i (now w) (db w))\<rparr>)"
  using assms by (simp add: AddArtifact_def getArtifactsJSON_def SetArtifactsJSON_def run_state_bind run_state_return
    run_query_ok run_exec_ok artifacts_row.affected)

text \<open>C29. What is uploaded can be listed and downloaded: after an upload that answers 201, the task lists
  the artifact after its old ones with the size of the data, and the download of its key gives the
  data with its content type, or 500 while the store does not answer.\<close>

theorem upload_then_download:
  assumes "object_storage st holds" and "enabledOp c = Some st" and "wf_db (db w)" and "faults w = []"
    and "find_task i (db w) = Some r" and "decode_list (t_artifacts_json r) = Some l"
    and "run_state (UploadArtifact c uuid i (File n d ct)) (w, s) = (resp, (w', s'))" and "RStatus resp = 201"
  shows "\<exists>a. resp = WriteJSON 201 (ArtifactBody a) \<and> Key a = artifact_key i uuid n \<and> Size a = int (length d) \<and>
    fst (run_state (ListArtifacts i) (w', s')) = WriteJSON 200 (ArtifactsBody (elems l @ [a])) \<and>
    fst (run_state (DownloadArtifact c i (Key a)) (w', s')) \<in>
      {WriteJSON 200 (DataBody ct (int (length d)) d), WriteErrorSafe 500 ''download_failed''}"
proof -
  let ?k = "artifact_key i uuid n"
  let ?a = "\<lparr>Key = ?k, Bucket = RBucket c, Size = int (length d), ContentType = ct\<rparr>"
  note add = run_AddArtifact [OF assms(3-6), of ?a]
  obtain u s1 where u: "Upload c ?k d ct s = (u, s1)" by (cases "Upload c ?k d ct s")
  with assms add have r: "resp = WriteJSON 201 (ArtifactBody ?a)" "u = Inr ()" "s' = s1"
    and w': "w' = snd (run_state (AddArtifact i ?a) w)"
    by (auto simp: UploadArtifact_def with_task_row_def run_state_bind run_state_return run_on_db run_on_store
      run_GetByID Let_def split: if_splits sum.splits)
  have row: "find_task i (db w') = Some (r\<lparr>t_artifacts_json := marshal_artifacts (append_slice l ?a)\<rparr>)" "faults w' = []"
    using w' add assms(4,5) by (simp_all add: artifacts_row.row)
  have "Download c ?k s' \<in> {Inl StoreError, Inr (d, ct, int (length d))}"
    using object_storage.upload_download [OF assms(1,2)] u r by blast
  moreover have "?k \<noteq> []" by (simp add: artifact_key_def)
  ultimately have "fst (run_state (DownloadArtifact c i (Key ?a)) (w', s')) \<in>
      {WriteJSON 200 (DataBody ct (int (length d)) d), WriteErrorSafe 500 ''download_failed''}"
    using row by (auto simp: DownloadArtifact_def with_task_row_def run_state_bind run_state_return run_on_db
      run_ask_store run_GetByID)
  moreover have "fst (run_state (ListArtifacts i) (w', s')) = WriteJSON 200 (ArtifactsBody (elems l @ [?a]))"
    using row by (simp add: ListArtifacts_def with_task_row_def run_state_bind run_state_return run_on_db
      run_GetByID GetArtifacts_def getArtifactsJSON_def run_query_ok marshal_artifacts_brackets append_slice_def)
  ultimately show ?thesis using r by (intro exI [of _ ?a]) simp
qed

definition demo_bucket :: "objects rustfs_client" where
  "demo_bucket = NewClientWithStore (minio_ops \<lparr>msClient = memory_client, msBucket = ''b''\<rparr>) ''b''"

lemma demo_bucket_op [simp]: "enabledOp demo_bucket = Some (minio_ops \<lparr>msClient = memory_client, msBucket = ''b''\<rparr>)"
  by (simp add: demo_bucket_def)

lemma demo_bucket_calls [simp]:
  "Enabled demo_bucket"
  "Upload demo_bucket k d ct s = (Inr (), ((''b'', k), d, ct) # s)"
  "Delete demo_bucket k s = (Inr (), filter (\<lambda>p. fst p \<noteq> (''b'', k)) s)"
  "ListObjects demo_bucket p s =
    Inr (map (\<lambda>e. snd (fst e)) (filter (\<lambda>e. fst (fst e) = ''b'' \<and> take (length p) (snd (fst e)) = p) s))"
  by (simp_all add: Enabled_def Upload_def Delete_def ListObjects_def minio_ops_def ms_Upload_def ms_Delete_def
    ms_ListObjects_def ms_done_def memory_client_def collect_keys_Inr)
    (simp add: demo_bucket_def NewClientWithStore_def)

theorem upload_then_download_witness:
  "\<exists>resp w' s' a. run_state (UploadArtifact demo_bucket ''u'' ''t1'' (File ''f'' ''data'' ''text'')) (demo_world, []) = (resp, (w', s')) \<and>
    resp = WriteJSON 201 (ArtifactBody a) \<and> Size a = 4 \<and> RStatus (fst (run_state (ListArtifacts ''t1'') (w', s'))) = 200"
proof -
  let ?m = "run_state (UploadArtifact demo_bucket ''u'' ''t1'' (File ''f'' ''data'' ''text'')) (demo_world, [])"
  have t: "decode_list (t_artifacts_json (demo_row ''t1'' st_completed ''bob'')) = Some None"
    by (simp add: demo_row_def task_row_of_def zero_task_def decode_list_def)
  obtain resp w' s' where r: "?m = (resp, (w', s'))" by (metis prod.exhaust)
  then have "RStatus resp = 201"
    using run_AddArtifact [of demo_world "''t1''", OF _ _ _ t]
    by (auto simp: UploadArtifact_def with_task_row_def run_state_bind run_state_return run_on_db run_on_store
      run_GetByID Let_def)
  from upload_then_download [OF minio.object_storage_axioms demo_bucket_op _ _ _ t r this] r show ?thesis by auto
qed

text \<open>C17. A cleanup that answers 200 leaves no object of the task: no key under the task's prefix is held
  any more, every other key is held as before, and the task's list of artifacts is empty.\<close>

theorem cleanup_empties:
  assumes "object_storage st holds" and "enabledOp c = Some st" and "wf_db (db w)" and "faults w = []"
    and "find_task i (db w) = Some r"
    and "run_state (CleanupArtifacts c i) (w, s) = (resp, (w', s'))" and "RStatus resp = 200"
  shows "holds s' = (\<lambda>k. if take (length i + 1) k = i @ ''/'' then None else holds s k) \<and>
    fst (run_state (ListArtifacts i) (w', s')) = WriteJSON 200 (ArtifactsBody [])"
proof -
  have en: "Enabled c" using assms(2) by (simp add: enabledOp_def Enabled_def split: if_splits)
  obtain ks where ks: "ListObjects c (i @ ''/'') s = Inr ks"
    using assms en by (cases "ListObjects c (i @ ''/'') s") (auto simp: CleanupArtifacts_def with_task_row_def run_state_bind run_state_return
      run_on_db run_ask_store run_GetByID)
  obtain u s1 where d: "delete_all c ks s = (u, s1)" by (cases "delete_all c ks s")
  have set: "run_state (SetArtifactsJSON i ''[]'') w = (Inr (), w\<lparr>db := snd (sql_set_artifacts ''[]'' i (now w) (db w))\<rparr>)"
    using assms by (simp add: SetArtifactsJSON_def run_state_bind run_state_return run_exec_ok artifacts_row.affected)
  have r: "u = Inr ()" "s' = s1" "w' = w\<lparr>db := snd (sql_set_artifacts ''[]'' i (now w) (db w))\<rparr>"
    using assms(4-) en ks d set by (cases u; auto simp: CleanupArtifacts_def with_task_row_def run_state_bind run_state_return
      run_on_db run_ask_store run_on_store run_GetByID)+
  have "holds s' = (\<lambda>k. if take (length i + 1) k = i @ ''/'' then None else holds s k)"
    using object_storage.list_and_delete [OF assms(1,2) ks] d r by simp
  moreover have "fst (run_state (ListArtifacts i) (w', s')) = WriteJSON 200 (ArtifactsBody [])"
    using assms(4,5) r by (simp add: ListArtifacts_def with_task_row_def run_state_bind run_state_return run_on_db
      run_GetByID GetArtifacts_def getArtifactsJSON_def run_query_ok artifacts_row.row)
  ultimately show ?thesis by blast
qed

theorem cleanup_empties_witness:
  "\<exists>resp w' s'. run_state (CleanupArtifacts demo_bucket ''t1'') (demo_world, [((''b'', ''t1/k''), ''d'', ''text'')]) = (resp, (w', s')) \<and>
    map_of s' (''b'', ''t1/k'') = None"
proof -
  let ?s = "[((''b'', ''t1/k''), ''d'', ''text'')]"
  obtain resp w' s' where r: "run_state (CleanupArtifacts demo_bucket ''t1'') (demo_world, ?s) = (resp, (w', s'))"
    by (metis prod.exhaust)
  then have "RStatus resp = 200"
    by (auto simp: CleanupArtifacts_def with_task_row_def run_state_bind run_state_return run_on_db run_on_store
      run_ask_store run_GetByID SetArtifactsJSON_def run_exec_ok artifacts_row.affected)
  from cleanup_empties [OF minio.object_storage_axioms demo_bucket_op _ _ _ r this] have
    "map_of s' (''b'', ''t1/k'') = None" by (simp add: fun_eq_iff)
  with r show ?thesis by blast
qed

text \<open>With the store disabled an upload answers 201 and records an artifact that no store has.\<close>

theorem upload_without_store:
  assumes "wf_db (db w)" and "faults w = []" and "find_task i (db w) = Some r" and "\<not> REnabled c"
    and "decode_list (t_artifacts_json r) = Some l" and "d \<noteq> []"
  shows "\<exists>a w'. run_state (UploadArtifact c uuid i (File n d ct)) (w, s) = (WriteJSON 201 (ArtifactBody a), (w', s))"
  using assms by (auto simp: UploadArtifact_def with_task_row_def run_state_bind run_state_return run_on_db
    run_on_store run_GetByID Let_def Upload_def enabledOp_def AddArtifact_def getArtifactsJSON_def SetArtifactsJSON_def
    run_query_ok run_exec_ok artifacts_row.affected)

theorem upload_without_store_witness:
  "\<exists>a w'. run_state (UploadArtifact \<lparr>RStore = None, RBucket = [], REnabled = False\<rparr> ''u'' ''t1''
      (File ''f'' ''data'' ''text'')) (demo_world, []) = (WriteJSON 201 (ArtifactBody a), (w', []))"
  by (rule upload_without_store [of _ _ "demo_row ''t1'' st_completed ''bob''" _ None])
    (simp_all add: demo_row_def task_row_of_def zero_task_def decode_list_def)

text \<open>A download asks for a task and a key, and does not ask whether the key is one of that task.\<close>

theorem download_through_any_task:
  assumes "faults w = []" and "find_task i (db w) = Some r" and "enabledOp c = Some st" and "k \<noteq> []"
    and "os_download st k s = Inr (d, ct, n)"
  shows "fst (run_state (DownloadArtifact c i k) (w, s)) = WriteJSON 200 (DataBody ct n d)"
  using assms by (simp add: DownloadArtifact_def with_task_row_def run_state_bind run_state_return run_on_db
    run_ask_store run_GetByID Download_def)

end
