(* ===== verification/Router.thy ===== *)
theory Router
  imports System Bodies
begin

text \<open>
  \<^verbatim>\<open>internal/api/router.go\<close>: which handler serves which method and path, behind the
  authentication. The route matching of the chi library is a parameter: it is given the routes
  in the order of their registration and picks one of them with the values of its URL
  parameters. Serving a request is a run of the operations of \<open>System\<close>.
\<close>

subsection \<open>Requests\<close>

text \<open>
  What the handlers read of a request. The body is its bytes, which each handler decodes into its
  struct (\<open>Bodies\<close>), and the query is the text after the question mark (\<open>Urls\<close>); an upload is seen
  as the form it is parsed to.
\<close>

record request =
  Method :: string
  Path :: string
  Authorization :: string
  AgentHeader :: string
  AuthTokenHeader :: string
  RawQuery :: string
  Body :: string
  BodyForm :: form

definition query_get :: "request \<Rightarrow> string \<Rightarrow> string" where
  "query_get r k = (case query_values (RawQuery r) k of v # _ \<Rightarrow> v | [] \<Rightarrow> [])"

definition query_all :: "request \<Rightarrow> string \<Rightarrow> string list" where
  "query_all r k = query_values (RawQuery r) k"

text \<open>
  What serving a request draws from outside: the id of a new task or file, salt and nonce, the
  limiter's answers, the server's reading of a timestamp and the pings of database and Redis.
\<close>

record draws =
  NewUUID :: string
  Salt :: "string option"
  Nonce :: "string option"
  Limiter :: "(string \<Rightarrow> bool) option"
  ParseTs :: "string \<Rightarrow> time option"
  PingDB :: "bool option"
  PingRedis :: "bool option"

subsection \<open>Routes\<close>

datatype endpoint =
    EHealth | EEvents | EDispatch | ECreateTask | EListTasks | EGetTask | EClaim | EStart | EBlock
  | EUnblock | EComplete | EFail | ETaskHeartbeat | ETaskEvents | EGraph | EAnswer | EApprove | EGates
  | EDashboard | EUpload | EListOrDownload | EDelete | ECleanup | ERegister | EHeartbeat | EGetAgent
  | EGetCursor | ESetCursor

type_synonym route = "(string \<times> string) \<times> endpoint"

text \<open>Which of the repositories and the object store the router was given.\<close>

record parts =
  HasTasks :: bool
  HasGates :: bool
  HasAgents :: bool
  HasStore :: bool

definition task_routes :: "route list" where
  "task_routes = [
     ((''POST'', ''/tasks''), ECreateTask), ((''GET'', ''/tasks''), EListTasks),
     ((''GET'', ''/tasks/{id}''), EGetTask), ((''POST'', ''/tasks/{id}/claim''), EClaim),
     ((''POST'', ''/tasks/{id}/start''), EStart), ((''POST'', ''/tasks/{id}/block''), EBlock),
     ((''POST'', ''/tasks/{id}/unblock''), EUnblock), ((''POST'', ''/tasks/{id}/complete''), EComplete),
     ((''POST'', ''/tasks/{id}/fail''), EFail), ((''POST'', ''/tasks/{id}/heartbeat''), ETaskHeartbeat),
     ((''GET'', ''/tasks/{id}/events''), ETaskEvents), ((''GET'', ''/tasks/{id}/graph''), EGraph),
     ((''POST'', ''/tasks/{id}/gates/{gate_id}/answer''), EAnswer),
     ((''POST'', ''/tasks/{id}/gates/{gate_id}/approve''), EApprove),
     ((''GET'', ''/tasks/{id}/gates''), EGates)]"

definition feed_routes :: "route list" where
  "feed_routes = [((''GET'', ''/events''), EEvents), ((''GET'', ''/tasks/dispatch''), EDispatch)]"

definition artifact_routes :: "route list" where
  "artifact_routes = [
     ((''POST'', ''/tasks/{id}/artifacts''), EUpload), ((''GET'', ''/tasks/{id}/artifacts''), EListOrDownload),
     ((''DELETE'', ''/tasks/{id}/artifacts''), EDelete), ((''POST'', ''/tasks/{id}/artifacts/cleanup''), ECleanup)]"

definition agent_routes :: "route list" where
  "agent_routes = [
     ((''POST'', ''/agents''), ERegister), ((''POST'', ''/agents/heartbeat''), EHeartbeat),
     ((''GET'', ''/agents/{name}''), EGetAgent), ((''GET'', ''/agents/me/cursor''), EGetCursor),
     ((''POST'', ''/agents/me/cursor''), ESetCursor)]"

definition routes :: "parts \<Rightarrow> route list" where
  "routes p = [((''GET'', ''/health''), EHealth)]
     @ (if HasTasks p then feed_routes @ (if HasGates p then task_routes else []) else [])
     @ (if HasTasks p \<and> HasAgents p then [((''GET'', ''/dashboard''), EDashboard)] else [])
     @ (if HasStore p \<and> HasTasks p then artifact_routes else [])
     @ (if HasAgents p then agent_routes else [])"

text \<open>The minutes after which the dashboard counts an agent as stale: 10 without a configuration.\<close>

definition dashboard_minutes :: "handler \<Rightarrow> int" where
  "dashboard_minutes h = (case Cfg h of None \<Rightarrow> 10 | Some c \<Rightarrow> AgentStaleMin c)"

text \<open>What a handler is called with: the URL parameters and the name the authentication gave.\<close>

fun endpoint_op :: "handler \<Rightarrow> draws \<Rightarrow> request \<Rightarrow> string \<Rightarrow> (string \<Rightarrow> string) \<Rightarrow> endpoint \<Rightarrow> op" where
  "endpoint_op h v r name url EHealth = OpHealth (PingDB v) (PingRedis v)"
| "endpoint_op h v r name url EEvents = OpEvents (ParseTs v) (query_get r ''since'') (query_get r ''agent'')
     (query_get r ''limit'') (query_all r ''after_id'')"
| "endpoint_op h v r name url EDispatch = OpDispatch (query_get r ''agent'')"
| "endpoint_op h v r name url ECreateTask = OpCreate (NewUUID v) (decode_create (Body r))"
| "endpoint_op h v r name url EListTasks = OpList (query_get r ''status'') (query_get r ''assignee'')
     (query_all r ''required_skills'')"
| "endpoint_op h v r name url EGetTask = OpGet (url ''id'')"
| "endpoint_op h v r name url EClaim = OpClaim (url ''id'') (decode_text ''assignee'' (Body r))"
| "endpoint_op h v r name url EStart = OpStart (url ''id'')"
| "endpoint_op h v r name url EBlock = OpBlock (url ''id'') (decode_block (Body r))"
| "endpoint_op h v r name url EUnblock = OpUnblock (url ''id'') (decode_text ''gate_id'' (Body r))"
| "endpoint_op h v r name url EComplete = OpComplete (url ''id'') (decode_text ''summary'' (Body r))"
| "endpoint_op h v r name url EFail = OpFail (url ''id'') (decode_text ''reason'' (Body r))"
| "endpoint_op h v r name url ETaskHeartbeat = OpTaskHeartbeat (url ''id'')"
| "endpoint_op h v r name url ETaskEvents = OpTaskEvents (url ''id'')"
| "endpoint_op h v r name url EGraph = OpGraph (url ''id'')"
| "endpoint_op h v r name url EAnswer = OpAnswer (url ''id'') (url ''gate_id'') (decode_text ''answer'' (Body r))"
| "endpoint_op h v r name url EApprove = OpApprove (url ''id'') (url ''gate_id'') (decode_text ''answer'' (Body r))"
| "endpoint_op h v r name url EGates = OpGates (url ''id'')"
| "endpoint_op h v r name url EDashboard = OpDashboard (dashboard_minutes h)"
| "endpoint_op h v r name url EUpload = OpUpload (NewUUID v) (url ''id'') (BodyForm r)"
| "endpoint_op h v r name url EListOrDownload = OpListOrDownload (url ''id'')
     (if query_all r ''key'' = [] then None else Some (query_get r ''key''))"
| "endpoint_op h v r name url EDelete = OpDelete (url ''id'') (query_get r ''key'')"
| "endpoint_op h v r name url ECleanup = OpCleanup (url ''id'')"
| "endpoint_op h v r name url ERegister = OpRegister (Salt v) (Nonce v) (Limiter v) name (AuthTokenHeader r) (decode_register (Body r))"
| "endpoint_op h v r name url EHeartbeat = OpHeartbeat (Limiter v) name (decode_text ''name'' (Body r))"
| "endpoint_op h v r name url EGetAgent = OpGetAgent (url ''name'')"
| "endpoint_op h v r name url EGetCursor = OpGetCursor name"
| "endpoint_op h v r name url ESetCursor = OpSetCursor name (decode_cursor (Body r))"

subsection \<open>Serving\<close>

text \<open>
  The matcher, and the library's own answer when no route matches.
\<close>

record matcher =
  RouteOf :: "route list \<Rightarrow> string \<Rightarrow> string \<Rightarrow> (endpoint \<times> (string \<Rightarrow> string)) option"
  Unrouted :: response

text \<open>
  Without an agent repository there is no authentication. A request that passes on the health
  path keeps its header \<^verbatim>\<open>X-Agent-Name\<close> as the client sent it; for any other the middleware
  sets it. Every endpoint answers; \<open>NoBody\<close> stands for a handler that would not.
\<close>

definition authenticate :: "'s program \<Rightarrow> parts \<Rightarrow> draws \<Rightarrow> request \<Rightarrow> (world, auth_result) state" where
  "authenticate y p v r = (if HasAgents p
     then AuthMiddleware (Ext y) (Salt v) (AdminToken y) (Path r) (Authorization r)
     else State_Monad.return (Pass None))"

definition route_request :: "'s program \<Rightarrow> matcher \<Rightarrow> parts \<Rightarrow> draws \<Rightarrow> request \<Rightarrow> string \<Rightarrow> (world \<times> 's, response) state" where
  "route_request y m p v r name = (case RouteOf m (routes p) (Method r) (Path r) of
     None \<Rightarrow> State_Monad.return (Unrouted m)
   | Some (e, url) \<Rightarrow> do {
       resp \<leftarrow> run_op y (endpoint_op (Hnd y) v r name url e);
       State_Monad.return (case resp of None \<Rightarrow> WriteJSON 200 NoBody | Some x \<Rightarrow> x)
     })"

definition serve :: "'s program \<Rightarrow> matcher \<Rightarrow> parts \<Rightarrow> draws \<Rightarrow> request \<Rightarrow> (world \<times> 's, response) state" where
  "serve y m p v r = do {
     a \<leftarrow> on_db (authenticate y p v r);
     case a of
       Reject resp \<Rightarrow> State_Monad.return resp
     | Pass n \<Rightarrow> route_request y m p v r (case n of None \<Rightarrow> AgentHeader r | Some name \<Rightarrow> name)
   }"

text \<open>
  The middleware around: the request logger reads the clock before and after the handlers, and
  the content type is JSON unless a download sets its own.
\<close>

record log_line =
  LogMethod :: string
  LogPath :: string
  LogDuration :: time

definition clock :: "(world \<times> 's, time) state" where
  "clock = State (\<lambda>(w, s). (now w, (w, s)))"

definition RequestLogger :: "request \<Rightarrow> (world \<times> 's, response) state \<Rightarrow> (world \<times> 's, response \<times> log_line) state" where
  "RequestLogger r next_handler = do {
     start \<leftarrow> clock;
     resp \<leftarrow> next_handler;
     stop \<leftarrow> clock;
     State_Monad.return (resp, \<lparr>LogMethod = Method r, LogPath = Path r, LogDuration = stop - start\<rparr>)
   }"

definition JSONContentType :: "response \<Rightarrow> string" where
  "JSONContentType resp = (case RBody resp of DataBody contentType _ _ \<Rightarrow> contentType | _ \<Rightarrow> ''application/json'')"

definition handle_request :: "'s program \<Rightarrow> matcher \<Rightarrow> parts \<Rightarrow> draws \<Rightarrow> request \<Rightarrow>
    (world \<times> 's, string \<times> response \<times> log_line) state" where
  "handle_request y m p v r = do {
     x \<leftarrow> RequestLogger r (serve y m p v r);
     State_Monad.return (JSONContentType (fst x), x)
   }"

lemma run_clock [exec_simps]: "run_state clock c = (now (fst c), c)"
  by (cases c) (simp add: clock_def)

lemma handle_request_serves:
  "run_state (serve y m p v r) c = (resp, c') \<Longrightarrow>
     run_state (handle_request y m p v r) c = ((JSONContentType resp, resp,
       \<lparr>LogMethod = Method r, LogPath = Path r, LogDuration = now (fst c') - now (fst c)\<rparr>), c')"
  by (simp add: handle_request_def RequestLogger_def run_state_bind run_state_return run_clock)

subsection \<open>Serving is running\<close>

lemma endpoint_answers:
  "\<exists>x. fst (run_state (run_op y (endpoint_op h v r name url e)) c) = Some x"
  by (cases e; cases c) (auto simp: answer_def answer_store_def run_state_bind run_state_return run_on_db split: prod.split)

lemma run_authenticate:
  assumes "HasAgents p"
  shows "snd (run_state (on_db (authenticate y p v r)) c) = step_op y (OpAuth (Salt v) (Path r) (Authorization r)) c"
  using assms by (cases c) (simp add: authenticate_def step_op_def quiet_def run_state_bind run_state_return split: prod.split)

lemma run_route:
  "snd (run_state (route_request y m p v r name) c) \<in> {c} \<union> {step_op y (endpoint_op (Hnd y) v r name url e) c | url e. True}"
  by (cases "RouteOf m (routes p) (Method r) (Path r)")
    (auto simp: route_request_def step_op_def run_state_bind run_state_return split: prod.split, metis snd_conv)

lemma serve_runs:
  assumes "HasAgents p"
  shows "runs y True c (snd (run_state (serve y m p v r) c))"
proof -
  let ?c1 = "step_op y (OpAuth (Salt v) (Path r) (Authorization r)) c"
  have 1: "runs y True c ?c1" by (rule runs_step [OF runs_refl]) simp
  have "runs y True c (snd (run_state (route_request y m p v r name) ?c1))" for name
    using run_route [of y m p v r name ?c1] 1 runs_step [OF 1] by auto
  moreover obtain a where a: "run_state (on_db (authenticate y p v r)) c = (a, ?c1)"
    using run_authenticate [OF assms, of y v r c] by (metis prod.collapse)
  ultimately show ?thesis using 1
    by (cases a) (auto simp: serve_def run_state_bind run_state_return)
qed

fun serve_all :: "'s program \<Rightarrow> matcher \<Rightarrow> parts \<Rightarrow> (draws \<times> request) list \<Rightarrow> (world \<times> 's, response list) state" where
  "serve_all y m p [] = State_Monad.return []"
| "serve_all y m p ((v, r) # rs) = do {
     x \<leftarrow> serve y m p v r;
     xs \<leftarrow> serve_all y m p rs;
     State_Monad.return (x # xs)
   }"

lemma runs_trans: "runs y u b c \<Longrightarrow> runs y u a b \<Longrightarrow> runs y u a c"
  by (induction rule: runs.induct) (auto intro: runs_step)

lemma serve_all_runs: "HasAgents p \<Longrightarrow> runs y True c (snd (run_state (serve_all y m p rs) c))"
proof (induction rs arbitrary: c)
  case Nil
  then show ?case by (simp add: run_state_return runs_refl)
next
  case (Cons q rs)
  obtain v r where q: "q = (v, r)" by (cases q)
  obtain x c1 where 1: "run_state (serve y m p v r) c = (x, c1)" by (cases "run_state (serve y m p v r) c")
  with serve_runs [OF Cons.prems, of y c m v r] Cons.IH [OF Cons.prems, of c1] show ?case
    by (auto simp: q run_state_bind run_state_return split: prod.split) (metis runs_trans snd_conv)
qed

subsection \<open>Who can change anything\<close>

text \<open>
  What the documentation of chi says of a match: the route is one of the registered ones, for
  the method, and its pattern fits the path segment by segment, a parameter taking any segment
  that is not empty.
\<close>

fun split_path :: "string \<Rightarrow> string \<Rightarrow> string list" where
  "split_path acc [] = [rev acc]"
| "split_path acc (c # cs) = (if c = CHR ''/'' then rev acc # split_path [] cs else split_path (c # acc) cs)"

definition segments :: "string \<Rightarrow> string list" where
  "segments s = split_path [] s"

definition fits :: "string \<Rightarrow> string \<Rightarrow> bool" where
  "fits pat path \<longleftrightarrow> list_all2 (\<lambda>p s. (p \<noteq> [] \<and> hd p = CHR ''{'' \<and> s \<noteq> []) \<or> p = s) (segments pat) (segments path)"

definition matcher_ok :: "matcher \<Rightarrow> bool" where
  "matcher_ok m \<longleftrightarrow> (\<forall>rs meth path e url. RouteOf m rs meth path = Some (e, url) \<longrightarrow>
     list_ex (\<lambda>r. snd r = e \<and> fst (fst r) = meth \<and> fits (snd (fst r)) path) rs)"

text \<open>
  And what it says of a path that one route alone fits: the route is found, and the parameters
  have the values of their segments.
\<close>

fun path_params :: "string list \<Rightarrow> string list \<Rightarrow> (string \<times> string) list" where
  "path_params (p # ps) (s # ss) = (if p \<noteq> [] \<and> hd p = CHR ''{'' then [(butlast (tl p), s)] else []) @ path_params ps ss"
| "path_params _ _ = []"

definition matcher_finds :: "matcher \<Rightarrow> bool" where
  "matcher_finds m \<longleftrightarrow> (\<forall>rs meth path pat e.
     filter (\<lambda>r. fst (fst r) = meth \<and> fits (snd (fst r)) path) rs = [((meth, pat), e)] \<longrightarrow>
     distinct (map fst (path_params (segments pat) (segments path))) \<longrightarrow>
     (\<exists>url. RouteOf m rs meth path = Some (e, url) \<and>
       list_all (\<lambda>(k, v). url k = v) (path_params (segments pat) (segments path))))"

lemma split_path_end: "CHR ''/'' \<notin> set s \<Longrightarrow> split_path acc s = [rev acc @ s]"
  by (induction s arbitrary: acc) auto

lemma split_path_slash:
  "CHR ''/'' \<notin> set s \<Longrightarrow> split_path acc (s @ CHR ''/'' # rest) = (rev acc @ s) # split_path [] rest"
  by (induction s arbitrary: acc) auto

text \<open>The paths of a task's own operations fit one route each.\<close>

lemma task_path_segments:
  assumes "CHR ''/'' \<notin> set i" and "CHR ''/'' \<notin> set z"
  shows "segments (''/tasks/'' @ i @ CHR ''/'' # z) = [[], ''tasks'', i, z]"
  using split_path_slash [OF assms(1), of "[]" z] split_path_end [OF assms(2), of "[]"] by (simp add: segments_def)

definition task_operation :: "string \<Rightarrow> route \<Rightarrow> bool" where
  "task_operation z r \<longleftrightarrow> fst (fst r) = ''POST'' \<and> (case segments (snd (fst r)) of
     [a, b, c, d] \<Rightarrow> d = z \<or> (d \<noteq> [] \<and> hd d = CHR ''{'') | _ \<Rightarrow> False)"

lemma task_operations:
  "filter (task_operation ''claim'') task_routes = [((''POST'', ''/tasks/{id}/claim''), EClaim)]"
  "filter (task_operation ''start'') task_routes = [((''POST'', ''/tasks/{id}/start''), EStart)]"
  "filter (task_operation ''complete'') task_routes = [((''POST'', ''/tasks/{id}/complete''), EComplete)]"
  by code_simp+

lemma no_task_operations:
  "list_all (\<lambda>z. list_all (\<lambda>rs. filter (task_operation z) rs = []) [[((''GET'', ''/health''), EHealth)], feed_routes,
     [((''GET'', ''/dashboard''), EDashboard)], artifact_routes, agent_routes]) [''claim'', ''start'', ''complete'']"
  by code_simp

lemma filter_routes:
  assumes "HasTasks p" and "HasGates p" and "z \<in> {''claim'', ''start'', ''complete''}"
  shows "filter (task_operation z) (routes p) = filter (task_operation z) task_routes"
proof -
  have none: "filter (task_operation z) rs = []"
    if "rs \<in> {[((''GET'', ''/health''), EHealth)], feed_routes, [((''GET'', ''/dashboard''), EDashboard)], artifact_routes, agent_routes}" for rs
    using no_task_operations that assms(3) by (simp only: list_all_iff list.set)
  show ?thesis
    unfolding routes_def filter_append if_distrib [of "filter (task_operation z)"] filter.simps(1)
    using assms(1,2) none by (simp del: filter.simps)
qed

lemma task_path_fits:
  assumes i: "i \<noteq> []" "CHR ''/'' \<notin> set i" and p: "HasTasks p" "HasGates p"
    and z: "(z, e) \<in> {(''claim'', EClaim), (''start'', EStart), (''complete'', EComplete)}"
  shows "filter (\<lambda>r. fst (fst r) = ''POST'' \<and> fits (snd (fst r)) (''/tasks/'' @ i @ CHR ''/'' # z)) (routes p) =
    [((''POST'', ''/tasks/{id}/'' @ z), e)]"
proof -
  let ?f = "\<lambda>r :: route. fst (fst r) = ''POST'' \<and> fits (snd (fst r)) (''/tasks/'' @ i @ CHR ''/'' # z)"
  have sz: "CHR ''/'' \<notin> set z" using z by auto
  note s = task_path_segments [OF i(2) sz, simplified]
  have "?f r \<Longrightarrow> task_operation z r" for r
    by (auto simp: fits_def s task_operation_def list_all2_Cons2)
  then have "filter ?f (routes p) = filter ?f (filter (task_operation z) (routes p))"
    by (auto intro: filter_cong)
  also have "filter (task_operation z) (routes p) = [((''POST'', ''/tasks/{id}/'' @ z), e)]"
    using z filter_routes [OF p, of z] task_operations by auto
  also have "filter ?f [((''POST'', ''/tasks/{id}/'' @ z), e)] = [((''POST'', ''/tasks/{id}/'' @ z), e)]"
  proof -
    have "segments (''/tasks/{id}/'' @ z) = [[], ''tasks'', ''{id}'', z]"
      using task_path_segments [of "''{id}''" z] sz by simp
    then show ?thesis using i(1) by (simp add: fits_def s)
  qed
  finally show ?thesis .
qed

text \<open>Only the health check is routed on the path that needs no token.\<close>

lemma health_fits:
  "list_all (\<lambda>r. fits (snd (fst r)) ''/health'' \<or> fits (snd (fst r)) ''/health/'' \<longrightarrow> snd r = EHealth)
     (routes \<lparr>HasTasks = True, HasGates = True, HasAgents = True, HasStore = True\<rparr>)"
  by code_simp

lemma routes_subset: "set (routes p) \<subseteq> set (routes \<lparr>HasTasks = True, HasGates = True, HasAgents = True, HasStore = True\<rparr>)"
  by (simp add: routes_def) blast

lemma health_route:
  assumes "matcher_ok m" and "RouteOf m (routes p) meth path = Some (e, url)"
    and "path = ''/health'' \<or> path = ''/health/''"
  shows "e = EHealth"
proof -
  have "list_all (\<lambda>r. fits (snd (fst r)) path \<longrightarrow> snd r = EHealth) (routes p)"
    using assms(3) health_fits routes_subset [of p] unfolding list_all_iff by blast
  moreover have "list_ex (\<lambda>r. snd r = e \<and> fst (fst r) = meth \<and> fits (snd (fst r)) path) (routes p)"
    using assms(1,2) unfolding matcher_ok_def by blast
  ultimately show ?thesis by (auto simp: list_ex_iff list_all_iff)
qed

lemma storage_ping_store: "snd (storage_ping (Some c) s) \<in> {s, snd (EnsureBucket c s)}"
  by (auto simp: storage_ping_def split: prod.split sum.split)

lemma route_health_keeps:
  assumes "\<And>e url. RouteOf m (routes p) (Method r) (Path r) = Some (e, url) \<Longrightarrow> e = EHealth"
    and "run_state (route_request y m p v r name) (w, s) = (resp, (w', s'))"
  shows "w' = w \<and> s' \<in> {s, snd (EnsureBucket (Store y) s)}"
proof (cases "RouteOf m (routes p) (Method r) (Path r)")
  case None
  with assms(2) show ?thesis by (simp add: route_request_def run_state_return)
next
  case (Some q)
  obtain url where q: "q = (EHealth, url)" using assms(1) Some by (cases q) blast
  obtain x s1 where c: "Check (PingDB v) (PingRedis v) (Some (Store y)) s = (x, s1)"
    by (cases "Check (PingDB v) (PingRedis v) (Some (Store y)) s")
  then have "s1 = snd (storage_ping (Some (Store y)) s)" by (auto simp: Check_def split: prod.splits)
  with Some q c assms(2) storage_ping_store [of "Store y" s] show ?thesis
    by (auto simp: route_request_def answer_store_def run_state_bind run_state_return run_on_store)
qed

end
