(* ===== verification/RequestProperties.thy ===== *)
theory RequestProperties
  imports HandlerProperties Router
begin

text \<open>
  What holds of whole requests, authentication and routing included: only who presents a token
  changes anything, and work is done by requests over HTTP. The demo matcher takes the first
  route that fits, with the values of its parameters.
\<close>

definition first_route :: matcher where
  "first_route = \<lparr>RouteOf = (\<lambda>rs meth path. map_option
       (\<lambda>r. (snd r, \<lambda>k. case map_of (path_params (segments (snd (fst r))) (segments path)) k of Some v \<Rightarrow> v | None \<Rightarrow> []))
       (find (\<lambda>r. fst (fst r) = meth \<and> fits (snd (fst r)) path) rs)),
     Unrouted = WriteError 404 ''not_found'' []\<rparr>"

lemma first_route_ok: "matcher_ok first_route"
  by (auto simp: matcher_ok_def first_route_def list_ex_iff find_Some_iff) (metis nth_mem fst_conv snd_conv)

definition demo_parts :: parts where
  "demo_parts = \<lparr>HasTasks = True, HasGates = True, HasAgents = True, HasStore = True\<rparr>"

definition demo_draws :: draws where
  "demo_draws = \<lparr>NewUUID = ''u'', Salt = Some (replicate 16 (CHR ''s'')), Nonce = Some (replicate 12 (CHR ''n'')),
     Limiter = None, ParseTs = (\<lambda>_. None), PingDB = Some True, PingRedis = Some True\<rparr>"

definition demo_request :: "string \<Rightarrow> request" where
  "demo_request auth = \<lparr>Method = ''POST'', Path = ''/tasks/t2/claim'', Authorization = auth, AgentHeader = [],
     AuthTokenHeader = [], RawQuery = [], Body = json_text (JObj [(''assignee'', JStr ''ann'')]), BodyForm = BadForm\<rparr>"

lemma demo_request_sel [simp]:
  "HasAgents demo_parts" "Path (demo_request auth) = ''/tasks/t2/claim''" "Authorization (demo_request auth) = auth"
  by (simp_all add: demo_parts_def demo_request_def)

text \<open>Serving any sequence of requests is a run of the state machine, so what holds of runs holds of it.\<close>

theorem requests_are_runs:
  assumes "HasAgents p"
  shows "runs y True c (snd (run_state (serve_all y m p rs) c)) \<and>
    (wf_db (db (fst c)) \<longrightarrow> wf_db (db (fst (snd (run_state (serve_all y m p rs) c)))))"
  using serve_all_runs [OF assms] runs_writes [OF serve_all_runs [OF assms]] db_writes_wf by blast

text \<open>C14. Only who presents a token can change anything but make the bucket: under any faults a request is
  refused with 401 and changes neither database nor store, or it has the path of the health check,
  leaves the database alone and does to the store what \<open>EnsureBucket\<close> does or nothing, or it presented
  the administrator's token or one that an agent's stored hash verifies, and what ran is the handler
  of its route under that name.\<close>

theorem only_tokens_change_anything:
  assumes "HasAgents p" and "matcher_ok m" and "run_state (serve y m p v r) (w, s) = (resp, (w', s'))"
  shows "(RStatus resp = 401 \<and> db w' = db w \<and> s' = s) \<or>
    (Path r \<in> {''/health'', ''/health/''} \<and> db w' = db w \<and> s' \<in> {s, snd (EnsureBucket (Store y) s)}) \<or>
    (\<exists>name w1. presents_token (Ext y) (AdminToken y) (db w) (Authorization r) name \<and> db w1 = db w \<and>
      run_state (route_request y m p v r name) (w1, s) = (resp, (w', s')))"
proof -
  obtain a w1 where a: "run_state (AuthMiddleware (Ext y) (Salt v) (AdminToken y) (Path r) (Authorization r)) w = (a, w1)"
    by (cases "run_state (AuthMiddleware (Ext y) (Salt v) (AdminToken y) (Path r) (Authorization r)) w")
  note c = AuthMiddleware_cases [OF a]
  have s: "run_state (serve y m p v r) (w, s) = (case a of
      Reject x \<Rightarrow> (x, (w1, s))
    | Pass n \<Rightarrow> run_state (route_request y m p v r (case n of None \<Rightarrow> AgentHeader r | Some name \<Rightarrow> name)) (w1, s))"
    using assms(1) a by (cases a) (simp_all add: serve_def authenticate_def run_state_bind run_state_return run_on_db)
  show ?thesis
  proof (cases a)
    case (Reject x)
    with AuthMiddleware_401 [OF a [unfolded Reject]] c s assms(3) show ?thesis by simp
  next
    case (Pass n)
    show ?thesis
    proof (cases n)
      case None
      then have path: "Path r = ''/health'' \<or> Path r = ''/health/''" using c Pass by simp
      have run: "run_state (route_request y m p v r (AgentHeader r)) (w1, s) = (resp, (w', s'))"
        using s None Pass assms(3) by simp
      have "w' = w1 \<and> s' \<in> {s, snd (EnsureBucket (Store y) s)}"
        by (rule route_health_keeps [OF _ run]) (rule health_route [OF assms(2) _ path])
      with path c show ?thesis by simp
    next
      case (Some name)
      with Pass c s assms(3) show ?thesis by auto
    qed
  qed
qed

theorem only_tokens_change_anything_witness:
  "\<exists>resp w' s'. run_state (serve demo first_route demo_parts demo_draws (demo_request [])) (demo_world, ()) = (resp, (w', s')) \<and>
    RStatus resp = 401 \<and> db w' = demo_db"
proof -
  obtain resp w' s' where r: "run_state (serve demo first_route demo_parts demo_draws (demo_request [])) (demo_world, ()) = (resp, (w', s'))"
    by (metis prod.exhaust)
  have "\<not> presents_token x adm d [] name" for x adm d name by (simp add: presents_token_def bearer_def)
  with only_tokens_change_anything [OF _ first_route_ok r] r show ?thesis by simp
qed

subsection \<open>Work over HTTP\<close>

definition post :: "string \<Rightarrow> string \<Rightarrow> string \<Rightarrow> request" where
  "post auth path body = \<lparr>Method = ''POST'', Path = path, Authorization = auth, AgentHeader = [],
     AuthTokenHeader = [], RawQuery = [], Body = body, BodyForm = BadForm\<rparr>"

text \<open>What an agent sends to work on a task: it claims, starts and completes it.\<close>

definition work_requests :: "string \<Rightarrow> string \<Rightarrow> string \<Rightarrow> string \<Rightarrow> request list" where
  "work_requests auth i a x =
    [post auth (''/tasks/'' @ i @ ''/claim'') (json_text (JObj [(''assignee'', JStr a)])),
     post auth (''/tasks/'' @ i @ ''/start'') [],
     post auth (''/tasks/'' @ i @ ''/complete'') (json_text (JObj [(''summary'', JStr x)]))]"

definition admitted :: "'s program \<Rightarrow> world \<Rightarrow> draws \<Rightarrow> request \<Rightarrow> bool" where
  "admitted y w v r \<longleftrightarrow> (case fst (run_state (AuthMiddleware (Ext y) (Salt v) (AdminToken y) (Path r) (Authorization r)) w) of
     Pass (Some name) \<Rightarrow> True | _ \<Rightarrow> False)"

lemma AuthMiddleware_quiet:
  assumes "faults w = []"
  shows "snd (run_state (AuthMiddleware x salt adm path auth) w) = w"
  using assms by (auto simp: AuthMiddleware_def GetByToken_def getByTokenPrefix_def Let_def run_state_bind run_state_return
      run_query_ok split: sum.splits)

lemma AuthMiddleware_agents:
  assumes "faults w = []" and "faults w1 = []" and "agents (db w1) = agents (db w)"
  shows "fst (run_state (AuthMiddleware x salt adm path auth) w1) = fst (run_state (AuthMiddleware x salt adm path auth) w)"
  using assms by (auto simp: AuthMiddleware_def GetByToken_def getByTokenPrefix_def Let_def run_state_bind run_state_return
      run_query_ok split: sum.splits)

lemma serve_post:
  assumes "matcher_finds m" and "HasTasks p" "HasGates p" "HasAgents p" and "i \<noteq> []" "CHR ''/'' \<notin> set i"
    and z: "(z, e) \<in> {(''claim'', EClaim), (''start'', EStart), (''complete'', EComplete)}"
    and "faults w = []" and "admitted y w v (post auth (''/tasks/'' @ i @ CHR ''/'' # z) body)"
    and run: "\<And>n url. url ''id'' = i \<Longrightarrow>
      run_state (run_op y (endpoint_op (Hnd y) v (post auth (''/tasks/'' @ i @ CHR ''/'' # z) body) n url e)) (w, s) =
        (Some resp, (w', s))"
  shows "run_state (serve y m p v (post auth (''/tasks/'' @ i @ CHR ''/'' # z) body)) (w, s) = (resp, (w', s))"
proof -
  let ?path = "''/tasks/'' @ i @ CHR ''/'' # z" let ?r = "post auth ?path body"
  have sz: "CHR ''/'' \<notin> set z" using z by auto
  have params: "path_params (segments (''/tasks/{id}/'' @ z)) (segments ?path) = [(''id'', i)]"
    using task_path_segments [of "''{id}''" z] task_path_segments [OF assms(6) sz] sz z by auto
  have distinct: "distinct (map fst (path_params (segments (''/tasks/{id}/'' @ z)) (segments ?path)))"
    unfolding params by simp
  from task_path_fits [OF assms(5,6,2,3) z] assms(1)
  have "\<exists>url. RouteOf m (routes p) ''POST'' ?path = Some (e, url) \<and>
      list_all (\<lambda>(k, v). url k = v) (path_params (segments (''/tasks/{id}/'' @ z)) (segments ?path))"
    using distinct unfolding matcher_finds_def by blast
  then obtain url where url: "RouteOf m (routes p) ''POST'' ?path = Some (e, url)" "url ''id'' = i"
    unfolding params by auto
  obtain n where n: "run_state (AuthMiddleware (Ext y) (Salt v) (AdminToken y) ?path auth) w = (Pass (Some n), w)"
    using assms(9) AuthMiddleware_quiet [OF assms(8)]
    by (auto simp: admitted_def post_def prod_eq_iff split: auth_result.splits option.splits)
  have "run_state (route_request y m p v ?r n) (w, s) = (resp, (w', s))"
    using url run [of url n] by (simp add: route_request_def run_state_bind run_state_return post_def)
  with n assms(4) show ?thesis
    by (simp add: serve_def authenticate_def run_state_bind run_state_return run_on_db post_def)
qed

lemma admitted_later:
  "admitted y w v r \<Longrightarrow> faults w = [] \<Longrightarrow> faults w1 = [] \<Longrightarrow> agents (db w1) = agents (db w) \<Longrightarrow> admitted y w1 v r"
  using AuthMiddleware_agents [of w w1] by (simp add: admitted_def)

text \<open>C15. Work is done over HTTP: three requests as an agent sends them - a claim and a completion with JSON
  bodies and a start - are let in with a valid token, routed by any matcher that finds the one route
  that fits, decoded and answered 200 each, and the task, pending before with its parents completed
  and its skills held by the agent named, is completed with that agent and the summary sent.\<close>

theorem work_over_http:
  assumes "matcher_finds m" and "HasTasks p" "HasGates p" "HasAgents p" and "i \<noteq> []" "CHR ''/'' \<notin> set i"
    and "utf8_text a" "utf8_text x" "a \<noteq> []"
    and "wf_db (db w)" and "faults w = []" and "find_task i (db w) = Some r" and "t_status r = st_pending"
    and "parents_ok (db w) r" and "has_skills (db w) a r"
    and "\<And>ar. find_agent a (db w) = Some ar \<Longrightarrow> unmarshal_strings (a_skills ar) \<noteq> None"
    and "list_all2 (admitted y w) vs (work_requests auth i a x)"
  shows "\<exists>rs w' r'. run_state (serve_all y m p (zip vs (work_requests auth i a x))) (w, s) = (rs, (w', s)) \<and>
    map RStatus rs = [200, 200, 200] \<and> find_task i (db w') = Some r' \<and> t_status r' = st_completed \<and>
    t_assignee r' = a \<and> t_summary r' = x"
proof -
  let ?claim = "json_text (JObj [(''assignee'', JStr a)])" and ?complete = "json_text (JObj [(''summary'', JStr x)])"
  let ?path = "\<lambda>z. ''/tasks/'' @ i @ CHR ''/'' # z"
  obtain v1 v2 v3 where vs: "vs = [v1, v2, v3]"
    and adm: "admitted y w v1 (post auth (?path ''claim'') ?claim)"
      "admitted y w v2 (post auth (?path ''start'') [])" "admitted y w v3 (post auth (?path ''complete'') ?complete)"
    using assms(17) unfolding work_requests_def by (auto simp: list_all2_Cons2)
  have "utf8_text ''assignee''" "utf8_text ''summary''" by (simp_all add: utf8_text_def ascii_def)
  then have decoded: "decode_text ''assignee'' ?claim = Some a" "decode_text ''summary'' ?complete = Some x"
    using assms(7,8) by (blast intro: decode_text_json)+
  note post = serve_post [OF assms(1-6)]
  let ?r1 = "(set_status st_claimed (now w) r)\<lparr>t_assignee := a\<rparr>"
  obtain q1 w1 where 1: "run_state (ClaimTask_handler (Hnd y) i (Some a)) w = (q1, w1)" "RStatus q1 = 200"
    "left_with i ?r1 w1" "agents (db w1) = agents (db w)"
    using run_claim_request [of i r w a "Hnd y"] assms(9-16) by (auto simp: left_with_def)
  have s1: "run_state (serve y m p v1 (post auth (?path ''claim'') ?claim)) (w, s) = (q1, (w1, s))"
    by (rule post [OF _ assms(11) adm(1), where e = EClaim])
      (simp_all add: answer_def run_state_bind run_state_return run_on_db post_def decoded [simplified] 1)
  obtain q2 w2 where 2: "run_state (StartTask_handler (Hnd y) i) w1 = (q2, w2)" "RStatus q2 = 200"
    "left_with i (set_status st_in_progress (now w1) ?r1) w2" "agents (db w2) = agents (db w1)"
    using run_start_request [OF 1(3), of "Hnd y"] by auto
  have f: "faults w1 = []" "faults w2 = []" using 1(3) 2(3) by (simp_all add: left_with_def)
  have s2: "run_state (serve y m p v2 (post auth (?path ''start'') [])) (w1, s) = (q2, (w2, s))"
    by (rule post [OF _ f(1) admitted_later [OF adm(2) assms(11) f(1) 1(4)], where e = EStart])
      (simp_all add: answer_def run_state_bind run_state_return run_on_db 2)
  have agents2: "agents (db w2) = agents (db w)" using 1(4) 2(4) by simp
  obtain q3 w3 where 3: "run_state (CompleteTask_handler (Hnd y) i (Some x)) w2 = (q3, w3)" "RStatus q3 = 200"
    "find_task i (db w3) = Some (completed (now w2) x (set_status st_in_progress (now w1) ?r1))"
    using run_complete_request [OF 2(3), of "Hnd y" x] by auto
  have s3: "run_state (serve y m p v3 (post auth (?path ''complete'') ?complete)) (w2, s) = (q3, (w3, s))"
    by (rule post [OF _ f(2) admitted_later [OF adm(3) assms(11) f(2) agents2], where e = EComplete])
      (simp_all add: answer_def run_state_bind run_state_return run_on_db post_def decoded [simplified] 3)
  have "run_state (serve_all y m p (zip vs (work_requests auth i a x))) (w, s) = ([q1, q2, q3], (w3, s))"
    using s1 s2 s3 by (simp add: vs work_requests_def run_state_bind run_state_return)
  with 1(2) 2(2) 3(2,3) show ?thesis by (auto simp: completed_def set_status_def)
qed

lemma find_single: "filter P rs = [r] \<Longrightarrow> find P rs = Some r"
  by (induction rs) (auto split: if_splits)

lemma first_route_finds: "matcher_finds first_route"
  unfolding matcher_finds_def
proof (intro allI impI)
  fix rs :: "route list" and meth path pat e
  let ?ps = "path_params (segments pat) (segments path)"
  assume one: "filter (\<lambda>r. fst (fst r) = meth \<and> fits (snd (fst r)) path) rs = [((meth, pat), e)]"
    and d: "distinct (map fst ?ps)"
  have "map_of ?ps k = Some v" if "(k, v) \<in> set ?ps" for k v using d that by simp
  then have "list_all (\<lambda>(k, v). (case map_of ?ps k of Some v \<Rightarrow> v | None \<Rightarrow> []) = v) ?ps"
    by (auto simp: list_all_iff)
  with find_single [OF one] show "\<exists>url. RouteOf first_route rs meth path = Some (e, url) \<and> list_all (\<lambda>(k, v). url k = v) ?ps"
    by (simp add: first_route_def)
qed

lemma demo_admitted:
  "take 6 path = ''/tasks'' \<Longrightarrow> admitted demo w v (post ''Bearer adm'' path body)"
  by (auto simp: admitted_def post_def AuthMiddleware_def bearer_def demo_def run_state_return)

theorem work_over_http_witness:
  "\<exists>rs w' r'. run_state (serve_all demo first_route demo_parts (zip (replicate 3 demo_draws)
       (work_requests ''Bearer adm'' ''t2'' ''ann'' ''done''))) (demo_world, ()) = (rs, (w', ())) \<and>
     map RStatus rs = [200, 200, 200] \<and> find_task ''t2'' (db w') = Some r' \<and> t_status r' = st_completed \<and>
     t_assignee r' = ''ann'' \<and> t_summary r' = ''done''"
proof (rule work_over_http [OF first_route_finds, where r = demo_t2])
  show "parents_ok (db demo_world) demo_t2" "has_skills (db demo_world) ''ann'' demo_t2"
    by (simp_all add: parents_ok_def row_parents_def completed_in_def has_skills_def agent_skills_def)
  show "list_all2 (admitted demo demo_world) (replicate 3 demo_draws) (work_requests ''Bearer adm'' ''t2'' ''ann'' ''done'')"
    by (simp add: work_requests_def numeral_3_eq_3 demo_admitted)
qed (auto simp: demo_parts_def utf8_text_def ascii_def)

end
