(* ===== verification/Frames.thy ===== *)
theory Frames
  imports Dispatcher
begin

text \<open>
  What an operation leaves alone: a part of the world that statements, the clock and the pin
  cache do not touch is kept by every operation made of those. The posts and the Redis lists
  are such parts, and the goroutines of the dispatcher are followed through them.
\<close>

definition keeps :: "(world \<Rightarrow> 'f) \<Rightarrow> (world, 'a) state \<Rightarrow> bool" where
  "keeps sel m \<longleftrightarrow> (\<forall>w. sel (snd (run_state m w)) = sel w)"

named_theorems keeps_intros \<open>operations that keep a part of the world\<close>

lemma keeps_run: "keeps sel m \<Longrightarrow> run_state m w = (x, w') \<Longrightarrow> sel w' = sel w"
  by (metis keeps_def snd_conv)

lemma keeps_return [keeps_intros]: "keeps sel (State_Monad.return x)"
  by (simp add: keeps_def run_state_return)

lemma keeps_get [keeps_intros]: "keeps sel State_Monad.get"
  by (simp add: keeps_def run_get)

lemma keeps_bind [keeps_intros]:
  "keeps sel m \<Longrightarrow> (\<And>x. keeps sel (f x)) \<Longrightarrow> keeps sel (State_Monad.bind m f)"
  by (auto simp: keeps_def run_state_bind split: prod.split) (metis snd_conv)

lemma keeps_cases [keeps_intros]:
  "keeps sel m \<Longrightarrow> keeps sel m' \<Longrightarrow> keeps sel (if b then m else m')"
  "keeps sel m \<Longrightarrow> (\<And>x. keeps sel (f x)) \<Longrightarrow> keeps sel (case z of None \<Rightarrow> m | Some x \<Rightarrow> f x)"
  "(\<And>e. keeps sel (g e)) \<Longrightarrow> (\<And>x. keeps sel (h x)) \<Longrightarrow> keeps sel (case y of Inl e \<Rightarrow> g e | Inr x \<Rightarrow> h x)"
  "(\<And>a b. keeps sel (k a b)) \<Longrightarrow> keeps sel (case p of (a, b) \<Rightarrow> k a b)"
  by (cases z; cases y; cases p; simp)+

locale untouched =
  fixes sel :: "world \<Rightarrow> 'f"
  assumes db: "sel (w\<lparr>db := d\<rparr>) = sel w"
    and faults: "sel (w\<lparr>faults := fs\<rparr>) = sel w"
    and clock: "sel (w\<lparr>now := n\<rparr>) = sel w"
    and pins: "sel (w\<lparr>pin_ips := i, pin_ttls := t\<rparr>) = sel w"
begin

lemma keeps_exec: "keeps sel (exec s)"
  by (auto simp: keeps_def exec_def db faults split: list.split prod.split)

lemma keeps_query: "keeps sel (query q)"
  unfolding query_def by (rule keeps_exec)

lemma keeps_readers: "keeps sel (GetByID i)" "keeps sel (GetByName a)"
  unfolding GetByID_def GetByName_def by (intro keeps_intros keeps_query)+

lemma keeps_sleep: "keeps sel (sleep n)"
  by (simp add: keeps_def sleep_def clock)

lemma keeps_validate: "keeps sel (ValidateWebhookURL x url)"
proof -
  have "keeps sel (pin_get h)" "keeps sel (pin_set h i t)" for h i t
    by (simp_all add: keeps_def pin_get_def pin_set_def pins)
  then show ?thesis
    unfolding ValidateWebhookURL_def resolve_pinned_def Let_def by (intro keeps_intros)
qed

end

interpretation post_frame: untouched posts
  by unfold_locales simp_all

interpretation list_frame: untouched rlists
  by unfold_locales simp_all

lemma keeps_posts_redis: "(\<And>w. posts (snd (f w)) = posts w) \<Longrightarrow> keeps posts (redis f)"
proof -
  assume f: "\<And>w. posts (snd (f w)) = posts w"
  have "posts (snd (run_state (redis f) w)) = posts w" for w
    using f [of w] f [of "w\<lparr>faults := tl (faults w)\<rparr>"]
    by (auto simp: redis_def split: list.split prod.split)
  then show ?thesis by (simp add: keeps_def)
qed

lemma keeps_posts_enqueue: "keeps posts (enqueueRetry rdb a t n)"
  unfolding enqueueRetry_def LTrim_def RPush_def Let_def
  by (intro keeps_intros keeps_posts_redis) simp_all

subsection \<open>What is posted\<close>

text \<open>
  A post as it is checked before it is sent: to the agent's URL, over https (or http where the
  environment allows it), to a host none of whose addresses, as resolved or pinned at that moment,
  is refused by \<open>isPrivateIP\<close>; signed exactly when the agent has a secret. The connection is made by
  the HTTP client, which resolves the host again.
\<close>

definition signed :: "extern \<Rightarrow> agent \<Rightarrow> http_post \<Rightarrow> bool" where
  "signed x ag p \<longleftrightarrow> (case DecryptWebhookSecret x (AgWebhookSecret ag) of
     Inl e \<Rightarrow> False
   | Inr secret \<Rightarrow> (case map_of (PostHeaders p) ''X-Webhook-Timestamp'' of
       None \<Rightarrow> False
     | Some ts \<Rightarrow> map_of (PostHeaders p) ''X-Webhook-Signature'' = Some (hmac_hex x secret (ts @ ''.'' @ PostBody p))))"

definition checked_post :: "extern \<Rightarrow> world \<Rightarrow> agent \<Rightarrow> http_post \<Rightarrow> bool" where
  "checked_post x w ag p \<longleftrightarrow> PostURL p = AgWebhookURL ag \<and>
     (if AgWebhookSecret ag = [] then map_of (PostHeaders p) ''X-Webhook-Signature'' = None else signed x ag p) \<and>
     (case parse_url x (PostURL p) of
        None \<Rightarrow> False
      | Some (sch, host) \<Rightarrow> (ascii_lower sch = ''https'' \<or> (ascii_lower sch = ''http'' \<and> allowHTTPWebhooks x)) \<and>
          host \<noteq> [] \<and> (case fst (run_state (resolve_pinned x host) w) of
            Inl e \<Rightarrow> False | Inr ips \<Rightarrow> list_all (\<lambda>ip. \<not> isPrivateIP ip) ips))"

lemma webhook_request_signed:
  assumes "webhook_request x ag action t old new n = Some p"
  shows "PostURL p = AgWebhookURL ag" "AgWebhookSecret ag \<noteq> [] \<Longrightarrow> signed x ag p"
    "AgWebhookSecret ag = [] \<Longrightarrow> map_of (PostHeaders p) ''X-Webhook-Signature'' = None"
  using assms by (auto simp: webhook_request_def Let_def signed_def split: if_splits sum.splits)

lemma checked_postI:
  assumes "run_state (ValidateWebhookURL x (AgWebhookURL ag)) w = (Inr (), w1)"
    and "webhook_request x ag action t old new n = Some p"
  shows "checked_post x w ag p"
  using ValidateWebhookURL_Inr [OF assms(1)] webhook_request_signed [OF assms(2)]
  by (auto simp: checked_post_def list_all_iff)

lemma run_http_do:
  "run_state (http_do p) w = (case answers w of [] \<Rightarrow> None | a # _ \<Rightarrow> a, w\<lparr>posts := posts w @ [p], answers := tl (answers w)\<rparr>)"
  by (simp add: http_do_def)

text \<open>A notice that is sent: the URL is valid now, and the secret, when there is one, is opened.\<close>

definition secret_opens :: "extern \<Rightarrow> agent \<Rightarrow> bool" where
  "secret_opens x ag \<longleftrightarrow> AgWebhookSecret ag = [] \<or> \<not> isl (DecryptWebhookSecret x (AgWebhookSecret ag))"

definition deliverable :: "extern \<Rightarrow> world \<Rightarrow> agent \<Rightarrow> bool" where
  "deliverable x w ag \<longleftrightarrow> fst (run_state (ValidateWebhookURL x (AgWebhookURL ag)) w) = Inr () \<and> secret_opens x ag"

lemma request_built:
  assumes "run_state (ValidateWebhookURL x (AgWebhookURL ag)) w = (Inr (), w1)"
  shows "webhook_request x ag action t old new n = None \<longleftrightarrow> \<not> secret_opens x ag"
  using ValidateWebhookURL_Inr [OF assms]
  by (auto simp: webhook_request_def Let_def secret_opens_def split: sum.splits)

definition posts_one :: "extern \<Rightarrow> world \<Rightarrow> agent \<Rightarrow> world \<Rightarrow> bool" where
  "posts_one x w ag w' \<longleftrightarrow> (if deliverable x w ag then \<exists>p. posts w' = posts w @ [p] \<and> checked_post x w ag p
     else posts w' = posts w)"

lemma posts_oneI:
  assumes "run_state (ValidateWebhookURL x (AgWebhookURL ag)) w = (v, w1)"
    and "\<And>p. v = Inr () \<Longrightarrow> webhook_request x ag action t old new n = Some p \<Longrightarrow> posts w' = posts w @ [p]"
    and "v \<noteq> Inr () \<or> webhook_request x ag action t old new n = None \<Longrightarrow> posts w' = posts w"
  shows "posts_one x w ag w'"
proof (cases "v = Inr ()")
  case True
  note v = assms(1) [unfolded True]
  show ?thesis
    using request_built [OF v, of action t old new n] checked_postI [OF v, of action t old new n] assms(2,3) True v
    by (cases "webhook_request x ag action t old new n") (auto simp: posts_one_def deliverable_def)
qed (use assms in \<open>auto simp: posts_one_def deliverable_def\<close>)

lemma sendWebhook_posts:
  assumes "run_state (sendWebhook x rdb ag t n) w = ((), w')"
  shows "posts_one x w ag w'"
proof -
  obtain v w1 where v: "run_state (ValidateWebhookURL x (AgWebhookURL ag)) w = (v, w1)"
    by (cases "run_state (ValidateWebhookURL x (AgWebhookURL ag)) w")
  have p1: "posts w1 = posts w" by (rule keeps_run [OF post_frame.keeps_validate v])
  show ?thesis
  proof (rule posts_oneI [OF v, of "''new_task''" t "[]" "[]" "now w1"])
    fix p
    let ?w2 = "w1\<lparr>posts := posts w1 @ [p], answers := tl (answers w1)\<rparr>"
    assume "v = Inr ()" and "webhook_request x ag ''new_task'' t [] [] (now w1) = Some p"
    with assms v have "w' = ?w2 \<or> run_state (enqueueRetry rdb (AgName ag) (ID t) n) ?w2 = ((), w')"
      by (auto simp: sendWebhook_def run_state_bind run_state_return run_get run_http_do
        split: list.splits option.splits if_splits)
    with keeps_run [OF keeps_posts_enqueue] p1 show "posts w' = posts w @ [p]" by fastforce
  next
    assume "v \<noteq> Inr () \<or> webhook_request x ag ''new_task'' t [] [] (now w1) = None"
    with assms v p1 show "posts w' = posts w"
      by (cases v) (auto simp: sendWebhook_def run_state_bind run_state_return run_get)
  qed
qed

lemma sendStatusWebhook_posts:
  assumes "run_state (sendStatusWebhook x ag t old new action) w = ((), w')"
  shows "posts_one x w ag w'"
proof -
  obtain v w1 where v: "run_state (ValidateWebhookURL x (AgWebhookURL ag)) w = (v, w1)"
    by (cases "run_state (ValidateWebhookURL x (AgWebhookURL ag)) w")
  have p1: "posts w1 = posts w" by (rule keeps_run [OF post_frame.keeps_validate v])
  show ?thesis
  proof (rule posts_oneI [OF v, of action t old new "now w1"])
    fix p
    assume "v = Inr ()" and "webhook_request x ag action t old new (now w1) = Some p"
    with assms v p1 show "posts w' = posts w @ [p]"
      by (auto simp: sendStatusWebhook_def run_state_bind run_state_return run_get run_http_do split: option.splits)
  next
    assume "v \<noteq> Inr () \<or> webhook_request x ag action t old new (now w1) = None"
    with assms v p1 show "posts w' = posts w"
      by (cases v) (auto simp: sendStatusWebhook_def run_state_bind run_state_return run_get)
  qed
qed

end
