(* ===== verification/Retries.thy ===== *)
theory Retries
  imports Frames
begin

text \<open>
  The retry queues: one entry is appended per failed webhook, to a queue trimmed to its bound,
  with an attempt number that only grows. A weight over the queue, which each pop lowers more
  than a retry can raise it, shows that draining a queue ends.
\<close>

subsection \<open>One entry\<close>

definition entry_weight :: "string \<Rightarrow> nat" where
  "entry_weight data = (case parse_entry data of
     None \<Rightarrow> 1 | Some e \<Rightarrow> if maxRetries \<le> RAttempt e then 1 else nat (maxRetries + 1 - RAttempt e))"

definition queue_weight :: "string \<Rightarrow> world \<Rightarrow> nat" where
  "queue_weight key w = sum_list (map entry_weight (rget key w))"

lemma entry_weight_pos: "1 \<le> entry_weight data"
  by (cases "parse_entry data") (auto simp: entry_weight_def Suc_le_eq)

lemma entry_weight_next:
  assumes "parse_entry data = Some e" and "RAttempt e < maxRetries"
  shows "entry_weight (json_text (entry_json \<lparr>RTask = t, RAgent = a, RAttempt = RAttempt e + 1\<rparr>)) < entry_weight data"
  using assms by (auto simp: entry_weight_def)

lemma sum_drop_le: "sum_list (map f (drop n xs)) \<le> sum_list (map f xs)" for f :: "'a \<Rightarrow> nat"
  by (metis append_take_drop_id le_add2 map_append sum_list_append)

lemma trim_list_weight: "sum_list (map f (trim_list a b xs)) \<le> sum_list (map f xs)" for f :: "'a \<Rightarrow> nat"
proof -
  have "sum_list (map f (take n ys)) \<le> sum_list (map f ys)" for n and ys :: "'a list"
    by (metis append_take_drop_id le_add1 map_append sum_list_append)
  from order_trans [OF this sum_drop_le] show ?thesis by (simp add: trim_list_def Let_def)
qed

lemma queue_weight_rput: "queue_weight key (rput k l w) = (if key = k then sum_list (map entry_weight l) else queue_weight key w)"
  by (simp add: queue_weight_def)

lemma queue_weight_faults [simp]: "queue_weight key (w\<lparr>faults := fs\<rparr>) = queue_weight key w"
  by (simp add: queue_weight_def)

lemma queue_weight_lists: "rlists w = rlists w' \<Longrightarrow> queue_weight key w = queue_weight key w'"
  by (simp add: queue_weight_def rget_def)

lemma LTrim_weight:
  assumes "run_state (LTrim k a b) w = (r, w')"
  shows "queue_weight key w' \<le> queue_weight key w"
  using assms trim_list_weight [of entry_weight a b "rget k w"]
  by (auto simp: LTrim_def redis_def queue_weight_rput queue_weight_def split: list.splits if_splits)

lemma RPush_weight:
  assumes "run_state (RPush k v) w = (r, w')"
  shows "queue_weight key w' \<le> queue_weight key w + entry_weight v"
  using assms by (auto simp: RPush_def redis_def queue_weight_rput queue_weight_def split: list.splits if_splits)

lemma enqueueRetry_weight:
  assumes "run_state (enqueueRetry rdb a t n) w = ((), w')"
  shows "queue_weight key w' \<le> queue_weight key w +
    entry_weight (json_text (entry_json \<lparr>RTask = t, RAgent = a, RAttempt = n + 1\<rparr>))"
proof (cases rdb)
  case True
  let ?k = "retry_queue_prefix @ a" and ?d = "json_text (entry_json \<lparr>RTask = t, RAgent = a, RAttempt = n + 1\<rparr>)"
  obtain r w1 where l: "run_state (LTrim ?k (- (maxRetryQueueSize - 1)) (- 1)) w = (r, w1)"
    by (cases "run_state (LTrim ?k (- (maxRetryQueueSize - 1)) (- 1)) w")
  obtain q w2 where p: "run_state (RPush ?k ?d) w1 = (q, w2)" by (cases "run_state (RPush ?k ?d) w1")
  have "w' = w2" using assms True l p by (simp add: enqueueRetry_def Let_def run_state_bind run_state_return)
  with LTrim_weight [OF l, of key] RPush_weight [OF p, of key] show ?thesis by simp
next
  case False
  with assms show ?thesis by (simp add: enqueueRetry_def run_state_return)
qed

lemma sendWebhook_weight:
  assumes "run_state (sendWebhook x rdb ag t n) w = ((), w')"
  shows "queue_weight key w' \<le> queue_weight key w +
    entry_weight (json_text (entry_json \<lparr>RTask = ID t, RAgent = AgName ag, RAttempt = n + 1\<rparr>))"
proof -
  obtain v w1 where v: "run_state (ValidateWebhookURL x (AgWebhookURL ag)) w = (v, w1)"
    by (cases "run_state (ValidateWebhookURL x (AgWebhookURL ag)) w")
  have l1: "queue_weight key w1 = queue_weight key w"
    by (rule queue_weight_lists) (rule keeps_run [OF list_frame.keeps_validate v])
  let ?w2 = "\<lambda>p. w1\<lparr>posts := posts w1 @ [p], answers := tl (answers w1)\<rparr>"
  have "w' = w1 \<or> (\<exists>p. w' = ?w2 p \<or> run_state (enqueueRetry rdb (AgName ag) (ID t) n) (?w2 p) = ((), w'))"
    using assms v by (auto simp: sendWebhook_def run_state_bind run_state_return run_get run_http_do
      split: sum.splits list.splits option.splits if_splits)
  moreover have "queue_weight key (?w2 p) = queue_weight key w" for p
    using l1 queue_weight_lists [of "?w2 p" w1 key] by simp
  ultimately show ?thesis using enqueueRetry_weight [of rdb "AgName ag" "ID t" n _ w' key] l1
    by (metis le_add1)
qed

lemma retryEntry_weight:
  assumes "run_state (retryEntry x rdb data) w = ((), w')"
  shows "queue_weight key w' < queue_weight key w + entry_weight data"
proof (cases "\<exists>e. parse_entry data = Some e \<and> RAttempt e < maxRetries")
  case False
  with assms have "w' = w" by (auto simp: retryEntry_def run_state_return split: option.splits if_splits)
  with entry_weight_pos [of data] show ?thesis by simp
next
  case True
  then obtain e where e: "parse_entry data = Some e" "RAttempt e < maxRetries" by blast
  let ?send = "\<lambda>w1 w'. \<exists>t ag. run_state (sendWebhook x rdb ag t (RAttempt e)) w1 = ((), w')"
  obtain u w0 where s: "run_state (sleep (backoff (RAttempt e))) w = (u, w0)"
    by (cases "run_state (sleep (backoff (RAttempt e))) w")
  obtain g w1 where g: "run_state (GetByID (RTask e)) w0 = (g, w1)" by (cases "run_state (GetByID (RTask e)) w0")
  obtain b w2 where b: "run_state (GetByName (RAgent e)) w1 = (b, w2)" by (cases "run_state (GetByName (RAgent e)) w1")
  have q: "queue_weight key w0 = queue_weight key w" "queue_weight key w1 = queue_weight key w"
    "queue_weight key w2 = queue_weight key w"
    using keeps_run [OF list_frame.keeps_sleep s] keeps_run [OF list_frame.keeps_readers(1) g]
      keeps_run [OF list_frame.keeps_readers(2) b] queue_weight_lists by metis+
  have "w' \<in> {w1, w2} \<or> ?send w2 w'"
    using assms e s g b by (auto simp: retryEntry_def run_state_bind run_state_return split: sum.splits option.splits if_splits)
  then show ?thesis
  proof (elim disjE exE)
    assume "w' \<in> {w1, w2}"
    with q entry_weight_pos [of data] show ?thesis by auto
  next
    fix t ag assume "run_state (sendWebhook x rdb ag t (RAttempt e)) w2 = ((), w')"
    from sendWebhook_weight [OF this, of key] q entry_weight_next [OF e, of "ID t" "AgName ag"] show ?thesis by simp
  qed
qed

subsection \<open>Draining\<close>

lemma LPop_weight:
  assumes "run_state (LPop key) w = (Some (Some data), w')"
  shows "queue_weight key w = queue_weight key w' + entry_weight data"
  using assms by (auto simp: LPop_def redis_def queue_weight_rput queue_weight_def split: list.splits if_splits)

text \<open>More fuel than the weight of the queue changes nothing.\<close>

lemma drain_enough:
  "queue_weight key w \<le> n \<Longrightarrow> run_state (drain (Suc n + m) x rdb key) w = run_state (drain (Suc n) x rdb key) w"
proof (induction n arbitrary: w)
  case 0
  then have e: "rget key w = []"
    using entry_weight_pos [of "hd (rget key w)"] by (cases "rget key w") (auto simp: queue_weight_def)
  then have "\<exists>r w1. run_state (LPop key) w = (r, w1) \<and> (r = None \<or> r = Some None)"
    by (auto simp: LPop_def redis_def split: list.split)
  then show ?case by (auto simp: run_state_bind run_state_return)
next
  case (Suc n)
  obtain r w1 where p: "run_state (LPop key) w = (r, w1)" by (cases "run_state (LPop key) w")
  show ?case
  proof (cases "\<exists>data. r = Some (Some data)")
    case False
    then have "r = None \<or> r = Some None" by (cases r) auto
    with p show ?thesis by (auto simp: run_state_bind)
  next
    case True
    then obtain data where r: "r = Some (Some data)" ..
    obtain w2 where t: "run_state (retryEntry x rdb data) w1 = ((), w2)"
      by (cases "run_state (retryEntry x rdb data) w1") auto
    have "queue_weight key w2 \<le> n"
      using LPop_weight [of key w data w1] retryEntry_weight [OF t, of key] p r Suc.prems by simp
    from Suc.IH [OF this] p r t show ?thesis by (simp add: run_state_bind)
  qed
qed

subsection \<open>Without faults\<close>

text \<open>An operation that starts with no fault ahead leaves none, so every command of a drain is served.\<close>

definition calm :: "(world, 'a) state \<Rightarrow> bool" where
  "calm m \<longleftrightarrow> (\<forall>w. faults w = [] \<longrightarrow> faults (snd (run_state m w)) = [])"

named_theorems calm_intros \<open>operations that leave no fault behind\<close>

lemma calm_run: "calm m \<Longrightarrow> run_state m w = (x, w') \<Longrightarrow> faults w = [] \<Longrightarrow> faults w' = []"
  by (metis calm_def snd_conv)

lemma calm_bind [calm_intros]: "calm m \<Longrightarrow> (\<And>x. calm (f x)) \<Longrightarrow> calm (State_Monad.bind m f)"
  by (auto simp: calm_def run_state_bind split: prod.split)

lemma calm_basic [calm_intros]:
  "calm (State_Monad.return x)" "calm State_Monad.get" "calm (exec s)" "calm (query q)"
  "calm (sleep n)" "calm (pin_get h)" "calm (pin_set h i t)" "calm (http_do p)"
  by (auto simp: calm_def run_state_return run_get run_exec_ok run_query_ok sleep_def pin_get_def
      pin_set_def http_do_def)

lemma calm_cases [calm_intros]:
  "calm m \<Longrightarrow> calm m' \<Longrightarrow> calm (if b then m else m')"
  "calm m \<Longrightarrow> (\<And>x. calm (f x)) \<Longrightarrow> calm (case z of None \<Rightarrow> m | Some x \<Rightarrow> f x)"
  "(\<And>e. calm (g e)) \<Longrightarrow> (\<And>x. calm (h x)) \<Longrightarrow> calm (case y of Inl e \<Rightarrow> g e | Inr x \<Rightarrow> h x)"
  "(\<And>a b. calm (k a b)) \<Longrightarrow> calm (case p of (a, b) \<Rightarrow> k a b)"
  by (cases z; cases y; cases p; simp)+

lemma calm_redis: "(\<And>w. faults (snd (f w)) = faults w) \<Longrightarrow> calm (redis f)"
  by (simp add: calm_def run_redis_ok)

lemma calm_lists [calm_intros]: "calm (LTrim k a b)" "calm (RPush k v)" "calm (LPop k)"
  unfolding LTrim_def RPush_def LPop_def by (rule calm_redis; simp split: list.split)+

lemma calm_retryEntry [calm_intros]: "calm (retryEntry x rdb data)"
  unfolding retryEntry_def sendWebhook_def ValidateWebhookURL_def resolve_pinned_def enqueueRetry_def
    GetByID_def GetByName_def Let_def
  by (intro calm_intros)

lemma drain_empties:
  "queue_weight key w \<le> n \<Longrightarrow> faults w = [] \<Longrightarrow>
    rget key (snd (run_state (drain (Suc n) x rdb key) w)) = []"
proof (induction n arbitrary: w)
  case 0
  then have "rget key w = []"
    using entry_weight_pos [of "hd (rget key w)"] by (cases "rget key w") (auto simp: queue_weight_def)
  with "0.prems" show ?case by (simp add: LPop_def run_state_bind run_redis_ok run_state_return)
next
  case (Suc n)
  obtain r w1 where p: "run_state (LPop key) w = (r, w1)" by (cases "run_state (LPop key) w")
  have f1: "faults w1 = []" using calm_run [OF calm_lists(3) p] Suc.prems by simp
  show ?case
  proof (cases "rget key w")
    case Nil
    with Suc.prems show ?thesis by (simp add: LPop_def run_state_bind run_redis_ok run_state_return)
  next
    case (Cons data vs)
    then have r: "r = Some (Some data)" using p Suc.prems by (auto simp: LPop_def run_redis_ok)
    obtain w2 where t: "run_state (retryEntry x rdb data) w1 = ((), w2)"
      by (cases "run_state (retryEntry x rdb data) w1") auto
    have "queue_weight key w2 \<le> n"
      using LPop_weight [of key w data w1] retryEntry_weight [OF t, of key] p r Suc.prems by simp
    from Suc.IH [OF this calm_run [OF calm_retryEntry t f1]] p r t show ?thesis
      by (simp add: run_state_bind)
  qed
qed

end
