(* ===== verification/Pool.thy ===== *)
theory Pool
  imports Prelude "HOL-Library.Multiset"
begin

text \<open>
  The goroutines of \<^verbatim>\<open>internal/dispatcher/dispatcher.go\<close>: the semaphore that bounds how many
  send a webhook at a time, the wait group that \<open>Stop\<close> waits for, and the context it cancels.
  What a goroutine sends is in \<open>Dispatcher\<close>; here it is only how far it is. Goroutines have
  no names, so they are a multiset, and any one of them may take the next step.
\<close>

text \<open>
  \<open>Begun\<close>: started by \<open>DispatchNewTask\<close>, not yet in the wait group. \<open>Counted\<close>: in the wait
  group, waiting for the semaphore. \<open>Sending\<close>: holding it. \<open>Released\<close>: has given it back.
  \<open>Draining\<close>: a goroutine of a retry queue, in the wait group, which sends without the
  semaphore. \<open>Looping\<close>: the goroutine of \<open>processRetryQueue\<close>.
\<close>

datatype phase = Begun | Counted | Sending | Released | Draining | Looping

record pool =
  semaphore :: nat
  wg :: nat
  goroutines :: "phase multiset"
  hasCancel :: bool
  cancelled :: bool
  hasRedis :: bool

definition semaphoreSize :: nat where "semaphoreSize = 10"

definition NewDispatcher :: "bool \<Rightarrow> pool" where
  "NewDispatcher rdb = \<lparr>semaphore = 0, wg = 0, goroutines = {#}, hasCancel = False, cancelled = False,
     hasRedis = rdb\<rparr>"

definition start_dispatcher :: "pool \<Rightarrow> pool" where
  "start_dispatcher d = d\<lparr>hasCancel := True, cancelled := False, wg := wg d + 1,
     goroutines := add_mset Looping (goroutines d)\<rparr>"

text \<open>\<open>Stop\<close> up to its wait, and whether the wait is over.\<close>

definition stop_cancel :: "pool \<Rightarrow> pool" where
  "stop_cancel d = (if hasCancel d then d\<lparr>cancelled := True\<rparr> else d)"

definition stop_returns :: "pool \<Rightarrow> bool" where
  "stop_returns d \<longleftrightarrow> wg d = 0"

subsection \<open>Steps\<close>

text \<open>The steps of the senders: \<open>sendWebhookWithSemaphore\<close>, and \<open>sendStatusWebhook\<close> from \<open>Counted\<close> on.\<close>

inductive sender_step :: "pool \<Rightarrow> pool \<Rightarrow> bool" where
  wg_add: "goroutines d = add_mset Begun gs \<Longrightarrow>
     sender_step d (d\<lparr>wg := wg d + 1, goroutines := add_mset Counted gs\<rparr>)"
| acquire: "goroutines d = add_mset Counted gs \<Longrightarrow> semaphore d < semaphoreSize \<Longrightarrow>
     sender_step d (d\<lparr>semaphore := semaphore d + 1, goroutines := add_mset Sending gs\<rparr>)"
| release: "goroutines d = add_mset Sending gs \<Longrightarrow>
     sender_step d (d\<lparr>semaphore := semaphore d - 1, goroutines := add_mset Released gs\<rparr>)"
| wg_done: "goroutines d = add_mset Released gs \<Longrightarrow>
     sender_step d (d\<lparr>wg := wg d - 1, goroutines := gs\<rparr>)"
| drained: "goroutines d = add_mset Draining gs \<Longrightarrow>
     sender_step d (d\<lparr>wg := wg d - 1, goroutines := gs\<rparr>)"

text \<open>
  The loop of \<open>processRetryQueue\<close>: it ends once the context is cancelled, and on a tick it starts
  one goroutine per retry queue, each added to the wait group first.
\<close>

inductive loop_step :: "pool \<Rightarrow> pool \<Rightarrow> bool" where
  loop_exit: "goroutines d = add_mset Looping gs \<Longrightarrow> cancelled d \<Longrightarrow>
     loop_step d (d\<lparr>wg := wg d - 1, goroutines := gs\<rparr>)"
| loop_tick: "Looping \<in># goroutines d \<Longrightarrow> hasRedis d \<Longrightarrow>
     loop_step d (d\<lparr>wg := wg d + queues, goroutines := goroutines d + replicate_mset queues Draining\<rparr>)"

inductive pool_step :: "pool \<Rightarrow> pool \<Rightarrow> bool" where
  pool_start: "pool_step d (start_dispatcher d)"
| pool_cancel: "pool_step d (stop_cancel d)"
| pool_dispatch: "pool_step d (d\<lparr>goroutines := add_mset Begun (goroutines d)\<rparr>)"
| pool_notify: "pool_step d (d\<lparr>wg := wg d + 1, goroutines := add_mset Counted (goroutines d)\<rparr>)"
| pool_loop: "loop_step d d' \<Longrightarrow> pool_step d d'"
| pool_sender: "sender_step d d' \<Longrightarrow> pool_step d d'"

inductive_cases sender_stepE: "sender_step d d'"
inductive_cases loop_stepE: "loop_step d d'"
inductive_cases pool_stepE: "pool_step d d'"

subsection \<open>The counters\<close>

definition pool_inv :: "pool \<Rightarrow> bool" where
  "pool_inv d \<longleftrightarrow> semaphore d = count (goroutines d) Sending \<and> semaphore d \<le> semaphoreSize \<and>
     wg d + count (goroutines d) Begun = size (goroutines d)"

lemma pool_inv_new: "pool_inv (NewDispatcher rdb)"
  by (simp add: pool_inv_def NewDispatcher_def)

lemma count_mset_pos: "goroutines d = add_mset p gs \<Longrightarrow> pool_inv d \<Longrightarrow> p \<noteq> Begun \<longrightarrow> 0 < wg d"
  using count_le_size [of gs Begun] by (auto simp: pool_inv_def)

lemma pool_inv_sender: "sender_step d d' \<Longrightarrow> pool_inv d \<Longrightarrow> pool_inv d'"
  by (erule sender_stepE; frule (1) count_mset_pos; auto simp: pool_inv_def)

lemma pool_inv_loop: "loop_step d d' \<Longrightarrow> pool_inv d \<Longrightarrow> pool_inv d'"
  by (erule loop_stepE) (frule (1) count_mset_pos, auto simp: pool_inv_def)

lemma pool_inv_step: "pool_step d d' \<Longrightarrow> pool_inv d \<Longrightarrow> pool_inv d'"
  by (erule pool_stepE)
    (auto simp: pool_inv_sender pool_inv_loop, auto simp: pool_inv_def start_dispatcher_def stop_cancel_def)

lemma pool_inv_steps: "pool_step\<^sup>*\<^sup>* d d' \<Longrightarrow> pool_inv d \<Longrightarrow> pool_inv d'"
  by (induction rule: rtranclp_induct) (auto dest: pool_inv_step)

subsection \<open>Progress\<close>

fun phase_weight :: "phase \<Rightarrow> nat" where
  "phase_weight Begun = 4"
| "phase_weight Counted = 3"
| "phase_weight Sending = 2"
| "phase_weight Released = 1"
| "phase_weight Draining = 1"
| "phase_weight Looping = 0"

definition pool_weight :: "pool \<Rightarrow> nat" where
  "pool_weight d = sum_mset (image_mset phase_weight (goroutines d))"

lemma sender_step_weight: "sender_step d d' \<Longrightarrow> pool_weight d' < pool_weight d"
  by (erule sender_stepE) (simp_all add: pool_weight_def)

lemma sender_enabled:
  assumes "pool_inv d" and "p \<in># goroutines d" and "p \<noteq> Looping"
  shows "\<exists>d'. sender_step d d'"
proof -
  obtain gs where gs: "goroutines d = add_mset p gs" using assms(2) by (metis insert_DiffM)
  show ?thesis
  proof (cases p)
    case Counted
    show ?thesis
    proof (cases "semaphore d < semaphoreSize")
      case True
      with gs Counted acquire show ?thesis by blast
    next
      case False
      with assms(1) have "Sending \<in># goroutines d"
        by (simp add: pool_inv_def semaphoreSize_def flip: count_greater_zero_iff)
      then obtain gs' where "goroutines d = add_mset Sending gs'" by (metis insert_DiffM)
      with release show ?thesis by blast
    qed
  qed (use gs assms(3) sender_step.intros in blast)+
qed

text \<open>Left alone, the senders all finish; the loop is the only goroutine left.\<close>

lemma senders_finish:
  "pool_inv d \<Longrightarrow> \<exists>d'. sender_step\<^sup>*\<^sup>* d d' \<and> set_mset (goroutines d') \<subseteq> {Looping}"
proof (induction "pool_weight d" arbitrary: d rule: less_induct)
  case less
  show ?case
  proof (cases "set_mset (goroutines d) \<subseteq> {Looping}")
    case True
    then show ?thesis by blast
  next
    case False
    then obtain d1 where s: "sender_step d d1" using sender_enabled [OF less.prems] by blast
    from less.hyps [OF sender_step_weight [OF s] pool_inv_sender [OF s less.prems]] s
    show ?thesis by (meson converse_rtranclp_into_rtranclp)
  qed
qed

end
