(* ===== verification/Schema.thy ===== *)
theory Schema
  imports Prelude "HOL-Library.AList"
begin

text \<open>
  \<^verbatim>\<open>internal/db/schema.go\<close>: the migrations. Of the SQL the model keeps which tables, columns
  and indexes a statement creates; the constraints of the tables are in the theories of the
  rows and statements. A statement fails when it names a table or column that is not there, or
  by the next entry of the fault list; a transaction that fails changes nothing.
\<close>

datatype ddl =
    CreateTable string "string list"
  | AddColumn string string
  | CreateIndex string string string

record schema =
  tables :: "(string \<times> string list) list"
  indexes :: "string list"
  versions :: "int list option"

definition empty_schema :: schema where
  "empty_schema = \<lparr>tables = [], indexes = [], versions = None\<rparr>"

subsection \<open>Statements\<close>

fun run_ddl :: "ddl \<Rightarrow> schema \<Rightarrow> schema option" where
  "run_ddl (CreateTable t cs) s = (if map_of (tables s) t = None
     then Some (s\<lparr>tables := tables s @ [(t, cs)]\<rparr>) else Some s)"
| "run_ddl (AddColumn t c) s = (case map_of (tables s) t of
     None \<Rightarrow> None
   | Some cs \<Rightarrow> if c \<in> set cs then Some s
       else Some (s\<lparr>tables := AList.update t (cs @ [c]) (tables s)\<rparr>))"
| "run_ddl (CreateIndex i t c) s = (if i \<in> set (indexes s) then Some s
     else (case map_of (tables s) t of
       None \<Rightarrow> None
     | Some cs \<Rightarrow> if c \<in> set cs then Some (s\<lparr>indexes := indexes s @ [i]\<rparr>) else None))"

fun run_ddls :: "ddl list \<Rightarrow> schema \<Rightarrow> schema option" where
  "run_ddls [] s = Some s"
| "run_ddls (d # ds) s = (case run_ddl d s of None \<Rightarrow> None | Some s' \<Rightarrow> run_ddls ds s')"

definition create_versions :: "schema \<Rightarrow> schema option" where
  "create_versions s = Some (if versions s = None then s\<lparr>versions := Some []\<rparr> else s)"

definition current_version :: "schema \<Rightarrow> int" where
  "current_version s = (case versions s of None \<Rightarrow> 0 | Some vs \<Rightarrow> fold max vs 0)"

definition insert_version :: "int \<Rightarrow> schema \<Rightarrow> schema option" where
  "insert_version v s = (case versions s of
     None \<Rightarrow> None
   | Some vs \<Rightarrow> Some (if v \<in> set vs then s else s\<lparr>versions := Some (vs @ [v])\<rparr>))"

subsection \<open>The migrations\<close>

definition migration1 :: "ddl list" where
  "migration1 = [
     CreateTable ''tasks'' [''id'', ''title'', ''assignee'', ''status'', ''priority'', ''parents'',
       ''skills'', ''required_skills'', ''tags'', ''body_goal'', ''body_context'',
       ''body_deliverable_format'', ''body_deliverable_path'', ''created_at'', ''updated_at'',
       ''summary'', ''artifacts_json''],
     CreateTable ''gates'' [''gate_id'', ''task_id'', ''question'', ''ask'', ''status'', ''answer'',
       ''created_at'', ''answered_at''],
     CreateTable ''agents'' [''name'', ''port'', ''token'', ''last_heartbeat'', ''skills'',
       ''webhook_url'', ''webhook_secret'', ''token_prefix''],
     CreateTable ''task_events'' [''id'', ''task_id'', ''event'', ''agent'', ''timestamp'', ''detail''],
     CreateIndex ''idx_task_events_task'' ''task_events'' ''task_id'',
     CreateIndex ''idx_agents_last_heartbeat'' ''agents'' ''last_heartbeat'',
     CreateIndex ''idx_agents_token_prefix'' ''agents'' ''token_prefix'']"

definition migration2 :: "ddl list" where
  "migration2 = [AddColumn ''tasks'' ''last_heartbeat'', AddColumn ''tasks'' ''max_retries'',
     AddColumn ''tasks'' ''retry_count'',
     CreateIndex ''idx_tasks_last_heartbeat'' ''tasks'' ''last_heartbeat'']"

definition migration3 :: "ddl list" where
  "migration3 = [AddColumn ''agents'' ''last_event_id'',
     CreateIndex ''idx_task_events_timestamp'' ''task_events'' ''timestamp'']"

definition migrations :: "(int \<times> ddl list) list" where
  "migrations = [(1, migration1), (2, migration2), (3, migration3)]"

text \<open>One round trip to the server: it fails by the next fault or by itself.\<close>

definition attempt :: "(schema \<Rightarrow> schema option) \<Rightarrow> bool list \<Rightarrow> schema \<Rightarrow> schema option \<times> bool list" where
  "attempt f fs s = (case fs of [] \<Rightarrow> (f s, []) | b # fs' \<Rightarrow> (if b then None else f s, fs'))"

text \<open>\<open>Begin\<close>, the migration, its version, \<open>Commit\<close>; none when one of them fails.\<close>

definition transaction :: "int \<Rightarrow> ddl list \<Rightarrow> bool list \<Rightarrow> schema \<Rightarrow> schema option \<times> bool list" where
  "transaction v sql fs s = (case attempt Some fs s of
     (None, fs1) \<Rightarrow> (None, fs1)
   | (Some s0, fs1) \<Rightarrow> (case attempt (run_ddls sql) fs1 s0 of
       (None, fs2) \<Rightarrow> (None, fs2)
     | (Some s1, fs2) \<Rightarrow> (case attempt (insert_version v) fs2 s1 of
         (None, fs3) \<Rightarrow> (None, fs3)
       | (Some s2, fs3) \<Rightarrow> attempt Some fs3 s2)))"

fun migrate_loop :: "int \<Rightarrow> (int \<times> ddl list) list \<Rightarrow> bool list \<Rightarrow> schema \<Rightarrow> bool \<times> schema" where
  "migrate_loop current [] fs s = (True, s)"
| "migrate_loop current ((v, sql) # ms) fs s =
    (if v \<le> current then migrate_loop current ms fs s
     else (case transaction v sql fs s of
       (None, fs') \<Rightarrow> (False, s)
     | (Some s', fs') \<Rightarrow> migrate_loop current ms fs' s'))"

definition RunMigrations :: "bool list \<Rightarrow> schema \<Rightarrow> bool \<times> schema" where
  "RunMigrations fs s = (case attempt create_versions fs s of
     (None, fs1) \<Rightarrow> (False, s)
   | (Some s1, fs1) \<Rightarrow> (case attempt Some fs1 s1 of
       (None, fs2) \<Rightarrow> (False, s1)
     | (Some _, fs2) \<Rightarrow> migrate_loop (current_version s1) migrations fs2 s1))"

subsection \<open>The schemas between the migrations\<close>

definition migrate_one :: "int \<Rightarrow> ddl list \<Rightarrow> schema \<Rightarrow> schema option" where
  "migrate_one v sql s = Option.bind (run_ddls sql s) (insert_version v)"

definition schema0 :: schema where "schema0 = \<lparr>tables = [], indexes = [], versions = Some []\<rparr>"
definition schema1 :: schema where "schema1 = the (migrate_one 1 migration1 schema0)"
definition schema2 :: schema where "schema2 = the (migrate_one 2 migration2 schema1)"
definition schema3 :: schema where "schema3 = the (migrate_one 3 migration3 schema2)"

text \<open>What a run can leave behind: the empty database, or the schema after some migrations.\<close>

definition migrated :: "schema \<Rightarrow> bool" where
  "migrated s \<longleftrightarrow> s \<in> {empty_schema, schema0, schema1, schema2, schema3}"

lemma migrate_steps:
  "migrate_one 1 migration1 schema0 = Some schema1"
  "migrate_one 2 migration2 schema1 = Some schema2"
  "migrate_one 3 migration3 schema2 = Some schema3"
  by code_simp+

lemma current_versions:
  "current_version schema0 = 0" "current_version schema1 = 1" "current_version schema2 = 2"
  "current_version schema3 = 3"
  by code_simp+

lemma create_versions_done:
  "create_versions empty_schema = Some schema0" "create_versions schema0 = Some schema0"
  "create_versions schema1 = Some schema1" "create_versions schema2 = Some schema2"
  "create_versions schema3 = Some schema3"
  by code_simp+

lemma attempt_cases: "attempt f fs s = (r, fs') \<Longrightarrow> r = None \<or> r = f s"
  by (auto simp: attempt_def split: list.splits)

lemma attempt_ok [simp]: "attempt f [] s = (f s, [])"
  by (simp add: attempt_def)

lemma transaction_cases:
  assumes "transaction v sql fs s = (r, fs')"
  shows "r = None \<or> r = migrate_one v sql s"
  using assms
  by (cases "run_ddls sql s")
    (auto simp: transaction_def migrate_one_def split: prod.splits option.splits dest!: attempt_cases)

lemma transaction_ok: "transaction v sql [] s = (migrate_one v sql s, [])"
  by (simp add: transaction_def migrate_one_def split: option.split)

text \<open>The loop from each of the versions, whatever fails on the way.\<close>

lemma loop_step:
  assumes "migrate_one v sql s = Some s1" and "\<not> v \<le> c" and "(False, s) \<in> R"
    and "\<And>fs'. migrate_loop c ms fs' s1 \<in> R"
  shows "migrate_loop c ((v, sql) # ms) fs s \<in> R"
proof -
  obtain q fs' where t: "transaction v sql fs s = (q, fs')" by (cases "transaction v sql fs s")
  from transaction_cases [OF t] assms show ?thesis by (cases q) (auto simp: t)
qed

lemma loop_skip: "v \<le> c \<Longrightarrow> migrate_loop c ms fs s \<in> R \<Longrightarrow> migrate_loop c ((v, sql) # ms) fs s \<in> R"
  by simp

definition outcomes :: "(bool \<times> schema) set" where
  "outcomes = {(True, schema3)} \<union> {(False, s) | s. migrated s}"

lemma outcomes_mem [simp]:
  "(True, schema3) \<in> outcomes" "(False, empty_schema) \<in> outcomes" "(False, schema0) \<in> outcomes"
  "(False, schema1) \<in> outcomes" "(False, schema2) \<in> outcomes" "(False, schema3) \<in> outcomes"
  by (simp_all add: outcomes_def migrated_def)

lemma loop_from:
  "migrate_loop 3 migrations fs schema3 \<in> outcomes" "migrate_loop 2 migrations fs schema2 \<in> outcomes"
  "migrate_loop 1 migrations fs schema1 \<in> outcomes" "migrate_loop 0 migrations fs schema0 \<in> outcomes"
  unfolding migrations_def
  by (intro loop_step [OF migrate_steps(1)] loop_step [OF migrate_steps(2)]
      loop_step [OF migrate_steps(3)] loop_skip; simp)+

lemma RunMigrations_from:
  assumes "create_versions s0 = Some s"
  shows "RunMigrations fs s0 \<in> {(False, s0), (False, s)} \<or>
    (\<exists>fs'. RunMigrations fs s0 = migrate_loop (current_version s) migrations fs' s)"
proof -
  obtain q fs1 where 1: "attempt create_versions fs s0 = (q, fs1)"
    by (cases "attempt create_versions fs s0")
  obtain r fs2 where 2: "attempt Some fs1 s = (r, fs2)" by (cases "attempt Some fs1 s")
  from attempt_cases [OF 1] attempt_cases [OF 2] assms show ?thesis
    by (auto simp: RunMigrations_def 1 2)
qed

lemma RunMigrations_migrated:
  assumes "migrated s" and "RunMigrations fs s = (ok, s')"
  shows "migrated s' \<and> (ok \<longrightarrow> s' = schema3)"
proof -
  from assms(1) obtain s1 where c: "create_versions s = Some s1"
    and l: "\<And>fs'. migrate_loop (current_version s1) migrations fs' s1 \<in> outcomes"
    and m: "migrated s1"
    unfolding migrated_def using create_versions_done loop_from current_versions by fastforce
  from RunMigrations_from [OF c, of fs] have "RunMigrations fs s \<in> outcomes"
    using l m assms(1) by (auto simp: outcomes_def) (metis l outcomes_def)
  with assms(2) show ?thesis by (auto simp: outcomes_def migrated_def)
qed

lemma RunMigrations_ok:
  "s \<in> {empty_schema, schema0, schema1, schema2, schema3} \<Longrightarrow> RunMigrations [] s = (True, schema3)"
  by (auto simp: RunMigrations_def create_versions_done current_versions migrations_def
      transaction_ok migrate_steps)

end
