(* ===== verification/Startup.thy ===== *)
theory Startup
  imports System Pool Schema
begin

text \<open>
  \<^verbatim>\<open>main.go\<close> and \<^verbatim>\<open>internal/db/db.go\<close>: what the program builds from its configuration before
  it serves, and how it ends: the listener's goroutine, the signal, the stops of its parts and the
  exit status, as a state machine. The driver of the database is a parameter, and so are the
  servers' answers in the migrations and to the bucket check.
\<close>

subsection \<open>The connection\<close>

text \<open>The driver: what \<^verbatim>\<open>sql.Open\<close> makes of the text, and whether the server answers the ping.\<close>

record 'c driver =
  sql_open :: "string \<Rightarrow> 'c option"
  sql_ping :: "'c \<Rightarrow> bool"

definition dsn :: "string \<Rightarrow> int \<Rightarrow> string \<Rightarrow> string \<Rightarrow> string \<Rightarrow> string" where
  "dsn host port user password database = ''host='' @ host @ '' port='' @ dec_int port @ '' user='' @ user
     @ '' password='' @ password @ '' dbname='' @ database @ '' sslmode=disable''"

definition Open :: "'c driver \<Rightarrow> string \<Rightarrow> int \<Rightarrow> string \<Rightarrow> string \<Rightarrow> string \<Rightarrow> repo_error + 'c" where
  "Open drv host port user password database =
    (case sql_open drv (dsn host port user password database) of
       None \<Rightarrow> Inl (DbError ''open db'')
     | Some conn \<Rightarrow> if sql_ping drv conn then Inr conn else Inl (DbError ''ping db''))"

text \<open>
  The values are not quoted: with the default, empty password the text reads
  \<^verbatim>\<open>password= dbname=...\<close>, where the connection strings of PostgreSQL, which allow spaces
  after the equals sign, take the rest for the password.
\<close>

lemma empty_password_dsn: "sublist '' password= dbname='' (dsn host port user [] database)"
  unfolding dsn_def
  by (rule sublist_extend(1), rule sublist_extend(1), rule sublist_extend(1), rule sublist_extend(1),
      rule sublist_extend(1), rule sublist_extend(1)) (simp add: sublist_def, metis append_Nil append_Cons)

subsection \<open>Start\<close>

datatype log_level = DebugLevel | InfoLevel | WarnLevel | ErrorLevel

definition level_of :: "config \<Rightarrow> log_level" where
  "level_of cfg = (if LogLevel cfg = ''debug'' then DebugLevel else if LogLevel cfg = ''warn'' then WarnLevel
     else if LogLevel cfg = ''error'' then ErrorLevel else InfoLevel)"

text \<open>The order of the levels: a message is written when its level is not below the global one.\<close>

fun level_rank :: "log_level \<Rightarrow> nat" where
  "level_rank DebugLevel = 0" | "level_rank InfoLevel = 1" | "level_rank WarnLevel = 2" | "level_rank ErrorLevel = 3"

lemma level_rank_inj: "level_rank a = level_rank b \<Longrightarrow> a = b"
  by (cases a; cases b) simp_all

instantiation log_level :: linorder
begin

definition less_eq_log_level :: "log_level \<Rightarrow> log_level \<Rightarrow> bool" where
  "less_eq_log_level a b \<longleftrightarrow> level_rank a \<le> level_rank b"

definition less_log_level :: "log_level \<Rightarrow> log_level \<Rightarrow> bool" where
  "less_log_level a b \<longleftrightarrow> level_rank a < level_rank b"

instance
  by standard (auto simp: less_eq_log_level_def less_log_level_def dest: level_rank_inj)

end

definition logged :: "config \<Rightarrow> log_level \<Rightarrow> bool" where
  "logged cfg l \<longleftrightarrow> level_of cfg \<le> l"

lemma errors_are_logged: "logged cfg ErrorLevel"
  by (cases "level_of cfg") (simp_all add: logged_def less_eq_log_level_def)

text \<open>The two ways the start ends the program; a bucket that cannot be ensured is only logged.\<close>

datatype fatal = OpenFailed | MigrationsFailed

record redis_options =
  Addr :: string
  Password :: string
  DB :: int

definition redis_options_of :: "config \<Rightarrow> redis_options" where
  "redis_options_of cfg = \<lparr>Addr = RedisAddr cfg, Password = RedisPass cfg, DB = 0\<rparr>"

text \<open>The address of the server: the host is empty, so that it listens on all interfaces.\<close>

definition listen_addr :: "config \<Rightarrow> string" where
  "listen_addr cfg = '':'' @ dec_int (Port cfg)"

record 's running =
  Program :: "'s program"
  Dispatch_pool :: pool
  Tables :: schema
  Objects :: 's
  Level :: log_level
  Redis :: redis_options
  ListenOn :: string

definition client_of :: "config \<Rightarrow> 's minio_new \<Rightarrow> 's rustfs_client" where
  "client_of cfg mnew = NewClient mnew (RustFSEndpoint cfg) (RustFSRegion cfg) (RustFSAccessKey cfg)
     (RustFSSecretKey cfg) (RustFSBucket cfg)"

definition timeouts_of :: "config \<Rightarrow> timeout_service" where
  "timeouts_of cfg = NewTimeoutService True (PendingTimeoutMin cfg) (TaskTimeoutMin cfg) (AgentStaleMin cfg)
     (PendingTimeoutCheckSec cfg)"

text \<open>\<open>token\<close> is the administrator's token that the package \<^verbatim>\<open>api\<close> made before \<^verbatim>\<open>main\<close> ran.\<close>

definition main_start :: "extern \<Rightarrow> string \<Rightarrow> 'c driver \<Rightarrow> bool list \<Rightarrow> schema \<Rightarrow> 's minio_new \<Rightarrow> 's \<Rightarrow> fatal + 's running" where
  "main_start x token drv migration_faults sch mnew objects = (let cfg = Load x in
     case Open drv (PGHost cfg) (PGPort cfg) (PGUser cfg) (PGPassword cfg) (PGDatabase cfg) of
       Inl e \<Rightarrow> Inl OpenFailed
     | Inr database \<Rightarrow> (case RunMigrations migration_faults sch of
       (False, sch') \<Rightarrow> Inl MigrationsFailed
     | (True, sch') \<Rightarrow> (let rustfsClient = client_of cfg mnew in
         case EnsureBucket rustfsClient objects of (_, objects') \<Rightarrow>
           Inr \<lparr>Program = \<lparr>Ext = x, Hnd = \<lparr>HasDispatcher = True, Cfg = Some cfg\<rparr>, Timeouts = timeouts_of cfg,
                  Store = rustfsClient, Rdb = True, AdminToken = token\<rparr>,
                Dispatch_pool = start_dispatcher (NewDispatcher True), Tables = sch', Objects = objects',
                Level = level_of cfg, Redis = redis_options_of cfg, ListenOn = listen_addr cfg\<rparr>)))"

subsection \<open>Stop\<close>

text \<open>
  The calls after the signal, and the deferred ones in the order they run when \<^verbatim>\<open>main\<close> returns
  or panics, the last deferred first. Only the second close of the timeout service's channel
  can panic; the other calls may be repeated.
\<close>

datatype stop_call = StopDispatcher | StopTimeouts | ShutdownServer | CloseRedis | CloseDatabase | CancelShutdown

definition shutdown_calls :: "stop_call list" where
  "shutdown_calls = [StopDispatcher, StopTimeouts, ShutdownServer, CloseRedis, CloseDatabase]"

definition deferred_calls :: "stop_call list" where
  "deferred_calls = [CancelShutdown, StopTimeouts, StopDispatcher, CloseRedis, CloseDatabase]"

fun call_stop :: "stop_call \<Rightarrow> bool \<Rightarrow> bool option" where
  "call_stop StopTimeouts closed = Stop closed"
| "call_stop _ closed = Some closed"

text \<open>The calls until the first panic, and whether there was one; deferred calls run all the same.\<close>

fun run_calls :: "stop_call list \<Rightarrow> bool \<Rightarrow> bool \<times> bool" where
  "run_calls [] closed = (False, closed)"
| "run_calls (c # cs) closed = (case call_stop c closed of
     None \<Rightarrow> (True, closed) | Some closed' \<Rightarrow> run_calls cs closed')"

fun run_deferred :: "stop_call list \<Rightarrow> bool \<Rightarrow> bool \<Rightarrow> bool" where
  "run_deferred [] panicking closed = panicking"
| "run_deferred (c # cs) panicking closed = (case call_stop c closed of
     None \<Rightarrow> run_deferred cs True closed | Some closed' \<Rightarrow> run_deferred cs panicking closed')"

text \<open>Whether the program ends with a panic after the signal.\<close>

definition main_panics :: bool where
  "main_panics = (case run_calls shutdown_calls False of (p, closed) \<Rightarrow> run_deferred deferred_calls p closed)"

text \<open>
  Every orderly shutdown ends with a panic: the body stops the timeout service and so does the
  deferred call. Without the call in the body there would be none.
\<close>

theorem shutdown_panics: "main_panics"
  by (simp add: main_panics_def shutdown_calls_def deferred_calls_def Stop_def)

lemma one_stop_is_enough:
  "(case run_calls (remove1 StopTimeouts shutdown_calls) False of (p, closed) \<Rightarrow> run_deferred deferred_calls p closed) = False"
  by (simp add: shutdown_calls_def deferred_calls_def Stop_def)

subsection \<open>The phases of the process\<close>

text \<open>
  While the server runs, \<^verbatim>\<open>main\<close> waits for a signal; the goroutine of the listener ends the process
  on any error but \<open>ErrServerClosed\<close>, at whatever point \<^verbatim>\<open>main\<close> is, and no deferred call runs
  then. After the signal the calls of the body run one by one, then the deferred ones, at once
  when a call panics; later signals find the channel's buffer or nobody. A panic that reaches
  the end of \<^verbatim>\<open>main\<close> exits with 2, \<^verbatim>\<open>log.Fatal\<close> with 1.
\<close>

datatype listen_error = ErrServerClosed | ListenFailed

datatype main_event = ListenerReturns listen_error | SignalReceived | CallReturns

datatype main_phase =
    Serving
  | Stopping "stop_call list" bool
  | Returning "stop_call list" bool bool
  | Exited int

definition listener_returns :: "listen_error \<Rightarrow> main_phase \<Rightarrow> main_phase" where
  "listener_returns e ph = (if e \<noteq> ErrServerClosed then Exited 1 else ph)"

fun next_call :: "main_phase \<Rightarrow> main_phase" where
  "next_call (Stopping (c # cs) closed) = (case call_stop c closed of
     None \<Rightarrow> Returning deferred_calls True closed | Some closed' \<Rightarrow> Stopping cs closed')"
| "next_call (Stopping [] closed) = Returning deferred_calls False closed"
| "next_call (Returning (c # cs) panicking closed) = (case call_stop c closed of
     None \<Rightarrow> Returning cs True closed | Some closed' \<Rightarrow> Returning cs panicking closed')"
| "next_call (Returning [] panicking closed) = Exited (if panicking then 2 else 0)"
| "next_call ph = ph"

fun main_step :: "main_phase \<Rightarrow> main_event \<Rightarrow> main_phase" where
  "main_step (Exited n) ev = Exited n"
| "main_step ph (ListenerReturns e) = listener_returns e ph"
| "main_step Serving SignalReceived = Stopping shutdown_calls False"
| "main_step ph SignalReceived = ph"
| "main_step ph CallReturns = next_call ph"

definition main_wait :: "main_event list \<Rightarrow> main_phase" where
  "main_wait evs = fold (\<lambda>ev ph. main_step ph ev) evs Serving"

text \<open>How a phase ends when only its calls return: the invariant of the process.\<close>

fun ends_badly :: "main_phase \<Rightarrow> bool" where
  "ends_badly Serving = main_panics"
| "ends_badly (Stopping cs closed) = (case run_calls cs closed of (p, closed') \<Rightarrow> run_deferred deferred_calls p closed')"
| "ends_badly (Returning cs panicking closed) = run_deferred cs panicking closed"
| "ends_badly (Exited n) = (n \<noteq> 0)"

lemma next_call_ends_badly: "ends_badly (next_call ph) = ends_badly ph"
  by (induction ph rule: next_call.induct) (auto split: option.split)

lemma main_step_ends_badly: "ends_badly ph \<Longrightarrow> ends_badly (main_step ph ev)"
  by (induction ph ev rule: main_step.induct) (auto simp: next_call_ends_badly listener_returns_def main_panics_def)

lemma main_wait_ends_badly: "ends_badly (main_wait evs)"
proof -
  have "ends_badly ph \<Longrightarrow> ends_badly (fold (\<lambda>ev ph. main_step ph ev) evs ph)" for ph
    by (induction evs arbitrary: ph) (simp_all add: main_step_ends_badly)
  then show ?thesis by (simp add: main_wait_def shutdown_panics)
qed

text \<open>Whatever happens and in whatever order, the process never exits with status 0.\<close>

theorem never_exits_cleanly: "main_wait evs \<noteq> Exited 0"
  using main_wait_ends_badly [of evs] by auto

text \<open>Twelve returns after the signal end it, with the status of the panic.\<close>

theorem signal_ends_the_process: "main_wait (SignalReceived # replicate 12 CallReturns) = Exited 2"
  by (simp add: main_wait_def numeral_eq_Suc shutdown_calls_def deferred_calls_def Stop_def)

text \<open>When the listener fails, nothing is stopped: not the workers of the dispatcher, not the connections.\<close>

lemma listen_failure_stops_nothing: "main_wait (ListenerReturns ListenFailed # evs) = Exited 1"
  by (simp add: main_wait_def listener_returns_def) (induction evs; simp)

subsection \<open>What a start gives\<close>

lemma main_start_ok:
  assumes "migrated sch" and "\<And>s. sql_open drv s = Some c" and "sql_ping drv c"
  shows "\<exists>p. main_start x token drv [] sch mnew objects = Inr p \<and> Tables p = schema3"
  using assms RunMigrations_ok [of sch] by (auto simp: main_start_def Open_def migrated_def Let_def split: prod.split)

text \<open>
  Nothing checks the interval: with 0 seconds in the environment the ticker of the timeout service
  panics in its goroutine, after the first check, and takes the program with it.
\<close>

lemma zero_interval_ends_the_program:
  assumes "getenv x ''ACB_PENDING_TIMEOUT_CHECK_SEC'' = ''0''" and "timeout_enabled (timeouts_of (Load x))"
  shows "fst (run_state (Start (timeouts_of (Load x)) n) w) = None"
proof -
  have "checkInterval (timeouts_of (Load x)) = 0"
    using assms(1) by (simp add: timeouts_of_def NewTimeoutService_def Load_def getEnvInt_def atoi_def decimal_def
      is_digit_def undec_def digit_val_def)
  with assms(2) show ?thesis
    by (simp add: Start_def run_service_def run_state_bind run_state_return split: prod.split)
qed

end
