(* ===== verification/InfraProperties.thy ===== *)
theory InfraProperties
  imports Demo Retries Startup
begin

text \<open>
  What the parts around the task board promise: webhooks that leave only for public addresses
  and signed, bounded and terminating retries, the best next task for an agent, tokens and
  secrets that can be read back, migrations that resume, and what the timeouts do to a retry.
\<close>

subsection \<open>The next task\<close>

lemma best_task_least:
  "best_task b ts \<in> set (b # ts) \<and> list_all (\<lambda>t. Priority (best_task b ts) \<le> Priority t) (b # ts)"
proof (induction ts arbitrary: b)
  case (Cons t ts)
  show ?case
  proof (cases "Priority t < Priority b")
    case True
    with Cons.IH [of t] show ?thesis by auto
  next
    case False
    with Cons.IH [of b] show ?thesis by auto
  qed
qed simp

definition eligible :: "database \<Rightarrow> agent \<Rightarrow> task \<Rightarrow> bool" where
  "eligible d ag t \<longleftrightarrow> distinct (elems (Parents t)) \<and> list_all (completed_in d) (elems (Parents t)) \<and>
     set (elems (RequiredSkills t)) \<subseteq> set (elems (AgSkills ag))"

lemma run_filter_matching:
  "wf_db (db w) \<Longrightarrow> faults w = [] \<Longrightarrow> run_state (filter_matching ag ts) w = (filter (eligible (db w) ag) ts, w)"
proof (induction ts)
  case (Cons t ts)
  have "run_state (if elems (Parents t) = [] then State_Monad.return True else do {
      r \<leftarrow> AreParentsCompleted (elems (Parents t));
      State_Monad.return (case r of Inl e \<Rightarrow> False | Inr done \<Rightarrow> done)
    }) w = (distinct (elems (Parents t)) \<and> list_all (completed_in (db w)) (elems (Parents t)), w)"
    using Cons.prems by (auto simp: run_state_bind run_state_return run_AreParentsCompleted list_all_iff)
  with Cons show ?case
    by (auto simp: run_state_bind run_state_return eligible_def)
qed (simp add: run_state_return)

text \<open>C30. A polling agent gets the best task it may claim: the answer is none exactly when no pending
  task has its parents completed and its required skills among the agent's, and otherwise it is
  such a task whose priority number no other such task goes below.\<close>

theorem next_task_is_best:
  assumes "wf_db (db w)" and "faults w = []" and "find_agent a (db w) = Some ar"
    and "unmarshal_strings (a_skills ar) = Some ss"
  shows "\<exists>res. run_state (FindNextForAgent a) w = (Inr res, w) \<and>
    (let cs = filter (eligible (db w) (agent_columns ar ss)) (map scan_columns (filter (\<lambda>r. t_status r = st_pending) (tasks (db w))))
     in case res of
       None \<Rightarrow> cs = []
     | Some t \<Rightarrow> t \<in> set cs \<and> list_all (\<lambda>c. Priority t \<le> Priority c) cs)"
proof -
  let ?ps = "map scan_columns (filter (\<lambda>r. t_status r = st_pending) (tasks (db w)))"
  let ?cs = "filter (eligible (db w) (agent_columns ar ss)) ?ps"
  have "run_state (List st_pending [] []) w = (Inr (built ?ps), w)"
    using assms(2) by (simp add: List_def run_state_bind run_state_return run_query_ok list_where_def [abs_def])
  then have r: "run_state (FindNextForAgent a) w = (Inr (case ?cs of [] \<Rightarrow> None | m # ms \<Rightarrow> Some (best_task m ms)), w)"
    using assms by (cases "?ps = []") (auto simp: FindNextForAgent_def GetByName_def run_state_bind run_state_return
      run_query_ok scan_agent_def run_filter_matching simp del: filter_matching.simps split: list.splits)
  show ?thesis
  proof (cases ?cs)
    case Nil
    with r show ?thesis by (simp add: Let_def)
  next
    case (Cons m ms)
    with r best_task_least [of m ms] show ?thesis by (simp add: Let_def)
  qed
qed

theorem next_task_is_best_witness:
  "\<exists>res. run_state (FindNextForAgent ''ann'') demo_world = (Inr res, demo_world)"
  using next_task_is_best [of demo_world "''ann''" "demo_agent ''ann'' (Some [''go'', ''python''])"
    "Some [''go'', ''python'']"] by auto

subsection \<open>Addresses\<close>

text \<open>C34. The filter against forged requests refuses exactly these IPv4 addresses, in 4 bytes or mapped
  into 16: this network, the private ranges, loopback and link-local; and of the other 16-byte
  addresses exactly unique-local, link-local and loopback.\<close>

theorem refused_addresses:
  "(isPrivateIP (Some [a, b, c, d]) \<longleftrightarrow> a \<in> {0, 10, 127} \<or> (a = 172 \<and> 16 \<le> b \<and> b < 32) \<or>
      (a = 192 \<and> b = 168) \<or> (a = 169 \<and> b = 254)) \<and>
   (isPrivateIP (Some (ipv4 a b c d)) \<longleftrightarrow> isPrivateIP (Some [a, b, c, d])) \<and>
   (length rest = 14 \<and> take 12 (a # b # rest) \<noteq> v4_prefix \<longrightarrow>
     (isPrivateIP (Some (a # b # rest)) \<longleftrightarrow> a \<in> {252, 253} \<or> (a = 254 \<and> 128 \<le> b \<and> b < 192) \<or>
        a # b # rest = ipv6 0 0 1))"
proof -
  have "252 \<le> a \<and> a < 254 \<longleftrightarrow> a \<in> {252, 253}"
  proof
    assume "252 \<le> a \<and> a < 254"
    then have "unat a = 252 \<or> unat a = 253" by (auto simp: word_le_nat_alt word_less_nat_alt)
    then show "a \<in> {252, 253}" by (auto simp: word_unat_eq_iff)
  qed auto
  moreover have "isPrivateIP (Some (ipv4 a b c d)) \<longleftrightarrow> isPrivateIP (Some [a, b, c, d])"
    by (simp add: isPrivateIP_def ip_contains_def)
  moreover have "isPrivateIP (Some (a # b # rest)) \<longleftrightarrow> (252 \<le> a \<and> a < 254) \<or> (a = 254 \<and> 128 \<le> b \<and> b < 192) \<or>
      a # b # rest = ipv6 0 0 1" if "length rest = 14" "take 12 (a # b # rest) \<noteq> v4_prefix"
  proof -
    have "length rest = Suc (Suc (Suc (Suc (Suc (Suc (Suc (Suc (Suc (Suc (Suc (Suc (Suc (Suc 0)))))))))))))" using that(1) by simp
    then obtain x2 x3 x4 x5 x6 x7 x8 x9 x10 x11 x12 x13 x14 x15 where
      "rest = [x2, x3, x4, x5, x6, x7, x8, x9, x10, x11, x12, x13, x14, x15]"
      by (auto simp: length_Suc_conv)
    with that(2) show ?thesis using isPrivateIP_bytes16 by metis
  qed
  ultimately show ?thesis by (auto simp: isPrivateIP_bytes4)
qed

theorem refused_addresses_witness:
  "isPrivateIP (Some (ipv6 0xfd 0 1)) \<and> \<not> isPrivateIP (Some [8, 8, 8, 8]) \<and> isPrivateIP (Some (ipv4 10 1 2 3))"
  using refused_addresses [where a = "0xfd" and b = 0 and rest = "tl (tl (ipv6 0xfd 0 1))"]
    refused_addresses [where a = 8 and b = 8 and c = 8 and d = 8]
    refused_addresses [where a = 10 and b = 1 and c = 2 and d = 3]
  by (simp add: ipv6_def v4_prefix_def)

text \<open>The unspecified IPv6 address, which reaches the local host, is let through.\<close>

theorem unspecified_address_passes: "\<not> isPrivateIP (Some (replicate 16 0))"
proof -
  have "replicate 16 (0 :: 8 word) = [0, 0, 0, 0, 0, 0, 0, 0, 0, 0, 0, 0, 0, 0, 0, 0]" by (simp add: numeral_eq_Suc)
  with isPrivateIP_bytes16 [of 0 0 0 0 0 0 0 0 0 0 0 0 0 0 0 0] show ?thesis
    by (simp add: v4_prefix_def ipv6_def)
qed

subsection \<open>Webhooks\<close>

text \<open>C21. Webhooks are checked and signed before they are sent: sending a task or a status change posts one
  request exactly when the agent's URL passes the validation at that moment and its secret, if it has
  one, can be opened, and else nothing. The request goes to the agent's URL, whose scheme is https (or
  http where the environment allows it) and whose host has no address, among those the validation
  resolved or had pinned, that \<open>isPrivateIP\<close> refuses, with or without http allowed; it carries the
  signature over its timestamp and body under the decrypted secret when the agent has a secret, and no
  signature when it has none. Which address the HTTP client then connects to is not checked.\<close>

theorem webhooks_checked_and_signed:
  assumes "m = sendWebhook x rdb ag t n \<or> m = sendStatusWebhook x ag t old new action"
    and "run_state m w = ((), w')"
  shows "if deliverable x w ag then \<exists>p. posts w' = posts w @ [p] \<and> checked_post x w ag p else posts w' = posts w"
  using assms sendWebhook_posts [of x rdb ag t n w w'] sendStatusWebhook_posts [of x ag t old new action w w']
  unfolding posts_one_def by blast

definition hooked :: agent where
  "hooked = agent_columns (demo_agent ''ann'' None) None"

theorem webhooks_checked_and_signed_witness:
  "\<exists>p. posts (snd (run_state (sendWebhook demo_env True hooked zero_task 0) demo_world)) = posts demo_world @ [p] \<and>
     checked_post demo_env demo_world hooked p"
proof -
  have "deliverable demo_env demo_world hooked"
    by (simp add: deliverable_def secret_opens_def hooked_def agent_columns_def demo_agent_def demo_valid)
  moreover obtain w' where w: "run_state (sendWebhook demo_env True hooked zero_task 0) demo_world = ((), w')"
    by (cases "run_state (sendWebhook demo_env True hooked zero_task 0) demo_world") simp
  ultimately show ?thesis using webhooks_checked_and_signed [OF disjI1 [OF refl] w] by simp
qed

subsection \<open>The retry queue\<close>

text \<open>C35. The retry queue is bounded: enqueueing on a server that does not fail appends one entry, with the
  next attempt number, to the most recent entries of that agent's queue, which then has at most
  1000; the queues of other agents stay as they are.\<close>

theorem retry_queue_bounded:
  assumes "faults w = []"
  shows "\<exists>w' kept. run_state (enqueueRetry True a t n) w = ((), w') \<and> suffix kept (rget (''acb:retry:'' @ a) w) \<and>
    rget (''acb:retry:'' @ a) w' = kept @ [json_text (entry_json \<lparr>RTask = t, RAgent = a, RAttempt = n + 1\<rparr>)] \<and>
    length kept = min 999 (length (rget (''acb:retry:'' @ a) w)) \<and>
    (\<forall>k. k \<noteq> ''acb:retry:'' @ a \<longrightarrow> rget k w' = rget k w)"
proof -
  let ?k = "retry_queue_prefix @ a"
  let ?e = "json_text (entry_json \<lparr>RTask = t, RAgent = a, RAttempt = n + 1\<rparr>)"
  let ?kept = "drop (length (rget ?k w) - 999) (rget ?k w)"
  have "trim_list (- (maxRetryQueueSize - 1)) (- 1) (rget ?k w) = ?kept"
    using trim_last [of 999 "rget ?k w"] by (simp add: maxRetryQueueSize_def)
  then have "run_state (enqueueRetry True a t n) w = ((), rput ?k (?kept @ [?e]) (rput ?k ?kept w))"
    using assms by (simp add: enqueueRetry_def Let_def run_state_bind run_state_return LTrim_def RPush_def run_redis_ok
      del: json_text.simps)
  then show ?thesis
    unfolding retry_queue_prefix_def [symmetric]
    by (intro exI [where x = ?kept] exI conjI) (auto simp: suffix_drop min_def)
qed

theorem retry_queue_bounded_witness:
  "\<exists>w'. run_state (enqueueRetry True ''ann'' ''t2'' 0) demo_world = ((), w') \<and> length (rget (''acb:retry:'' @ ''ann'') w') = 1"
proof -
  have "rget (''acb:retry:'' @ ''ann'') demo_world = []" by (simp add: rget_def demo_world_def empty_world_def)
  with retry_queue_bounded [of demo_world "''ann''" "''t2''" 0] show ?thesis by (auto simp del: append_Cons json_text.simps)
qed

text \<open>C22. Draining a retry queue ends, whatever is retried and however the webhooks and the servers answer:
  more pops than the weight of the queue change nothing, and when no server fails the queue is
  empty at the end, though failing webhooks are enqueued again while it is drained.\<close>

theorem drain_terminates:
  assumes "queue_weight key w \<le> n"
  shows "run_state (drain (Suc n + m) x rdb key) w = run_state (drain (Suc n) x rdb key) w \<and>
    (faults w = [] \<longrightarrow> rget key (snd (run_state (drain (Suc n) x rdb key) w)) = [])"
  using drain_enough [OF assms] drain_empties [OF assms] by blast

theorem drain_terminates_witness:
  "rget ''acb:retry:ann'' (snd (run_state (drain 6 demo_env True ''acb:retry:ann'')
     (demo_world\<lparr>rlists := [(''acb:retry:ann'', [json_text (entry_json \<lparr>RTask = ''t2'', RAgent = ''ann'', RAttempt = 1\<rparr>)])]\<rparr>))) = []"
proof -
  let ?w = "demo_world\<lparr>rlists := [(''acb:retry:ann'', [json_text (entry_json \<lparr>RTask = ''t2'', RAgent = ''ann'', RAttempt = 1\<rparr>)])]\<rparr>"
  have "queue_weight ''acb:retry:ann'' ?w \<le> 5"
    by (simp add: queue_weight_def rget_def entry_weight_def maxRetries_def del: json_text.simps)
  from drain_terminates [OF this] show ?thesis by (simp add: eval_nat_numeral del: drain.simps)
qed

subsection \<open>Registration\<close>

lemma find_replaced:
  "(\<And>r. k (f r) = x) \<Longrightarrow> find (\<lambda>r. k r = x) (upd_where (\<lambda>r. k r = x) f rs) = map_option f (find (\<lambda>r. k r = x) rs)"
  by (induction rs) auto

lemma find_agent_upsert:
  assumes "int4 (a_port a)"
  shows "\<exists>c. find_agent (a_name a) (snd (sql_upsert_agent a n d)) = Some (a\<lparr>a_last_event_id := c\<rparr>)"
proof (cases "find_agent (a_name a) d")
  case None
  then have "a_name a \<notin> a_name ` set (agents d)" by (simp add: find_agent_def find_key_None)
  with None assms show ?thesis by (auto simp: sql_upsert_agent_def find_agent_def find_append)
next
  case (Some r)
  then have "a_name a \<in> a_name ` set (agents d)" using find_agent_Some [OF Some] by (metis imageI)
  with Some assms show ?thesis
    using find_replaced [of a_name "\<lambda>r. a\<lparr>a_last_event_id := a_last_event_id r\<rparr>" "a_name a" "agents d"]
    by (auto simp: sql_upsert_agent_def find_agent_def)
qed

lemma sql_upsert_fst: "fst (sql_upsert_agent a n d) = (if int4 (a_port a) then Some () else None)"
  by (simp add: sql_upsert_agent_def)

text \<open>A registration that succeeds wrote one row.\<close>

definition registered :: "agent \<Rightarrow> string \<Rightarrow> string \<Rightarrow> string \<Rightarrow> agent_row" where
  "registered a h p s = \<lparr>a_name = AgName a, a_port = AgPort a, a_token = h, a_token_prefix = p,
     a_last_heartbeat = AgLastHeartbeat a, a_skills = marshal_strings (AgSkills a), a_webhook_url = AgWebhookURL a,
     a_webhook_secret = s, a_last_event_id = None\<rparr>"

lemma UpsertAgent_row:
  assumes "run_state (UpsertAgent x salt nonce a) w = (Inr (), w')" and "faults w = []"
  shows "\<exists>h p s c. hashToken x salt (AgToken a) = Inr (h, p) \<and>
    (if AgWebhookSecret a \<noteq> [] then EncryptWebhookSecret x nonce (AgWebhookSecret a) else Inr []) = Inr s \<and>
    faults w' = [] \<and> find_agent (AgName a) (db w') = Some ((registered a h p s)\<lparr>a_last_event_id := c\<rparr>)"
proof -
  obtain h p where h: "hashToken x salt (AgToken a) = Inr (h, p)"
    using assms(1) by (cases "hashToken x salt (AgToken a)") (auto simp: UpsertAgent_def run_state_return)
  obtain s where s: "(if AgWebhookSecret a \<noteq> [] then EncryptWebhookSecret x nonce (AgWebhookSecret a) else Inr []) = Inr s"
    using assms(1) h by (auto simp: UpsertAgent_def run_state_return split: sum.splits)
  have "UpsertAgent x salt nonce a = do {
      r \<leftarrow> exec (sql_upsert_agent (registered a h p s));
      State_Monad.return (case r of None \<Rightarrow> Inl (DbError ''upsert agent'') | Some _ \<Rightarrow> Inr ()) }"
    unfolding UpsertAgent_def h s registered_def by simp
  with assms have w: "w' = w\<lparr>db := snd (sql_upsert_agent (registered a h p s) (now w) (db w))\<rparr>" "int4 (a_port (registered a h p s))"
    by (auto simp: run_state_bind run_state_return run_exec_ok sql_upsert_fst split: if_splits)
  from find_agent_upsert [OF w(2), of "now w" "db w"] h s w(1) assms(2) show ?thesis by (auto simp: registered_def)
qed

text \<open>C28. What an agent registers is read back: its port, skills and URL as they were given, its webhook
  secret by decryption, and its token only as a salted hash that a token passes exactly when
  Argon2id gives it the same hash.\<close>

theorem registration_roundtrip:
  assumes "faults w = []" and "length salt = 16" and "length nonce = 12"
    and "\<And>t. length (argon2_idkey x t salt) = 32" and "\<And>k p. gcm_open x k nonce (gcm_seal x k nonce p) = Some p"
    and "run_state (UpsertAgent x (Some salt) (Some nonce) a) w = (Inr (), w')"
  shows "(\<exists>ag. run_state (GetByName (AgName a)) w' = (Inr (Some ag), w') \<and> AgPort ag = AgPort a \<and>
      AgSkills ag = AgSkills a \<and> AgWebhookURL ag = AgWebhookURL a \<and>
      (AgWebhookSecret a \<noteq> [] \<longrightarrow> DecryptWebhookSecret x (AgWebhookSecret ag) = Inr (AgWebhookSecret a))) \<and>
    run_state (CheckToken x (AgName a) token) w' =
      (Inr (argon2_idkey x token salt = argon2_idkey x (AgToken a) salt), w')"
proof -
  obtain h p s c where h: "hashToken x (Some salt) (AgToken a) = Inr (h, p)"
    and s: "(if AgWebhookSecret a \<noteq> [] then EncryptWebhookSecret x (Some nonce) (AgWebhookSecret a) else Inr []) = Inr s"
    and row: "faults w' = []" "find_agent (AgName a) (db w') = Some ((registered a h p s)\<lparr>a_last_event_id := c\<rparr>)"
    using UpsertAgent_row [OF assms(6,1)] by blast
  have d: "DecryptWebhookSecret x s = Inr (AgWebhookSecret a)" if "AgWebhookSecret a \<noteq> []"
    using s that assms(3,5) by (auto simp: EncryptWebhookSecret_def DecryptWebhookSecret_def nonce_size_def split: sum.splits)
  from row d verifyToken_hashToken [OF assms(2,4) h] show ?thesis
    by (auto simp: GetByName_def CheckToken_def run_state_bind run_state_return run_query_ok scan_agent_def
      agent_columns_def registered_def)
qed

theorem registration_roundtrip_witness:
  "\<exists>w'. run_state (UpsertAgent demo_env (Some (replicate 16 (CHR ''s''))) (Some (replicate 12 (CHR ''n'')))
       (zero_agent\<lparr>AgName := ''eve'', AgWebhookSecret := ''hush''\<rparr>)) demo_world = (Inr (), w') \<and>
     (\<exists>ag. run_state (GetByName ''eve'') w' = (Inr (Some ag), w') \<and>
       DecryptWebhookSecret demo_env (AgWebhookSecret ag) = Inr ''hush'')"
proof -
  let ?a = "zero_agent\<lparr>AgName := ''eve'', AgWebhookSecret := ''hush''\<rparr>"
  let ?m = "UpsertAgent demo_env (Some (replicate 16 (CHR ''s''))) (Some (replicate 12 (CHR ''n''))) ?a"
  obtain w' where r: "run_state ?m demo_world = (Inr (), w')"
    by (auto simp: UpsertAgent_def hashToken_def EncryptWebhookSecret_def zero_agent_def run_state_bind run_state_return
      run_exec_ok sql_upsert_agent_def int4_def)
  from registration_roundtrip [of demo_world "replicate 16 (CHR ''s'')" "replicate 12 (CHR ''n'')" demo_env ?a w', OF _ _ _ _ _ r]
  have "\<exists>ag. run_state (GetByName ''eve'') w' = (Inr (Some ag), w') \<and>
      DecryptWebhookSecret demo_env (AgWebhookSecret ag) = Inr ''hush''" by auto
  with r show ?thesis by blast
qed

text \<open>
  A registration writes no heartbeat: whoever registers again is stale, by any timeout, until the
  next heartbeat.
\<close>

theorem registration_makes_stale:
  assumes "run_state (UpsertAgent x salt nonce (agent_of_input i name token)) w = (Inr (), w')" and "faults w = []"
  shows "\<exists>r. find_agent name (db w') = Some r \<and> is_stale cutoff r"
  using UpsertAgent_row [OF assms] by (fastforce simp: registered_def agent_of_input_def is_stale_def)

subsection \<open>Migrations\<close>

text \<open>C36. Migrations resume: after any number of starts on an empty database, each failing at any of its
  statements or not at all, a start without a failure succeeds and leaves the complete schema, and
  a start that reports success has left it already.\<close>

theorem migrations_resume:
  "let s = foldl (\<lambda>s fs. snd (RunMigrations fs s)) empty_schema starts in
     RunMigrations [] s = (True, schema3) \<and> (fst (RunMigrations fs s) \<longrightarrow> snd (RunMigrations fs s) = schema3)"
proof -
  have m: "migrated (foldl (\<lambda>s fs. snd (RunMigrations fs s)) s starts)" if "migrated s" for s
    using that
  proof (induction starts arbitrary: s)
    case (Cons fs starts)
    from RunMigrations_migrated [OF Cons.prems, of fs] Cons.IH show ?case by (cases "RunMigrations fs s") simp
  qed simp
  have "migrated empty_schema" by (simp add: migrated_def)
  from m [OF this] RunMigrations_migrated [OF m [OF this], of fs] RunMigrations_ok show ?thesis
    by (cases "RunMigrations fs (foldl (\<lambda>s fs. snd (RunMigrations fs s)) empty_schema starts)")
      (auto simp: Let_def migrated_def)
qed

theorem migrations_resume_witness:
  "RunMigrations [] (snd (RunMigrations [False, False, False, True] empty_schema)) = (True, schema3)"
  using migrations_resume [of "[[False, False, False, True]]" "[]"] by (simp add: Let_def)

subsection \<open>A retry and the pending timeout\<close>

lemma keeps_clock: "keeps now (exec s)" "keeps now (query q)"
  by (auto simp: keeps_def query_def exec_def split: list.split prod.split)

lemma FailTask_frame:
  assumes "run_state (FailTask i x) w = (r, w')"
  shows "now w' = now w" "faults w = [] \<Longrightarrow> faults w' = []" "wf_db (db w) \<Longrightarrow> wf_db (db w')"
proof -
  have "keeps now (FailTask i x)" "calm (FailTask i x)"
    unfolding FailTask_def conflict_or_missing_def current_status_def logTaskEvent_def InsertEvent_def GetByID_def
    by (intro keeps_intros keeps_clock calm_intros)+
  from keeps_run [OF this(1) assms] calm_run [OF this(2) assms]
  show "now w' = now w" "faults w = [] \<Longrightarrow> faults w' = []" .
  show "wf_db (db w')" if "wf_db (db w)"
    using issues_FailTask [of False i x] that assms db_writes_wf unfolding issues_def by (metis snd_conv)
qed

text \<open>
  The pending timeout counts from the creation of a task, not from its last change: a task older
  than that, failed by its agent and put back for a retry, is failed for good by the next check.
\<close>

theorem retry_expires_at_once:
  assumes "wf_db (db w)" and "faults w = []" and "find_task i (db w) = Some r"
    and "t_status r = st_in_progress" and "0 < t_max_retries r \<and> t_retry_count r < t_max_retries r"
    and "int4 (t_retry_count r + 1)" and "0 < m" and "t_created_at r < now w - minutes m"
  shows "\<exists>w1 res w2 ids. run_state (FailTask i x) w = (Inr res, w1) \<and> DidRetry res \<and>
    run_state (ExpirePendingTasks m) w1 = (Inr ids, w2) \<and> i \<in> set (elems ids) \<and>
    map_option t_status (find_task i (db w2)) = Some st_failed"
proof -
  obtain w1 where 1: "run_state (FailTask i x) w = (Inr \<lparr>FTask = Some (scanTaskRow (retried (now w) x r)),
      DidRetry = True, Attempt = t_retry_count r + 1, MaxRetry = t_max_retries r\<rparr>, w1)"
    "find_task i (db w1) = Some (retried (now w) x r)"
    using run_FailTask_retry [OF assms(1-6)] by blast
  have w1: "wf_db (db w1)" "faults w1 = []" "now w1 = now w"
    using FailTask_frame [OF 1(1)] assms(1,2) by simp_all
  have e: "pending_expired m (now w1) (retried (now w) x r)"
    using assms(8) w1 by (simp add: pending_expired_def retried_def set_status_def)
  obtain w2 where 2: "run_state (ExpirePendingTasks m) w1 =
      (Inr (built (map t_id (filter (pending_expired m (now w1)) (tasks (db w1))))), w2)"
    "swept (pending_expired m (now w1)) (failed (now w1) expired_summary) (db w1) (db w2)"
    using run_ExpirePendingTasks [OF w1(1,2) assms(7)] by blast
  from 2(2) 1(2) e have "find_task i (db w2) = Some (failed (now w1) expired_summary (retried (now w) x r))"
    by (simp add: swept_def)
  with 1 2 e find_task_Some [OF 1(2)] show ?thesis by (force simp: image_iff)
qed

text \<open>The notice of a retry goes to nobody: the retry has cleared the assignee it would be sent to.\<close>

theorem retry_notice_is_never_sent:
  "NotifyStatusChange (scanTaskRow (retried n x r)) old new action = State_Monad.return ()"
  by (simp add: NotifyStatusChange_def scanTaskRow_def scan_columns_def)

subsection \<open>The goroutines of the dispatcher\<close>

text \<open>C16. The senders share the semaphore and never get stuck: however goroutines are started, run and
  stopped, at most 10 hold the semaphore, the wait group counts exactly the goroutines that have
  entered it, and the senders, left alone, can all finish, until only the loop is left.\<close>

theorem senders_share_semaphore:
  assumes "pool_step\<^sup>*\<^sup>* (NewDispatcher rdb) d"
  shows "count (goroutines d) Sending \<le> 10 \<and>
    wg d + count (goroutines d) Begun = size (goroutines d) \<and>
    (\<exists>d'. sender_step\<^sup>*\<^sup>* d d' \<and> set_mset (goroutines d') \<subseteq> {Looping})"
  using pool_inv_steps [OF assms pool_inv_new] senders_finish [of d]
  by (simp add: pool_inv_def semaphoreSize_def)

definition demo_pool :: "nat \<Rightarrow> pool" where
  "demo_pool n = (NewDispatcher True)\<lparr>wg := n, goroutines := replicate_mset n Counted\<rparr>"

lemma demo_pool_reached: "pool_step\<^sup>*\<^sup>* (NewDispatcher True) (demo_pool n)"
proof (induction n)
  case 0
  then show ?case by (simp add: demo_pool_def NewDispatcher_def)
next
  case (Suc n)
  have "pool_step (demo_pool n) (demo_pool (Suc n))"
    using pool_notify [of "demo_pool n"] by (simp add: demo_pool_def)
  with Suc show ?case by (rule rtranclp.rtrancl_into_rtrancl)
qed

theorem senders_share_semaphore_witness:
  "count (goroutines (demo_pool 12)) Sending \<le> 10 \<and>
    (\<exists>d'. sender_step\<^sup>*\<^sup>* (demo_pool 12) d' \<and> set_mset (goroutines d') \<subseteq> {Looping})"
  using senders_share_semaphore [OF demo_pool_reached [of 12]] by simp

lemma pool_then: "pool_step\<^sup>*\<^sup>* a b \<Longrightarrow> pool_step b c \<Longrightarrow> pool_step\<^sup>*\<^sup>* a c"
  by (rule rtranclp.rtrancl_into_rtrancl)

lemma pool_started: "pool_step\<^sup>*\<^sup>* d (start_dispatcher d)"
  by (rule r_into_rtranclp) (rule pool_start)

text \<open>
  The bound is not one on webhooks: retries are sent by the goroutines of the queues, which do not
  take the semaphore, so any number of them can be sending.
\<close>

theorem retries_pass_the_semaphore:
  "\<exists>d. pool_step\<^sup>*\<^sup>* (NewDispatcher True) d \<and> count (goroutines d) Draining = n \<and> semaphore d = 0"
proof -
  let ?d1 = "start_dispatcher (NewDispatcher True)"
  let ?d2 = "?d1\<lparr>wg := wg ?d1 + n, goroutines := goroutines ?d1 + replicate_mset n Draining\<rparr>"
  have l: "loop_step ?d1 ?d2" by (rule loop_tick) (simp_all add: start_dispatcher_def NewDispatcher_def)
  have "pool_step\<^sup>*\<^sup>* (NewDispatcher True) ?d2"
    by (rule pool_then [OF pool_started pool_loop [OF l]])
  moreover have "count (goroutines ?d2) Draining = n" "semaphore ?d2 = 0"
    by (simp_all add: start_dispatcher_def NewDispatcher_def)
  ultimately show ?thesis by blast
qed

text \<open>
  \<open>Stop\<close> can return while a webhook is still to be sent: \<open>DispatchNewTask\<close> starts its goroutines
  before they enter the wait group.
\<close>

theorem stop_misses_a_sender:
  "\<exists>d. pool_step\<^sup>*\<^sup>* (NewDispatcher True) d \<and> cancelled d \<and> stop_returns d \<and> Begun \<in># goroutines d"
proof -
  let ?d1 = "start_dispatcher (NewDispatcher True)"
  let ?d2 = "?d1\<lparr>goroutines := add_mset Begun (goroutines ?d1)\<rparr>"
  let ?d3 = "stop_cancel ?d2"
  let ?d4 = "?d3\<lparr>wg := wg ?d3 - 1, goroutines := {#Begun#}\<rparr>"
  have l: "loop_step ?d3 ?d4"
    by (rule loop_exit) (simp_all add: start_dispatcher_def NewDispatcher_def stop_cancel_def add_mset_commute)
  have "pool_step\<^sup>*\<^sup>* (NewDispatcher True) ?d4"
    by (rule pool_then [OF pool_then [OF pool_then [OF pool_started pool_dispatch] pool_cancel] pool_loop [OF l]])
  moreover have "cancelled ?d4" "stop_returns ?d4" "Begun \<in># goroutines ?d4"
    by (simp_all add: start_dispatcher_def NewDispatcher_def stop_cancel_def stop_returns_def)
  ultimately show ?thesis by blast
qed

end
