(* ===== verification/Spec2Isabelle.thy ===== *)
theory Spec2Isabelle
  imports Times ThreadProperties RunProperties RepoProperties HandlerProperties ArtifactProperties RequestProperties InfraProperties
begin

text \<open>
  A verification library for ACB, a task board for software agents: a Go server in front of
  PostgreSQL, Redis and an S3 object store. Clients create tasks with parents and required skills;
  agents poll or are called by webhook, claim a task, work on it and complete it, fail it or
  block it behind a gate that a person answers; background services expire tasks, release
  those of silent agents and retry webhooks. Paths below are under \<^verbatim>\<open>src/\<close>.

  \<^bold>\<open>How the program is modelled.\<close> The code keeps no state of its own but the pin cache of the
  webhook validator, the limiter's buckets and the goroutines that are running, so the state
  is the record \<open>world\<close> (theory \<open>Store\<close>): the tables as lists of rows, the clock, the Redis
  lists and publications, the requests posted, the started goroutines, and a list of faults:
  each statement or Redis command takes one entry and fails when it says so, so that a theorem
  over all worlds covers a failure at every point. A repository method or handler is a function
  on the world in the state monad, with the code's guards and early returns in their order; an
  error is a value of \<open>repo_error\<close> or \<open>store_error\<close>, a nil dereference is \<open>NilDeref\<close> and ends in
  the 500 of \<open>PanicRecovery\<close>. Every SQL text is an atomic function on the tables (\<open>Statements\<close>)
  with the keys and constraints of the schema. Goroutines are values of \<open>job\<close> that run later
  as operations of their own, in any order. In a run operations go one after the other; calls of
  the repositories that run at the same time are threads of statements (\<open>Threads\<close>) whose
  statements take turns in any order (\<open>Interleavings\<close>), among any other writes of the program.
\<close>

text \<open>
  \<^bold>\<open>The theories\<close>, in the order of their imports.

  \<^item> \<open>Prelude\<close>: Go slices, status names, decimal numbers, tables as lists, collections of facts.
    \<open>Json\<close> (encoding and parsing of the JSON columns and bodies, with its round trip), \<open>Like\<close>
    (the SQL operator), \<open>Net\<close> (IP addresses as bytes, the ranges of \<open>isPrivateIP\<close>), \<open>Urls\<close>
    (\<^verbatim>\<open>url.Parse\<close> down to the host name), \<open>Models\<close> (\<^verbatim>\<open>internal/models\<close>), \<open>Times\<close> (\<open>parseTime\<close> of the repository, with the layouts of
    \<^verbatim>\<open>time.Parse\<close> it uses, and its property), \<open>Calendar\<close> (clock readings as RFC 3339 texts).
  \<^item> \<open>Store\<close>, \<open>Statements\<close>: the tables of \<^verbatim>\<open>internal/db/schema.go\<close>, the world, and one definition
    per SQL statement that writes. \<open>db_write\<close> lists them with what holds where the code issues
    them; \<open>issues\<close> says that an operation writes by them only. \<open>Schema\<close>: the migrations.
  \<^item> \<open>EventRepo\<close>, \<open>TaskRepo\<close>, \<open>GateRepo\<close>, \<open>AgentRepo\<close>, \<open>Crypto\<close>: the files of \<^verbatim>\<open>internal/db\<close>,
    one definition per method under its name. \<open>Config\<close>: \<^verbatim>\<open>internal/config\<close>.
  \<^item> \<open>Bus\<close> (\<^verbatim>\<open>internal/redis\<close> and the Redis commands), \<open>Validator\<close>, \<open>Dispatcher\<close>, \<open>Pool\<close>
    (\<^verbatim>\<open>internal/dispatcher\<close>: URL checks, webhooks and retries, goroutines and their semaphore).
  \<^item> \<open>Http\<close>, \<open>TaskHandler\<close>, \<open>AgentHandler\<close>, \<open>ArtifactHandler\<close>, \<open>Dashboard\<close>, \<open>Bodies\<close> (how the
    handlers decode the bytes of a body into their structs), \<open>Router\<close>: the files of
    \<^verbatim>\<open>internal/api\<close>; a handler whose name clashes with its repository method ends in \<open>_handler\<close>.
    \<open>ObjectStore\<close>: \<^verbatim>\<open>internal/rustfs\<close>. \<open>TimeoutService\<close>: \<^verbatim>\<open>internal/timeout\<close>. \<open>Startup\<close>: \<^verbatim>\<open>main.go\<close>
    and \<^verbatim>\<open>internal/db/db.go\<close>.
  \<^item> \<open>System\<close>: the routes, background services and goroutines as operations \<open>op\<close> of one state
    machine, and \<open>runs\<close>, the states a run goes through.
  \<^item> \<open>Lifecycle\<close>, \<open>Invariants\<close>, \<open>Transitions\<close>, \<open>Races\<close>, \<open>Outcomes\<close>, \<open>Children\<close>, \<open>Frames\<close>, \<open>Retries\<close>:
    the lemmas the properties rest on. \<open>Threads\<close>: the methods that write as trees of statements, each
    proved equal to the method. \<open>Interleavings\<close> and \<open>Schedules\<close>: how the
    statements of several calls take turns, in any order and in a given one; \<open>Stability\<close>: what
    stays true of one task meanwhile. \<open>Demo\<close>: a small state at which they are exercised.
  \<^item> \<open>RunProperties\<close>, \<open>RepoProperties\<close>, \<open>HandlerProperties\<close>, \<open>ArtifactProperties\<close>,
    \<open>RequestProperties\<close>, \<open>InfraProperties\<close>, \<open>ThreadProperties\<close>: the properties, numbered C1 to C40.
\<close>

text \<open>
  \<^bold>\<open>What is shown.\<close>

  \<^item> Runs, whose operations go one after the other (\<open>RunProperties\<close>): the task state machine \<open>row_step\<close> of
    \<open>Lifecycle\<close> is the abstract specification, and every run of the program refines it. The lemmas
    come from the locales \<open>write_closed\<close>, \<open>row_relation\<close> and \<open>row_invariant\<close>: what every statement
    keeps, every operation keeps.
  \<^item> Requests (\<open>RequestProperties\<close>): who changes anything, and work on a task from the bytes of the
    requests to the row. Of the matcher of chi they use \<open>matcher_ok\<close> (it picks a registered route that
    fits) and \<open>matcher_finds\<close> (it finds the one that fits), what its documentation says.
  \<^item> Operations (\<open>RepoProperties\<close>, \<open>HandlerProperties\<close>, \<open>ArtifactProperties\<close>): what claims, failures,
    completions, timeouts, releases, gates, lists, graphs, the event feed and the artifact
    handlers do, over \<open>transition\<close> and \<open>gate_transition\<close> (one guarded UPDATE and its loop),
    \<open>contest\<close> (guarded UPDATEs that compete for a task) and \<open>object_storage\<close> (what a store keeps, interpreted on the minio store).
  \<^item> The parts around them (\<open>InfraProperties\<close>): where webhooks go and how they are signed (\<open>untouched\<close>
    follows the parts of the world an operation leaves alone), retries that are bounded and end,
    secrets and tokens, migrations, the choice of the next task, the goroutines.
  \<^item> Calls at the same time (\<open>ThreadProperties\<close>): what every statement keeps holds in every
    interleaving (\<open>stmt_closed\<close>, on the gates, the log, the identities and the columns), and of
    calls that contend for a task one at most takes it (\<open>contest\<close>: claims, completions, failures),
    the first claim when no statement fails. Calls that begin when a task is finished leave it so,
    and without releases its retries stay bounded (\<open>stable\<close>: what a thread may rely on and keeps);
    \<open>late_release_reopens\<close> and \<open>retries_exceed\<close> show that both need their conditions.
  \<^item> Where the code does not do what it means to, a theorem without a number shows what it
    does instead, such as \<open>never_exits_cleanly\<close> of \<open>Startup\<close>, \<open>unblock_reopens_any_task\<close> or \<open>retry_expires_at_once\<close>.

  \<^bold>\<open>Bounds.\<close> The one loop whose end depends on what it does is the drain of a retry queue; it is
  given a number of pops, and \<open>drain_terminates\<close> shows that the weight of the queue, at most 5
  per entry that can be retried, is enough and more changes nothing. The other loops run over
  lists. Numbers are unbounded but where a column's 32 bits (\<open>int4\<close>), the shift of the backoff
  (64 bits) or the bytes of addresses (8-bit words) matter.

  \<^bold>\<open>Parameters.\<close> \<open>extern\<close> (\<open>Crypto\<close>) holds the environment, Argon2id, SHA-256, AES-GCM, HMAC, the
  resolver, the reading of IP literals in URLs and the JSON texts of timestamps, which have the zone of
  the database's session; random bytes, UUIDs and the token bucket are arguments; so are the matcher of
  chi (\<open>Router\<close>), the minio client (\<open>ObjectStore\<close>), the casts of timestamps by PostgreSQL and the
  parsing of multipart forms. Of the standard library what the code uses is written
  out: JSON, base64, \<^verbatim>\<open>time.Parse\<close> and RFC 3339, \<^verbatim>\<open>url.Parse\<close> and \<^verbatim>\<open>url.ParseQuery\<close>, \<^verbatim>\<open>net.IP\<close>, \<^verbatim>\<open>strconv.Atoi\<close>,
  \<^verbatim>\<open>strings.TrimSpace\<close>. The JSON reader is given twice the length of the text and one as fuel, which
  \<open>parse_val_fuel\<close> shows to be enough.

  \<^bold>\<open>Not modelled.\<close> The database driver and the network below it (\<open>Open\<close> of \<open>Startup\<close> takes the
  driver as a parameter); log messages other than the request log; response headers other than the
  content type; the HTTP server itself; paths whose escapes make chi route by \<^verbatim>\<open>RawPath\<close> instead of the
  decoded path; the end of a download whose stream breaks after its first byte (\<^verbatim>\<open>io.Copy\<close>, whose error
  the code ignores); a failure in the middle of reading rows, other than one of the query; a commit
  that fails after the server has committed; what a failed \<^verbatim>\<open>json.Unmarshal\<close> of a column leaves in the
  slice, which \<open>columns_decode\<close> shows not to happen; PostgreSQL's refusal of texts with a zero byte, which
  is one of the faults; interleavings of handlers between
  their calls of the repositories and of the statements that only read, beyond the reads the
  writing methods make; the timeouts of HTTP requests; the order of rows that no ORDER BY fixes
  (the model keeps that of insertion); the end of the SERIAL sequences; the Python and shell clients under \<^verbatim>\<open>scripts\<close>.
\<close>

end
